(* ===== verification/Prelude.thy ===== *)
theory Prelude
  imports Main "HOL-Library.AList" "HOL-Library.List_Lexorder" "HOL-Library.Product_Lexorder"
begin

text \<open>
  Shared vocabulary of the development: Python strings, times, dictionaries, JSON values and
  results, with the lemmas on them that every component uses.

  \<^item> A Python \<open>str\<close> is a list of Unicode code points (\<open>str\<close>); \<open>lit\<close> embeds an ASCII literal.
    The library's lexicographic order on lists is Python's order on strings, and the one on pairs
    is Python's order on tuples.
  \<^item> A \<open>datetime\<close> (always UTC in the source) and a \<open>timedelta\<close> are integers, in microseconds.
  \<^item> A dictionary whose iteration order the code observes is an association list in insertion
    order: \<open>map_of\<close> looks a key up, \<open>AList.update\<close> overwrites in place or appends, which is what
    assignment to a Python dictionary does. A dictionary that is only looked up is a map.
  \<^item> A method that may raise returns \<open>(error + value) \<times> state\<close>: the state is there on both
    branches, so that a change made before a raise stays visible.
\<close>

section \<open>Strings, times, JSON values\<close>

type_synonym str = "nat list"
type_synonym datetime = int
type_synonym timedelta = int
type_synonym ('k, 'v) dict = "('k \<times> 'v) list"
type_synonym ('e, 'a, 's) outcome = "('e + 'a) \<times> 's"

definition lit :: "string \<Rightarrow> str" where
  "lit cs = map of_char cs"

text \<open>\<open>sep.join(words)\<close>, and \<open>str\<close> of an integer.\<close>

fun join_strs :: "str \<Rightarrow> str list \<Rightarrow> str" where
  "join_strs sep [] = []"
| "join_strs sep [w] = w"
| "join_strs sep (w # v # ws) = w @ sep @ join_strs sep (v # ws)"

function show_nat :: "nat \<Rightarrow> str" where
  "show_nat n = (if n < 10 then [48 + n] else show_nat (n div 10) @ [48 + n mod 10])"
  by pat_completeness auto
termination by (relation "measure (\<lambda>n. n)") auto

declare show_nat.simps [simp del]

definition show_int :: "int \<Rightarrow> str" where
  "show_int i = (if i < 0 then 45 # show_nat (nat (- i)) else show_nat (nat i))"

definition seconds :: "int \<Rightarrow> timedelta" where
  "seconds n = n * 1000000"

definition minutes :: "int \<Rightarrow> timedelta" where
  "minutes n = seconds (60 * n)"

definition days :: "int \<Rightarrow> timedelta" where
  "days n = seconds (86400 * n)"

text \<open>
  The values \<open>json.loads\<close> produces. The code never computes with a float: it only prints it and
  tests its truth value, so a float carries its \<open>repr\<close> and whether it is non-zero.
\<close>

datatype json =
    JNull
  | JBool bool
  | JInt int
  | JFloat str bool
  | JStr str
  | JList "json list"
  | JObj "(str \<times> json) list"

text \<open>\<open>bool(value)\<close>, the test of \<open>value or default\<close>.\<close>

fun truthy :: "json \<Rightarrow> bool" where
  "truthy JNull = False"
| "truthy (JBool b) = b"
| "truthy (JInt i) = (i \<noteq> 0)"
| "truthy (JFloat _ nz) = nz"
| "truthy (JStr s) = (s \<noteq> [])"
| "truthy (JList xs) = (xs \<noteq> [])"
| "truthy (JObj kvs) = (kvs \<noteq> [])"

text \<open>\<open>d.get(key)\<close> on a decoded object, with \<open>None\<close> for a missing key.\<close>

definition jget :: "(str, json) dict \<Rightarrow> str \<Rightarrow> json" where
  "jget d k = (case map_of d k of None \<Rightarrow> JNull | Some v \<Rightarrow> v)"

section \<open>Results\<close>

abbreviation (input) Return :: "'a \<Rightarrow> 's \<Rightarrow> ('e, 'a, 's) outcome" where
  "Return v s \<equiv> (Inr v, s)"

abbreviation (input) Raise :: "'e \<Rightarrow> 's \<Rightarrow> ('e, 'a, 's) outcome" where
  "Raise e s \<equiv> (Inl e, s)"

named_theorems op_defs \<open>definitions of the operations of a component\<close>
named_theorems inv_defs \<open>definitions of the invariants of a component\<close>
named_theorems dict_simps \<open>rewriting with dictionaries\<close>

section \<open>Lemmas on literals\<close>

lemma lit_inject [simp]: "lit a = lit b \<longleftrightarrow> a = b"
  unfolding lit_def by (rule inj_map_eq_map) (simp add: inj_def)

lemma lit_Nil [simp]: "lit [] = []"
  by (simp add: lit_def)

lemma lit_eq_Nil [simp]: "lit a = [] \<longleftrightarrow> a = []" "[] = lit a \<longleftrightarrow> a = []"
  by (auto simp: lit_def)

section \<open>Dictionaries as association lists\<close>

abbreviation dkeys :: "('k, 'v) dict \<Rightarrow> 'k list" where
  "dkeys d \<equiv> map fst d"

abbreviation dvalues :: "('k, 'v) dict \<Rightarrow> 'v list" where
  "dvalues d \<equiv> map snd d"

text \<open>The loop that rewrites, in place, the entries a condition selects.\<close>

definition drewrite :: "('k \<Rightarrow> 'v \<Rightarrow> bool) \<Rightarrow> ('v \<Rightarrow> 'v) \<Rightarrow> ('k, 'v) dict \<Rightarrow> ('k, 'v) dict" where
  "drewrite P f d = map (\<lambda>(k, v). (k, if P k v then f v else v)) d"

text \<open>The loop that pops the entries a condition selects.\<close>

definition ddrop :: "('k \<Rightarrow> 'v \<Rightarrow> bool) \<Rightarrow> ('k, 'v) dict \<Rightarrow> ('k, 'v) dict" where
  "ddrop P d = filter (\<lambda>(k, v). \<not> P k v) d"

declare map_of_eq_Some_iff [simp del] Some_eq_map_of_iff [simp del]

lemma map_of_update [simp, dict_simps]:
  "map_of (AList.update k v d) k' = (if k' = k then Some v else map_of d k')"
  by (simp add: update_conv')

lemma dkeys_update [simp]: "fst ` set (AList.update k v d) = insert k (fst ` set d)"
  by (simp add: dom_update)

lemma map_of_delete [simp, dict_simps]:
  "map_of (AList.delete k d) k' = (if k' = k then None else map_of d k')"
  by (simp add: delete_conv')

lemma dkeys_drewrite [simp]: "dkeys (drewrite P f d) = dkeys d"
  by (simp add: drewrite_def comp_def case_prod_unfold)

lemma map_of_drewrite [simp, dict_simps]:
  "map_of (drewrite P f d) k = map_option (\<lambda>v. if P k v then f v else v) (map_of d k)"
  by (induction d) (auto simp: drewrite_def)

lemma distinct_ddrop [intro]: "distinct (dkeys d) \<Longrightarrow> distinct (dkeys (ddrop P d))"
  by (simp add: ddrop_def distinct_map_filter)

lemma map_of_ddrop [dict_simps]:
  "distinct (dkeys d) \<Longrightarrow> map_of (ddrop P d) k =
     (case map_of d k of None \<Rightarrow> None | Some v \<Rightarrow> if P k v then None else Some v)"
  by (induction d) (auto simp: ddrop_def rev_image_eqI split: option.splits dest!: map_of_SomeD)

lemma set_ddrop [simp]: "set (ddrop P d) = {(k, v) \<in> set d. \<not> P k v}"
  by (auto simp: ddrop_def)

lemma in_dict_iff: "distinct (dkeys d) \<Longrightarrow> (k, v) \<in> set d \<longleftrightarrow> map_of d k = Some v"
  by (metis map_of_SomeD map_of_is_SomeI)

lemma dvalues_iff: "distinct (dkeys d) \<Longrightarrow> v \<in> snd ` set d \<longleftrightarrow> (\<exists>k. map_of d k = Some v)"
  by (auto simp: in_dict_iff [symmetric]) force

lemma list_ex_dvalues:
  assumes "distinct (dkeys d)"
  shows "list_ex P (dvalues d) \<longleftrightarrow> (\<exists>k v. map_of d k = Some v \<and> P v)"
proof -
  have "list_ex P (dvalues d) \<longleftrightarrow> (\<exists>k v. (k, v) \<in> set d \<and> P v)"
    by (simp add: list_ex_iff Bex_def)
  then show ?thesis by (simp add: in_dict_iff [OF assms])
qed

lemma dkeys_filter:
  "set (dkeys (filter (\<lambda>(k, v). P k v) d)) = {k. \<exists>v. (k, v) \<in> set d \<and> P k v}"
  by force

lemma dkeys_iff: "k \<in> set (dkeys d) \<longleftrightarrow> map_of d k \<noteq> None"
  by (metis map_of_eq_None_iff set_map)

text \<open>How many values satisfy a condition, before and after one entry changes.\<close>

lemma count_update:
  assumes "distinct (dkeys d)" and "map_of d k = Some old"
  shows "length (filter P (dvalues (AList.update k new d))) + (if P old then 1 else 0)
       = length (filter P (dvalues d)) + (if P new then 1 else 0)"
  using assms
proof (induction d)
  case Nil
  then show ?case by simp
next
  case (Cons p d)
  show ?case
  proof (cases "fst p = k")
    case True
    with Cons.prems show ?thesis by (cases p) auto
  next
    case False
    with Cons show ?thesis by (cases p) auto
  qed
qed

lemma update_fresh: "map_of d k = None \<Longrightarrow> AList.update k v d = d @ [(k, v)]"
  by (induction d) (auto split: if_splits)

lemma Let_pair_if [simp]:
  "fst (if b then x else y) = (if b then fst x else fst y)"
  "snd (if b then x else y) = (if b then snd x else snd y)"
  by simp_all

end
