(* ===== verification/Platform_State.thy ===== *)
theory Platform_State
  imports Prelude
begin

text \<open>
  The value objects and the shared state of the platform: \<open>src/src/ownership/models.py\<close>,
  \<open>src/src/conversation/models.py\<close>, the run model of \<open>src/src/agent/runs.py\<close>, the events of
  \<open>src/src/agent/events.py\<close> and the process state of \<open>src/src/repo/inmemory/state.py\<close>.

  Python classes share field names; a record field here carries the prefix of its class
  (\<open>a_\<close> Actor, \<open>o_\<close> OwnerRecord, \<open>u_\<close> UserRecord, \<open>s_\<close> SessionRecord, \<open>c_\<close> Conversation,
  \<open>m_\<close> ConversationMessage, \<open>r_\<close> AgentRun, \<open>g_\<close> RunGrant, \<open>x_\<close> ExecutionAuthorization,
  \<open>e_\<close> RunEvent, \<open>q_\<close> the request record).

  All methods of the in-memory stores run under one re-entrant lock, so each is one atomic step on
  the state. A \<open>defaultdict(list)\<close> is a total function into lists: a missing key reads as the empty
  list, and no code distinguishes the two.
\<close>

section \<open>Errors\<close>

text \<open>
  The exceptions of \<open>agent/errors.py\<close>, \<open>conversation/errors.py\<close> and \<open>ownership/errors.py\<close>, with
  the built-in ones the stores can raise.
\<close>

datatype error =
    InvalidRunId | RunNotFound | InvalidRunTransition str | RunAuthorizationInvalid
  | InvalidConversationId | InvalidMessage | ConversationNotFound | ConversationBusy
  | ConversationDeleting | IdempotencyConflict | InvalidClientRequestId | InvalidTitle
  | RetryNotAllowed | AnonymousLimitExceeded
  | AccessTokenMissing | AccessTokenInvalid | AccessTokenExpired | SessionInactive
  | RefreshRequired | InvalidCredentials | UsernameTaken | InvalidUsername | InvalidPassword
  | AccountRequired | AccountServiceUnavailable | IdentityConflict | AuthRateLimited
  | KeyError str | StopIteration | ValueError str | UnicodeEncodeError

type_synonym ('a, 's) res = "(error, 'a, 's) outcome"

section \<open>Ownership values\<close>

datatype actor_kind = Guest | User | Temporary_guest

datatype runtime_mode = Durable | Temporary

record actor =
  a_owner_id :: str
  a_kind :: actor_kind
  a_session_id :: str
  a_username :: "str option"
  a_mode :: runtime_mode

definition is_user :: "actor \<Rightarrow> bool" where
  "is_user a \<longleftrightarrow> a_kind a = User"

datatype lifecycle = Active | Deleting

record owner_record =
  o_owner_id :: str
  o_kind :: actor_kind
  o_lifecycle_state :: lifecycle
  o_authorization_epoch :: int

record user_record =
  u_owner_id :: str
  u_username_normalized :: str
  u_username_display :: str
  u_password_hash :: str

record session_record =
  s_session_id :: str
  s_owner_id :: str
  s_actor_kind :: actor_kind
  s_refresh_hash :: str
  s_expires_at :: datetime
  s_revoked_at :: "datetime option"
  s_previous_refresh_hash :: "str option"
  s_previous_valid_until :: "datetime option"

record run_grant =
  g_grant_id :: str
  g_run_id :: str
  g_owner_id :: str
  g_tenant_id :: str
  g_conversation_id :: str
  g_allowed_data_scopes :: "str list"
  g_allowed_action_classes :: "str list"
  g_authorization_epoch :: int
  g_requested_by_session_id :: str
  g_expires_at :: datetime
  g_revoked_at :: "datetime option"

record execution_authorization =
  x_run_id :: str
  x_owner_id :: str
  x_tenant_id :: str
  x_conversation_id :: str
  x_allowed_data_scopes :: "str list"
  x_allowed_action_classes :: "str list"
  x_authorization_epoch :: int

section \<open>Conversations and messages\<close>

datatype title_source = Title_auto | Title_manual

record conversation =
  c_conversation_id :: str
  c_owner_id :: str
  c_owner_kind :: actor_kind
  c_lifecycle_state :: lifecycle
  c_title :: str
  c_title_source :: title_source
  c_created_at :: datetime
  c_updated_at :: datetime
  c_last_successful_at :: "datetime option"

datatype role = Role_user | Role_assistant

record conversation_message =
  m_message_id :: str
  m_conversation_id :: str
  m_owner_id :: str
  m_role :: role
  m_content :: str
  m_sequence :: int
  m_created_at :: datetime
  m_client_request_id :: "str option"
  m_source_run_id :: "str option"
  m_reply_to_message_id :: "str option"
  m_content_blocks :: "(str, str) dict list"

section \<open>Runs and their events\<close>

datatype run_status =
  Queued | Running | Waiting_approval | Succeeded | Failed | Cancelled | Incompatible

definition active_status :: "run_status \<Rightarrow> bool" where
  "active_status st \<longleftrightarrow> st \<in> {Queued, Running, Waiting_approval}"

definition terminal_status :: "run_status \<Rightarrow> bool" where
  "terminal_status st \<longleftrightarrow> st \<in> {Succeeded, Failed, Cancelled, Incompatible}"

record agent_run =
  r_run_id :: str
  r_conversation_id :: str
  r_owner_id :: str
  r_input_message_id :: str
  r_grant_id :: str
  r_status :: run_status
  r_runtime_contract_version :: int
  r_created_at :: datetime
  r_updated_at :: datetime
  r_output_message_id :: "str option"
  r_retry_of_run_id :: "str option"
  r_started_at :: "datetime option"
  r_completed_at :: "datetime option"
  r_cancel_requested_at :: "datetime option"
  r_terminal_reason_code :: "str option"
  r_terminal_message :: "str option"
  r_phase :: "str option"
  r_completed_nodes :: int
  r_total_nodes :: int
  r_claimed_by :: "str option"
  r_claim_token :: "str option"
  r_lease_expires_at :: "datetime option"
  r_execution_attempt :: int
  r_selected_skill_id :: "str option"
  r_selected_skill_name :: "str option"

definition terminal :: "agent_run \<Rightarrow> bool" where
  "terminal r = terminal_status (r_status r)"

record run_creation =
  rc_run :: agent_run
  rc_input_message :: conversation_message

record run_event =
  e_run_id :: str
  e_sequence :: int
  e_type :: str
  e_payload :: "(str, json) dict"
  e_created_at :: datetime

section \<open>The shared state\<close>

text \<open>The \<open>operation\<close> of a request record: the source writes \<open>"create"\<close> or \<open>"retry:<run id>"\<close>.\<close>

datatype request_operation = Op_create | Op_retry str

record request_record =
  q_operation :: request_operation
  q_payload :: str
  q_run_id :: str
  q_input_message_id :: str

record platform_state =
  owners :: "(str, owner_record) dict"
  users :: "str \<rightharpoonup> user_record"
  users_by_name :: "str \<rightharpoonup> str"
  sessions :: "(str, session_record) dict"
  conversations :: "(str, conversation) dict"
  messages :: "str \<Rightarrow> conversation_message list"
  runs :: "(str, agent_run) dict"
  run_events :: "str \<Rightarrow> run_event list"
  grants :: "str \<rightharpoonup> run_grant"
  requests :: "(str \<times> str) \<rightharpoonup> request_record"
  guest_creates :: "str \<Rightarrow> datetime list"

definition empty_state :: platform_state where
  "empty_state = \<lparr>owners = [], users = Map.empty, users_by_name = Map.empty, sessions = [],
     conversations = [], messages = (\<lambda>_. []), runs = [], run_events = (\<lambda>_. []),
     grants = Map.empty, requests = Map.empty, guest_creates = (\<lambda>_. [])\<rparr>"

lemma active_or_terminal: "active_status st \<longleftrightarrow> \<not> terminal_status st"
  by (cases st) (auto simp: active_status_def terminal_status_def)

lemma status_classes [simp]:
  "active_status Queued" "active_status Running" "active_status Waiting_approval"
  "terminal_status Succeeded" "terminal_status Failed" "terminal_status Cancelled"
  "terminal_status Incompatible"
  "\<not> active_status Succeeded" "\<not> active_status Failed" "\<not> active_status Cancelled"
  "\<not> active_status Incompatible"
  "\<not> terminal_status Queued" "\<not> terminal_status Running" "\<not> terminal_status Waiting_approval"
  by (simp_all add: active_status_def terminal_status_def)

end
