(* ===== verification/Ownership_Store.thy ===== *)
theory Ownership_Store
  imports Platform_State
begin

text \<open>
  \<open>src/src/repo/inmemory/ownership.py\<close>: owners, users and refreshable sessions. Each method of the
  class is one definition (the ones whose names other stores use carry the suffix \<open>_record\<close>); the
  values of \<open>uuid4()\<close> are arguments in the order of the calls.

  The invariant \<open>ownership_inv\<close> says how the five tables agree; every operation keeps it when the
  identifiers it is given are fresh.
\<close>

section \<open>Operations\<close>

definition new_session :: "str \<Rightarrow> str \<Rightarrow> actor_kind \<Rightarrow> str \<Rightarrow> datetime \<Rightarrow> session_record" where
  "new_session session_id owner_id kind refresh_hash expires_at =
     \<lparr>s_session_id = session_id, s_owner_id = owner_id, s_actor_kind = kind,
      s_refresh_hash = refresh_hash, s_expires_at = expires_at, s_revoked_at = None,
      s_previous_refresh_hash = None, s_previous_valid_until = None\<rparr>"

definition new_owner :: "str \<Rightarrow> actor_kind \<Rightarrow> owner_record" where
  "new_owner owner_id kind =
     \<lparr>o_owner_id = owner_id, o_kind = kind, o_lifecycle_state = Active, o_authorization_epoch = 1\<rparr>"

definition create_guest ::
  "str \<Rightarrow> str \<Rightarrow> actor_kind \<Rightarrow> str \<Rightarrow> datetime \<Rightarrow> platform_state
   \<Rightarrow> (owner_record \<times> session_record) \<times> platform_state" where
  "create_guest owner_id session_id actor_kind refresh_hash expires_at s =
     (let owner = new_owner owner_id actor_kind;
          session = new_session session_id owner_id actor_kind refresh_hash expires_at
      in ((owner, session),
          s\<lparr>owners := AList.update owner_id owner (owners s),
            sessions := AList.update session_id session (sessions s)\<rparr>))"

record refresh_lookup =
  rl_session :: session_record
  rl_matched_previous :: bool

fun find_session :: "str \<Rightarrow> datetime \<Rightarrow> session_record list \<Rightarrow> refresh_lookup option" where
  "find_session refresh_hash now [] = None"
| "find_session refresh_hash now (session # rest) =
     (if s_refresh_hash session = refresh_hash
      then Some \<lparr>rl_session = session, rl_matched_previous = False\<rparr>
      else if s_previous_refresh_hash session = Some refresh_hash
              \<and> (case s_previous_valid_until session of None \<Rightarrow> False | Some t \<Rightarrow> t > now)
      then Some \<lparr>rl_session = session, rl_matched_previous = True\<rparr>
      else find_session refresh_hash now rest)"

definition find_refresh :: "str \<Rightarrow> datetime \<Rightarrow> platform_state \<Rightarrow> refresh_lookup option" where
  "find_refresh refresh_hash now s = find_session refresh_hash now (dvalues (sessions s))"

definition rotate :: "str \<Rightarrow> datetime \<Rightarrow> session_record \<Rightarrow> session_record" where
  "rotate new_hash previous_valid_until session =
     session\<lparr>s_refresh_hash := new_hash,
             s_previous_refresh_hash := Some (s_refresh_hash session),
             s_previous_valid_until := Some previous_valid_until\<rparr>"

definition put_session :: "str \<Rightarrow> session_record \<Rightarrow> platform_state \<Rightarrow> platform_state" where
  "put_session session_id session s =
     s\<lparr>sessions := AList.update session_id session (sessions s)\<rparr>"

definition rotate_refresh ::
  "str \<Rightarrow> str \<Rightarrow> str \<Rightarrow> datetime \<Rightarrow> platform_state \<Rightarrow> (session_record, platform_state) res" where
  "rotate_refresh session_id expected_hash new_hash previous_valid_until s =
     (case map_of (sessions s) session_id of
        None \<Rightarrow> Raise SessionInactive s
      | Some session \<Rightarrow>
          if s_refresh_hash session \<noteq> expected_hash then Raise SessionInactive s
          else let updated = rotate new_hash previous_valid_until session
               in Return updated (put_session session_id updated s))"

definition get_session :: "str \<Rightarrow> platform_state \<Rightarrow> session_record option" where
  "get_session session_id s = map_of (sessions s) session_id"

definition get_owner :: "str \<Rightarrow> platform_state \<Rightarrow> owner_record option" where
  "get_owner owner_id s = map_of (owners s) owner_id"

definition revoke :: "datetime \<Rightarrow> session_record \<Rightarrow> session_record" where
  "revoke now session = session\<lparr>s_revoked_at := Some now\<rparr>"

definition revoke_session :: "str \<Rightarrow> datetime \<Rightarrow> platform_state \<Rightarrow> platform_state" where
  "revoke_session session_id now s =
     (case map_of (sessions s) session_id of
        None \<Rightarrow> s
      | Some session \<Rightarrow>
          if s_revoked_at session = None then put_session session_id (revoke now session) s else s)"

definition revoke_if_active :: "str option \<Rightarrow> datetime \<Rightarrow> platform_state \<Rightarrow> platform_state" where
  "revoke_if_active session_id now s =
     (case session_id of None \<Rightarrow> s
      | Some sid \<Rightarrow>
          (case map_of (sessions s) sid of
             None \<Rightarrow> s
           | Some previous \<Rightarrow>
               if s_revoked_at previous = None then put_session sid (revoke now previous) s else s))"

definition register_user ::
  "str \<Rightarrow> str \<Rightarrow> str \<Rightarrow> str \<Rightarrow> str \<Rightarrow> str \<Rightarrow> datetime \<Rightarrow> str option \<Rightarrow> datetime \<Rightarrow> platform_state
   \<Rightarrow> (user_record \<times> session_record, platform_state) res" where
  "register_user owner_id session_id username_normalized username_display password_hash
       refresh_hash expires_at revoke_session_id revoke_at s =
     (if username_normalized \<in> dom (users_by_name s) then Raise UsernameTaken s
      else
      let owner = new_owner owner_id User;
          user = \<lparr>u_owner_id = owner_id, u_username_normalized = username_normalized,
                  u_username_display = username_display, u_password_hash = password_hash\<rparr>;
          session = new_session session_id owner_id User refresh_hash expires_at;
          s1 = s\<lparr>owners := AList.update owner_id owner (owners s),
                 users := (users s)(owner_id \<mapsto> user),
                 users_by_name := (users_by_name s)(username_normalized \<mapsto> owner_id),
                 sessions := AList.update session_id session (sessions s)\<rparr>
      in Return (user, session) (revoke_if_active revoke_session_id revoke_at s1))"

definition find_user_by_name :: "str \<Rightarrow> platform_state \<Rightarrow> user_record option" where
  "find_user_by_name username_normalized s =
     (case users_by_name s username_normalized of None \<Rightarrow> None | Some owner_id \<Rightarrow> users s owner_id)"

definition get_user :: "str \<Rightarrow> platform_state \<Rightarrow> user_record option" where
  "get_user owner_id s = users s owner_id"

definition create_account_session ::
  "str \<Rightarrow> str \<Rightarrow> str \<Rightarrow> datetime \<Rightarrow> str option \<Rightarrow> datetime \<Rightarrow> platform_state
   \<Rightarrow> (session_record, platform_state) res" where
  "create_account_session session_id owner_id refresh_hash expires_at revoke_session_id revoke_at s =
     (case map_of (owners s) owner_id of
        None \<Rightarrow> Raise SessionInactive s
      | Some owner \<Rightarrow>
          if o_lifecycle_state owner \<noteq> Active then Raise SessionInactive s
          else let session = new_session session_id owner_id User refresh_hash expires_at
               in Return session
                    (revoke_if_active revoke_session_id revoke_at (put_session session_id session s)))"

text \<open>
  The password change rewrites every session of the owner: the current one is rotated, every other
  live one revoked. The final read \<open>sessions[current_session_id]\<close> raises after the changes when the
  session is gone.
\<close>

definition change_password_record ::
  "str \<Rightarrow> str \<Rightarrow> str \<Rightarrow> str \<Rightarrow> datetime \<Rightarrow> datetime \<Rightarrow> platform_state
   \<Rightarrow> (session_record \<times> str list, platform_state) res" where
  "change_password_record owner_id current_session_id password_hash refresh_hash
       previous_valid_until now s =
     (case users s owner_id of
        None \<Rightarrow> Raise (KeyError owner_id) s
      | Some user \<Rightarrow>
          let s1 = s\<lparr>users := (users s)(owner_id \<mapsto> user\<lparr>u_password_hash := password_hash\<rparr>)\<rparr>;
              step = (\<lambda>(sid, session).
                 (sid, if s_owner_id session \<noteq> owner_id then session
                       else if sid = current_session_id then rotate refresh_hash previous_valid_until session
                       else if s_revoked_at session = None then revoke now session
                       else session));
              revoked = dkeys (filter (\<lambda>(sid, session). s_owner_id session = owner_id
                          \<and> sid \<noteq> current_session_id \<and> s_revoked_at session = None) (sessions s1));
              s2 = s1\<lparr>sessions := map step (sessions s1)\<rparr>
          in (case map_of (sessions s2) current_session_id of
                None \<Rightarrow> Raise (KeyError current_session_id) s2
              | Some session \<Rightarrow> Return (session, revoked) s2))"

definition mark_owner_deleting ::
  "str \<Rightarrow> datetime \<Rightarrow> platform_state \<Rightarrow> str list \<times> platform_state" where
  "mark_owner_deleting owner_id now s =
     (case map_of (owners s) owner_id of
        None \<Rightarrow> ([], s)
      | Some owner \<Rightarrow>
          (dkeys (filter (\<lambda>(_, session). s_owner_id session = owner_id) (sessions s)),
           s\<lparr>owners := AList.update owner_id
                (owner\<lparr>o_lifecycle_state := Deleting,
                       o_authorization_epoch := o_authorization_epoch owner + 1\<rparr>) (owners s),
             sessions := drewrite (\<lambda>_ session. s_owner_id session = owner_id) (revoke now) (sessions s)\<rparr>))"

definition deleting_owner_ids :: "platform_state \<Rightarrow> str list" where
  "deleting_owner_ids s =
     dkeys (filter (\<lambda>(_, owner). o_lifecycle_state owner = Deleting) (owners s))"

definition delete_owner :: "str \<Rightarrow> platform_state \<Rightarrow> platform_state" where
  "delete_owner owner_id s =
     (let names = (case users s owner_id of None \<Rightarrow> users_by_name s
                   | Some user \<Rightarrow> (users_by_name s)(u_username_normalized user := None))
      in s\<lparr>users := (users s)(owner_id := None),
           users_by_name := names,
           sessions := ddrop (\<lambda>_ session. s_owner_id session = owner_id) (sessions s),
           owners := AList.delete owner_id (owners s)\<rparr>)"

definition orphan_guests :: "datetime \<Rightarrow> platform_state \<Rightarrow> str list" where
  "orphan_guests now s =
     (let referenced = c_owner_id ` set (dvalues (conversations s)) in
      dkeys (filter (\<lambda>(owner_id, owner). o_kind owner \<noteq> User \<and> owner_id \<notin> referenced
         \<and> \<not> list_ex (\<lambda>session. s_owner_id session = owner_id \<and> s_revoked_at session = None
                          \<and> s_expires_at session > now) (dvalues (sessions s))) (owners s)))"

definition delete_orphan_guests :: "datetime \<Rightarrow> platform_state \<Rightarrow> nat \<times> platform_state" where
  "delete_orphan_guests now s =
     (let candidates = orphan_guests now s in
      (length candidates,
       s\<lparr>sessions := ddrop (\<lambda>_ session. s_owner_id session \<in> set candidates) (sessions s),
         owners := ddrop (\<lambda>owner_id _. owner_id \<in> set candidates) (owners s),
         guest_creates := (\<lambda>k. if k \<in> set candidates then [] else guest_creates s k)\<rparr>))"

section \<open>Invariant\<close>

definition ownership_inv :: "platform_state \<Rightarrow> bool" where
  "ownership_inv s \<longleftrightarrow> distinct (dkeys (owners s)) \<and> distinct (dkeys (sessions s))
     \<and> (\<forall>k w. map_of (owners s) k = Some w \<longrightarrow> o_owner_id w = k)
     \<and> (\<forall>k x. map_of (sessions s) k = Some x \<longrightarrow>
          s_session_id x = k \<and> map_of (owners s) (s_owner_id x) \<noteq> None)
     \<and> (\<forall>k u. users s k = Some u \<longrightarrow> u_owner_id u = k
          \<and> users_by_name s (u_username_normalized u) = Some k
          \<and> (\<exists>w. map_of (owners s) k = Some w \<and> o_kind w = User))
     \<and> (\<forall>n k. users_by_name s n = Some k \<longrightarrow>
          (\<exists>u. users s k = Some u \<and> u_username_normalized u = n))"

definition fresh_owner_ids :: "str \<Rightarrow> str \<Rightarrow> platform_state \<Rightarrow> bool" where
  "fresh_owner_ids oid sid s \<longleftrightarrow> map_of (owners s) oid = None \<and> map_of (sessions s) sid = None"

lemma ownership_invI:
  assumes "distinct (dkeys (owners s))" and "distinct (dkeys (sessions s))"
    and "\<And>k w. map_of (owners s) k = Some w \<Longrightarrow> o_owner_id w = k"
    and "\<And>k x. map_of (sessions s) k = Some x \<Longrightarrow> s_session_id x = k \<and> map_of (owners s) (s_owner_id x) \<noteq> None"
    and "\<And>k u. users s k = Some u \<Longrightarrow> u_owner_id u = k \<and> users_by_name s (u_username_normalized u) = Some k
          \<and> (\<exists>w. map_of (owners s) k = Some w \<and> o_kind w = User)"
    and "\<And>n k. users_by_name s n = Some k \<Longrightarrow> \<exists>u. users s k = Some u \<and> u_username_normalized u = n"
  shows "ownership_inv s"
  unfolding ownership_inv_def using assms by blast

lemma ownership_invD:
  assumes "ownership_inv s"
  shows "distinct (dkeys (owners s))" and "distinct (dkeys (sessions s))"
    and "map_of (owners s) k = Some w \<Longrightarrow> o_owner_id w = k"
    and "map_of (sessions s) k = Some x \<Longrightarrow> s_session_id x = k \<and> map_of (owners s) (s_owner_id x) \<noteq> None"
    and "users s k = Some u \<Longrightarrow> u_owner_id u = k \<and> users_by_name s (u_username_normalized u) = Some k
          \<and> (\<exists>w. map_of (owners s) k = Some w \<and> o_kind w = User)"
    and "users_by_name s n = Some k \<Longrightarrow> \<exists>u. users s k = Some u \<and> u_username_normalized u = n"
  using assms unfolding ownership_inv_def by blast+

lemma no_owner_no_user: "ownership_inv s \<Longrightarrow> map_of (owners s) k = None \<Longrightarrow> users s k = None"
  using ownership_invD(5) by (metis not_None_eq option.distinct(1))

text \<open>Rewriting one session, keeping its identity.\<close>

lemma put_session_inv:
  assumes "ownership_inv s" and "map_of (sessions s) sid = Some x"
    and "s_session_id x' = s_session_id x" and "s_owner_id x' = s_owner_id x"
  shows "ownership_inv (put_session sid x' s)"
  using assms by (auto simp: ownership_inv_def put_session_def distinct_update)

lemma rotate_revoke_simps [simp]:
  "s_session_id (rotate h t x) = s_session_id x" "s_owner_id (rotate h t x) = s_owner_id x"
  "s_session_id (revoke now x) = s_session_id x" "s_owner_id (revoke now x) = s_owner_id x"
  "s_expires_at (rotate h t x) = s_expires_at x" "s_expires_at (revoke now x) = s_expires_at x"
  "s_revoked_at (rotate h t x) = s_revoked_at x" "s_revoked_at (revoke now x) = Some now"
  "s_actor_kind (rotate h t x) = s_actor_kind x" "s_actor_kind (revoke now x) = s_actor_kind x"
  by (simp_all add: rotate_def revoke_def)

lemma revoke_if_active_inv: "ownership_inv s \<Longrightarrow> ownership_inv (revoke_if_active sid now s)"
  by (auto simp: revoke_if_active_def split: option.splits intro: put_session_inv)

lemma revoke_session_inv: "ownership_inv s \<Longrightarrow> ownership_inv (revoke_session sid now s)"
  by (auto simp: revoke_session_def split: option.splits intro: put_session_inv)

lemma rotate_refresh_inv: "ownership_inv s \<Longrightarrow> ownership_inv (snd (rotate_refresh sid h h' t s))"
  by (auto simp: rotate_refresh_def Let_def split: option.splits intro: put_session_inv)

text \<open>A fresh owner with a first session.\<close>

lemma add_owner_inv:
  assumes inv: "ownership_inv s" and fresh: "fresh_owner_ids oid sid s"
  shows "ownership_inv (s\<lparr>owners := AList.update oid (new_owner oid kind) (owners s),
     sessions := AList.update sid (new_session sid oid kind h t) (sessions s)\<rparr>)" (is "ownership_inv ?t")
proof (rule ownership_invI)
  have "users s oid = None"
    using no_owner_no_user [OF inv] fresh by (simp add: fresh_owner_ids_def)
  then show "u_owner_id u = k \<and> users_by_name ?t (u_username_normalized u) = Some k
      \<and> (\<exists>w. map_of (owners ?t) k = Some w \<and> o_kind w = User)" if "users ?t k = Some u" for k u
    using that ownership_invD(5) [OF inv, of k u] by auto
  show "s_session_id x = k \<and> map_of (owners ?t) (s_owner_id x) \<noteq> None"
    if "map_of (sessions ?t) k = Some x" for k x
    using that ownership_invD(4) [OF inv, of k x] by (auto simp: new_session_def split: if_splits)
  show "o_owner_id w = k" if "map_of (owners ?t) k = Some w" for k w
    using that ownership_invD(3) [OF inv, of k w] by (auto simp: new_owner_def split: if_splits)
  show "\<exists>u. users ?t k = Some u \<and> u_username_normalized u = n" if "users_by_name ?t n = Some k" for n k
    using that ownership_invD(6) [OF inv] by simp
qed (use ownership_invD(1,2) [OF inv] in \<open>simp_all add: distinct_update\<close>)

lemma create_guest_inv:
  assumes "ownership_inv s" and "fresh_owner_ids oid sid s"
  shows "ownership_inv (snd (create_guest oid sid kind h t s))"
  using add_owner_inv [OF assms] by (simp add: create_guest_def Let_def)

lemma register_user_inv:
  assumes inv: "ownership_inv s" and fresh: "fresh_owner_ids oid sid s"
  shows "ownership_inv (snd (register_user oid sid un ud pw h t rs ra s))"
proof (cases "un \<in> dom (users_by_name s)")
  case True
  with inv show ?thesis by (simp add: register_user_def)
next
  case False
  let ?s1 = "s\<lparr>owners := AList.update oid (new_owner oid User) (owners s),
     sessions := AList.update sid (new_session sid oid User h t) (sessions s)\<rparr>"
  let ?u = "\<lparr>u_owner_id = oid, u_username_normalized = un, u_username_display = ud, u_password_hash = pw\<rparr>"
  let ?t = "s\<lparr>owners := AList.update oid (new_owner oid User) (owners s),
     users := (users s)(oid \<mapsto> ?u), users_by_name := (users_by_name s)(un \<mapsto> oid),
     sessions := AList.update sid (new_session sid oid User h t) (sessions s)\<rparr>"
  have inv1: "ownership_inv ?s1" by (rule add_owner_inv [OF inv fresh])
  have nu: "users s oid = None"
    using no_owner_no_user [OF inv] fresh by (simp add: fresh_owner_ids_def)
  have "ownership_inv ?t"
  proof (rule ownership_invI)
    show "u_owner_id u = k \<and> users_by_name ?t (u_username_normalized u) = Some k
        \<and> (\<exists>w. map_of (owners ?t) k = Some w \<and> o_kind w = User)" if "users ?t k = Some u" for k u
      using that ownership_invD(5) [OF inv, of k u] False
      by (auto simp: new_owner_def split: if_splits)
    show "\<exists>u. users ?t k = Some u \<and> u_username_normalized u = n" if "users_by_name ?t n = Some k" for n k
      using that ownership_invD(6) [OF inv, of n k] nu by (auto split: if_splits)
  qed (use ownership_invD [OF inv1] in simp_all)
  moreover have "snd (register_user oid sid un ud pw h t rs ra s) = revoke_if_active rs ra ?t"
    using False by (simp add: register_user_def Let_def)
  ultimately show ?thesis by (simp add: revoke_if_active_inv)
qed

lemma create_account_session_inv:
  assumes "ownership_inv s" and "map_of (sessions s) sid = None"
  shows "ownership_inv (snd (create_account_session sid oid h t rs ra s))"
proof -
  have "ownership_inv (put_session sid (new_session sid oid User h t) s)"
    if "map_of (owners s) oid = Some w" for w
    using assms that by (auto simp: ownership_inv_def put_session_def new_session_def distinct_update)
  with assms show ?thesis
    by (auto simp: create_account_session_def Let_def split: option.splits intro: revoke_if_active_inv)
qed

lemma map_of_map_step:
  "map_of (map (\<lambda>(k, v). (k, f k v)) d) k = map_option (f k) (map_of d k)"
  by (induction d) auto

lemma dkeys_map_step: "dkeys (map (\<lambda>(k, v). (k, f k v)) d) = dkeys d"
  by (induction d) auto

text \<open>What a password change does to a session.\<close>

definition after_change ::
  "str \<Rightarrow> str \<Rightarrow> str \<Rightarrow> datetime \<Rightarrow> datetime \<Rightarrow> str \<Rightarrow> session_record \<Rightarrow> session_record" where
  "after_change oid cur h until now sid x =
     (if s_owner_id x \<noteq> oid then x
      else if sid = cur then rotate h until x
      else if s_revoked_at x = None then revoke now x else x)"

lemma after_change_simps [simp]:
  "s_session_id (after_change oid cur h until now sid x) = s_session_id x"
  "s_owner_id (after_change oid cur h until now sid x) = s_owner_id x"
  by (simp_all add: after_change_def)

lemma change_password_sessions:
  assumes "users s oid \<noteq> None"
  shows "map_of (sessions (snd (change_password_record oid cur pw h until now s))) sid =
      map_option (after_change oid cur h until now sid) (map_of (sessions s) sid)"
    and "dkeys (sessions (snd (change_password_record oid cur pw h until now s))) = dkeys (sessions s)"
    and "owners (snd (change_password_record oid cur pw h until now s)) = owners s"
    and "users_by_name (snd (change_password_record oid cur pw h until now s)) = users_by_name s"
    and "users (snd (change_password_record oid cur pw h until now s)) =
      (users s)(oid := map_option (\<lambda>u. u\<lparr>u_password_hash := pw\<rparr>) (users s oid))"
  using assms
  by (auto simp: change_password_record_def Let_def map_of_map_step dkeys_map_step after_change_def
      split: option.splits intro!: option.map_cong)

lemma change_password_inv:
  assumes inv: "ownership_inv s"
  shows "ownership_inv (snd (change_password_record oid cur pw h until now s))" (is "ownership_inv ?t")
proof (cases "users s oid")
  case None
  with inv show ?thesis by (simp add: change_password_record_def)
next
  case (Some u0)
  then have "users s oid \<noteq> None" by simp
  note facts = change_password_sessions [OF this, where cur = cur and pw = pw and h = h
    and until = until and now = now]
  show ?thesis
  proof (rule ownership_invI)
    show "s_session_id x = k \<and> map_of (owners ?t) (s_owner_id x) \<noteq> None"
      if "map_of (sessions ?t) k = Some x" for k x
      using that ownership_invD(4) [OF inv, of k] unfolding facts by auto
    show "u_owner_id u = k \<and> users_by_name ?t (u_username_normalized u) = Some k
        \<and> (\<exists>w. map_of (owners ?t) k = Some w \<and> o_kind w = User)" if "users ?t k = Some u" for k u
      using that ownership_invD(5) [OF inv, of k] Some unfolding facts by (auto split: if_splits)
    show "\<exists>u. users ?t k = Some u \<and> u_username_normalized u = n" if "users_by_name ?t n = Some k" for n k
      using that ownership_invD(6) [OF inv, of n k] Some unfolding facts by auto
  qed (use ownership_invD(1-3) [OF inv] in \<open>simp_all add: facts\<close>)
qed

lemma mark_owner_deleting_inv:
  assumes inv: "ownership_inv s"
  shows "ownership_inv (snd (mark_owner_deleting oid now s))" (is "ownership_inv ?t")
proof (cases "map_of (owners s) oid")
  case None
  with inv show ?thesis by (simp add: mark_owner_deleting_def)
next
  case (Some w0)
  then have t: "owners ?t = AList.update oid (w0\<lparr>o_lifecycle_state := Deleting,
       o_authorization_epoch := o_authorization_epoch w0 + 1\<rparr>) (owners s)"
    "sessions ?t = drewrite (\<lambda>_ session. s_owner_id session = oid) (revoke now) (sessions s)"
    "users ?t = users s" "users_by_name ?t = users_by_name s"
    by (simp_all add: mark_owner_deleting_def)
  show ?thesis
  proof (rule ownership_invI)
    show "o_owner_id w = k" if "map_of (owners ?t) k = Some w" for k w
      using that ownership_invD(3) [OF inv] Some unfolding t by (auto split: if_splits)
    show "s_session_id x = k \<and> map_of (owners ?t) (s_owner_id x) \<noteq> None"
      if "map_of (sessions ?t) k = Some x" for k x
      using that ownership_invD(4) [OF inv, of k] unfolding t by auto
    show "u_owner_id u = k \<and> users_by_name ?t (u_username_normalized u) = Some k
        \<and> (\<exists>w. map_of (owners ?t) k = Some w \<and> o_kind w = User)" if "users ?t k = Some u" for k u
      using that ownership_invD(5) [OF inv, of k u] Some unfolding t by auto
  qed (use ownership_invD(1,2,6) [OF inv] in \<open>simp_all add: t distinct_update\<close>)
qed

lemma delete_owner_inv:
  assumes inv: "ownership_inv s"
  shows "ownership_inv (delete_owner oid s)" (is "ownership_inv ?t")
proof -
  note d = map_of_ddrop [OF ownership_invD(2) [OF inv]]
  have t: "owners ?t = AList.delete oid (owners s)" "users ?t = (users s)(oid := None)"
    "sessions ?t = ddrop (\<lambda>_ session. s_owner_id session = oid) (sessions s)"
    by (simp_all add: delete_owner_def Let_def)
  have names: "users_by_name ?t n = Some k \<longleftrightarrow> users_by_name s n = Some k \<and> k \<noteq> oid" for n k
  proof (cases "users s oid")
    case None
    then have "users_by_name ?t = users_by_name s" by (simp add: delete_owner_def Let_def)
    moreover have "users_by_name s n \<noteq> Some oid" using ownership_invD(6) [OF inv, of n oid] None by auto
    ultimately show ?thesis by auto
  next
    case (Some u)
    then have "users_by_name ?t = (users_by_name s)(u_username_normalized u := None)"
      by (simp add: delete_owner_def Let_def)
    moreover have "users_by_name s (u_username_normalized u) = Some oid"
      using ownership_invD(5) [OF inv Some] by simp
    moreover have "users_by_name s n \<noteq> Some oid" if "n \<noteq> u_username_normalized u"
      using ownership_invD(6) [OF inv, of n oid] Some that by auto
    ultimately show ?thesis by (cases "n = u_username_normalized u") auto
  qed
  show ?thesis
  proof (rule ownership_invI)
    show "s_session_id x = k \<and> map_of (owners ?t) (s_owner_id x) \<noteq> None"
      if "map_of (sessions ?t) k = Some x" for k x
      using that ownership_invD(4) [OF inv, of k x] unfolding t d by (auto split: option.splits if_splits)
    show "u_owner_id u = k \<and> users_by_name ?t (u_username_normalized u) = Some k
        \<and> (\<exists>w. map_of (owners ?t) k = Some w \<and> o_kind w = User)" if "users ?t k = Some u" for k u
      using that ownership_invD(5) [OF inv, of k u] unfolding t names by (auto split: if_splits)
    show "\<exists>u. users ?t k = Some u \<and> u_username_normalized u = n" if "users_by_name ?t n = Some k" for n k
      using that ownership_invD(6) [OF inv, of n k] unfolding t names by auto
    show "o_owner_id w = k" if "map_of (owners ?t) k = Some w" for k w
      using that ownership_invD(3) [OF inv, of k w] unfolding t by (simp split: if_splits)
  qed (use ownership_invD(1,2) [OF inv] in \<open>auto simp: t distinct_delete\<close>)
qed

lemma orphan_guests_iff:
  assumes inv: "ownership_inv s"
  shows "k \<in> set (orphan_guests now s) \<longleftrightarrow>
     (\<exists>w. map_of (owners s) k = Some w \<and> o_kind w \<noteq> User)
     \<and> (\<forall>c \<in> set (dvalues (conversations s)). c_owner_id c \<noteq> k)
     \<and> (\<forall>sid x. map_of (sessions s) sid = Some x \<and> s_owner_id x = k \<longrightarrow>
          s_revoked_at x \<noteq> None \<or> s_expires_at x \<le> now)" (is "?l \<longleftrightarrow> ?r")
proof -
  have own: "(k, w) \<in> set (owners s) \<longleftrightarrow> map_of (owners s) k = Some w" for w
    by (rule in_dict_iff [OF ownership_invD(1) [OF inv]])
  have ses: "list_ex Q (dvalues (sessions s)) \<longleftrightarrow> (\<exists>sid x. map_of (sessions s) sid = Some x \<and> Q x)" for Q
    by (rule list_ex_dvalues [OF ownership_invD(2) [OF inv]])
  have "?l \<longleftrightarrow> (\<exists>w. (k, w) \<in> set (owners s) \<and> o_kind w \<noteq> User)
      \<and> k \<notin> c_owner_id ` set (dvalues (conversations s))
      \<and> \<not> list_ex (\<lambda>x. s_owner_id x = k \<and> s_revoked_at x = None \<and> s_expires_at x > now) (dvalues (sessions s))"
    unfolding orphan_guests_def Let_def dkeys_filter by blast
  also have "\<dots> \<longleftrightarrow> ?r"
    unfolding own ses by (auto simp: not_less)
  finally show ?thesis .
qed

lemma delete_orphan_guests_inv:
  assumes inv: "ownership_inv s"
  shows "ownership_inv (snd (delete_orphan_guests now s))" (is "ownership_inv ?t")
proof -
  note d = map_of_ddrop [OF ownership_invD(2) [OF inv]] map_of_ddrop [OF ownership_invD(1) [OF inv]]
  have t: "owners ?t = ddrop (\<lambda>k _. k \<in> set (orphan_guests now s)) (owners s)"
    "sessions ?t = ddrop (\<lambda>_ x. s_owner_id x \<in> set (orphan_guests now s)) (sessions s)"
    "users ?t = users s" "users_by_name ?t = users_by_name s"
    by (simp_all add: delete_orphan_guests_def Let_def)
  have user: "k \<notin> set (orphan_guests now s)" if "users s k = Some u" for k u
    using orphan_guests_iff [OF inv] ownership_invD(5) [OF inv that] by auto
  show ?thesis
  proof (rule ownership_invI)
    show "s_session_id x = k \<and> map_of (owners ?t) (s_owner_id x) \<noteq> None"
      if "map_of (sessions ?t) k = Some x" for k x
      using that ownership_invD(4) [OF inv, of k x] unfolding t d by (auto split: option.splits if_splits)
    show "u_owner_id u = k \<and> users_by_name ?t (u_username_normalized u) = Some k
        \<and> (\<exists>w. map_of (owners ?t) k = Some w \<and> o_kind w = User)" if "users ?t k = Some u" for k u
      using that ownership_invD(5) [OF inv, of k u] user [of k u] unfolding t d by auto
    show "o_owner_id w = k" if "map_of (owners ?t) k = Some w" for k w
      using that ownership_invD(3) [OF inv, of k w] unfolding t d by (simp split: option.splits if_splits)
  qed (use ownership_invD(1,2,6) [OF inv] in \<open>auto simp: t\<close>)
qed

end
