(* ===== verification/Conversation_Store.thy ===== *)
theory Conversation_Store
  imports Platform_State
begin

text \<open>
  \<open>src/src/repo/inmemory/conversation.py\<close>: creation, listing, renaming and deletion of
  conversations. Each method is one definition of the same name. A call of \<open>uuid4()\<close> is an
  argument; what the code relies on is that it is fresh.

  The lemmas show the contract of the listing (newest first, cut by the cursor key, without loss or
  repetition when the pages are put together), the limits on guests and what a deletion removes.
\<close>

section \<open>Internal guards\<close>

definition require_conversation :: "str \<Rightarrow> str \<Rightarrow> platform_state \<Rightarrow> error + conversation" where
  "require_conversation owner_id conversation_id s =
     (case map_of (conversations s) conversation_id of
        None \<Rightarrow> Inl ConversationNotFound
      | Some item \<Rightarrow> if c_owner_id item \<noteq> owner_id then Inl ConversationNotFound else Inr item)"

text \<open>\<open>max((item.sequence ...), default=0) + 1\<close>.\<close>

definition next_sequence :: "str \<Rightarrow> platform_state \<Rightarrow> int" where
  "next_sequence conversation_id s =
     (let seqs = map m_sequence (messages s conversation_id)
      in (if seqs = [] then 0 else Max (set seqs)) + 1)"

definition require_active_owner_if_known :: "str \<Rightarrow> platform_state \<Rightarrow> error + unit" where
  "require_active_owner_if_known owner_id s =
     (case map_of (owners s) owner_id of
        None \<Rightarrow> Inr ()
      | Some owner \<Rightarrow>
          if o_lifecycle_state owner \<noteq> Active then Inl SessionInactive else Inr ())"

section \<open>Operations\<close>

definition default_title :: str where
  "default_title = [26032, 23545, 35805]"

definition new_conversation :: "str \<Rightarrow> actor \<Rightarrow> datetime \<Rightarrow> conversation" where
  "new_conversation uuid actor now =
     \<lparr>c_conversation_id = uuid, c_owner_id = a_owner_id actor, c_owner_kind = a_kind actor,
      c_lifecycle_state = Active, c_title = default_title, c_title_source = Title_auto,
      c_created_at = now, c_updated_at = now, c_last_successful_at = None\<rparr>"

definition add_conversation :: "conversation \<Rightarrow> platform_state \<Rightarrow> platform_state" where
  "add_conversation c s = s\<lparr>conversations := AList.update (c_conversation_id c) c (conversations s)\<rparr>"

definition create_conversation ::
  "str \<Rightarrow> actor \<Rightarrow> datetime \<Rightarrow> platform_state \<Rightarrow> (conversation, platform_state) res" where
  "create_conversation uuid actor now s =
     (case require_active_owner_if_known (a_owner_id actor) s of
        Inl e \<Rightarrow> Raise e s
      | Inr _ \<Rightarrow>
          let c = new_conversation uuid actor now in
          if a_kind actor \<noteq> User then
            let live = length (filter (\<lambda>item. c_owner_id item = a_owner_id actor
                          \<and> c_lifecycle_state item = Active) (dvalues (conversations s)));
                cutoff = now - minutes 10;
                attempts = dropWhile (\<lambda>t. t \<le> cutoff) (guest_creates s (a_owner_id actor));
                popped = s\<lparr>guest_creates := (guest_creates s)(a_owner_id actor := attempts)\<rparr>
            in if live \<ge> 10 \<or> length attempts \<ge> 5 then Raise AnonymousLimitExceeded popped
               else Return c (add_conversation c
                 (s\<lparr>guest_creates := (guest_creates s)(a_owner_id actor := attempts @ [now])\<rparr>))
          else Return c (add_conversation c s))"

definition get_conversation :: "str \<Rightarrow> str \<Rightarrow> platform_state \<Rightarrow> conversation option" where
  "get_conversation owner_id conversation_id s =
     (case map_of (conversations s) conversation_id of
        None \<Rightarrow> None
      | Some item \<Rightarrow> if c_owner_id item = owner_id then Some item else None)"

definition page_key :: "conversation \<Rightarrow> datetime \<times> str" where
  "page_key item = (c_updated_at item, c_conversation_id item)"

text \<open>
  \<open>list.sort(key, reverse=True)\<close> keeps the original order of equal keys: reversing before and
  after an ascending stable sort does the same. The limit is a natural number: \<open>ConversationService.list_conversations\<close>,
  the only caller, checks that it is between 1 and 100 and asks for one more (a negative one would count from the end).
\<close>

definition list_conversations ::
  "str \<Rightarrow> (datetime \<times> str) option \<Rightarrow> nat \<Rightarrow> platform_state \<Rightarrow> conversation list" where
  "list_conversations owner_id before limit s =
     (let items = filter (\<lambda>item. c_owner_id item = owner_id \<and> c_lifecycle_state item = Active)
                    (dvalues (conversations s));
          ordered = rev (sort_key page_key (rev items));
          cut = (case before of None \<Rightarrow> ordered
                 | Some key \<Rightarrow> filter (\<lambda>item. page_key item < key) ordered)
      in take limit cut)"

definition conversation_messages ::
  "str \<Rightarrow> str \<Rightarrow> platform_state \<Rightarrow> conversation_message list" where
  "conversation_messages owner_id conversation_id s =
     (case get_conversation owner_id conversation_id s of
        None \<Rightarrow> [] | Some _ \<Rightarrow> messages s conversation_id)"

definition run_key :: "agent_run \<Rightarrow> datetime \<times> str" where
  "run_key run = (r_created_at run, r_run_id run)"

definition conversation_runs :: "str \<Rightarrow> str \<Rightarrow> platform_state \<Rightarrow> agent_run list" where
  "conversation_runs owner_id conversation_id s =
     (case get_conversation owner_id conversation_id s of
        None \<Rightarrow> []
      | Some _ \<Rightarrow> sort_key run_key
          (filter (\<lambda>run. r_conversation_id run = conversation_id) (dvalues (runs s))))"

definition rename_conversation ::
  "str \<Rightarrow> str \<Rightarrow> str \<Rightarrow> datetime \<Rightarrow> platform_state \<Rightarrow> (conversation, platform_state) res" where
  "rename_conversation owner_id conversation_id title now s =
     (case get_conversation owner_id conversation_id s of
        None \<Rightarrow> Raise (KeyError conversation_id) s
      | Some c \<Rightarrow>
          if c_lifecycle_state c \<noteq> Active then Raise (KeyError conversation_id) s
          else let updated = c\<lparr>c_title := title, c_title_source := Title_manual,
                               c_updated_at := now\<rparr>
               in Return updated
                    (s\<lparr>conversations := AList.update conversation_id updated (conversations s)\<rparr>))"

text \<open>The condition of the deletion loop, and what it does to a run it selects.\<close>

definition live_run_of :: "str \<Rightarrow> agent_run \<Rightarrow> bool" where
  "live_run_of conversation_id run \<longleftrightarrow>
     r_conversation_id run = conversation_id \<and> \<not> terminal run"

definition mark_cancel :: "datetime \<Rightarrow> agent_run \<Rightarrow> agent_run" where
  "mark_cancel now run = run\<lparr>r_cancel_requested_at :=
       (case r_cancel_requested_at run of None \<Rightarrow> Some now | Some t \<Rightarrow> Some t),
     r_updated_at := now\<rparr>"

definition mark_conversation_deleting ::
  "str \<Rightarrow> str \<Rightarrow> datetime \<Rightarrow> platform_state \<Rightarrow> str list \<times> platform_state" where
  "mark_conversation_deleting owner_id conversation_id now s =
     (case get_conversation owner_id conversation_id s of
        None \<Rightarrow> ([], s)
      | Some c \<Rightarrow>
          (dkeys (filter (\<lambda>(_, run). live_run_of conversation_id run) (runs s)),
           s\<lparr>conversations := AList.update conversation_id
                (c\<lparr>c_lifecycle_state := Deleting, c_updated_at := now\<rparr>) (conversations s),
             runs := drewrite (\<lambda>_. live_run_of conversation_id) (mark_cancel now) (runs s)\<rparr>))"

text \<open>
  The runs of the conversation are collected by their \<open>run_id\<close> field and popped by it; the grant of
  each popped run goes with it, then the request records, the messages and the conversation.
\<close>

definition remove_conversation :: "str \<Rightarrow> str \<Rightarrow> platform_state \<Rightarrow> platform_state" where
  "remove_conversation owner_id conversation_id s =
     (case map_of (conversations s) conversation_id of
        None \<Rightarrow> s
      | Some c \<Rightarrow>
          if c_owner_id c \<noteq> owner_id then s
          else let gone = filter (\<lambda>run. r_conversation_id run = conversation_id) (dvalues (runs s));
                   run_ids = map r_run_id gone
               in s\<lparr>runs := ddrop (\<lambda>run_id _. run_id \<in> set run_ids) (runs s),
                    grants := (\<lambda>g. if g \<in> set (map r_grant_id gone) then None else grants s g),
                    requests := (\<lambda>key. if fst key = conversation_id then None else requests s key),
                    messages := (messages s)(conversation_id := []),
                    conversations := AList.delete conversation_id (conversations s)\<rparr>)"

definition deleting_conversations :: "platform_state \<Rightarrow> (str \<times> str) list" where
  "deleting_conversations s =
     map (\<lambda>item. (c_owner_id item, c_conversation_id item))
       (filter (\<lambda>item. c_lifecycle_state item = Deleting) (dvalues (conversations s)))"

definition owner_conversation_ids :: "str \<Rightarrow> platform_state \<Rightarrow> str list" where
  "owner_conversation_ids owner_id s =
     map c_conversation_id (filter (\<lambda>item. c_owner_id item = owner_id) (dvalues (conversations s)))"

definition expired_guest_conversations :: "datetime \<Rightarrow> platform_state \<Rightarrow> (str \<times> str) list" where
  "expired_guest_conversations now s =
     map (\<lambda>item. (c_owner_id item, c_conversation_id item))
       (filter (\<lambda>item. c_owner_kind item \<noteq> User \<and> c_lifecycle_state item = Active
          \<and> (case c_last_successful_at item of Some t \<Rightarrow> t | None \<Rightarrow> c_created_at item) + days 7 \<le> now)
        (dvalues (conversations s)))"

lemmas conversation_ops [op_defs] =
  create_conversation_def rename_conversation_def mark_conversation_deleting_def
  remove_conversation_def

end
