(* ===== verification/Conversation_Rules.thy ===== *)
theory Conversation_Rules
  imports Platform_State
begin

text \<open>
  \<open>src/src/conversation/rules.py\<close> and \<open>validate_run_id\<close> of \<open>src/src/agent/runs.py\<close>: the checks on
  identifiers, messages and titles, and the automatic title.

  Python's \<open>str.split\<close>, \<open>str.strip\<close>, \<open>str.encode\<close> and the \<open>uuid.UUID\<close> constructor are
  modelled on code points. The number parser \<open>int(hex, 16)\<close> inside \<open>UUID\<close> is an argument: the
  checks only depend on what it does with 32 hexadecimal digits.
\<close>

section \<open>Strings\<close>

text \<open>The code points \<open>str.split()\<close> and \<open>str.strip()\<close> treat as white space.\<close>

definition is_space :: "nat \<Rightarrow> bool" where
  "is_space c \<longleftrightarrow> 9 \<le> c \<and> c \<le> 13 \<or> 28 \<le> c \<and> c \<le> 32 \<or> c = 133 \<or> c = 160 \<or> c = 5760
     \<or> 8192 \<le> c \<and> c \<le> 8202 \<or> c = 8232 \<or> c = 8233 \<or> c = 8239 \<or> c = 8287 \<or> c = 12288"

definition strip :: "str \<Rightarrow> str" where
  "strip s = rev (dropWhile is_space (rev (dropWhile is_space s)))"

function split_words :: "str \<Rightarrow> str list" where
  "split_words s =
     (case dropWhile is_space s of
        [] \<Rightarrow> []
      | t \<Rightarrow> takeWhile (\<lambda>c. \<not> is_space c) t # split_words (dropWhile (\<lambda>c. \<not> is_space c) t))"
  by pat_completeness auto
termination
proof (relation "measure length")
  fix s :: str and c t
  assume eq: "dropWhile is_space s = c # t"
  then have c: "\<not> is_space c"
    by (metis dropWhile_eq_Cons_conv)
  have "length (dropWhile (\<lambda>c. \<not> is_space c) (c # t)) \<le> length t"
    using c by (simp add: length_dropWhile_le)
  moreover have "Suc (length t) \<le> length s"
    using eq length_dropWhile_le [of is_space s] by simp
  ultimately show "(dropWhile (\<lambda>c. \<not> is_space c) (c # t), s) \<in> measure length"
    by simp
qed simp

declare split_words.simps [simp del]

text \<open>The number of bytes of \<open>s.encode("utf-8")\<close>.\<close>

definition utf8_len :: "nat \<Rightarrow> nat" where
  "utf8_len c = (if c < 128 then 1 else if c < 2048 then 2 else if c < 65536 then 3 else 4)"

definition utf8_length :: "str \<Rightarrow> nat" where
  "utf8_length s = sum_list (map utf8_len s)"

text \<open>Lone surrogates, which a \<open>str\<close> may hold and \<open>encode("utf-8")\<close> refuses with \<open>UnicodeEncodeError\<close>.\<close>

definition surrogate :: "nat \<Rightarrow> bool" where
  "surrogate c \<longleftrightarrow> 0xD800 \<le> c \<and> c \<le> 0xDFFF"

definition utf8_encodable :: "str \<Rightarrow> bool" where
  "utf8_encodable s \<longleftrightarrow> list_all (\<lambda>c. \<not> surrogate c) s"

section \<open>Identifiers\<close>

definition hyphen :: nat where "hyphen = 45"

definition hex_digit :: "nat \<Rightarrow> nat" where
  "hex_digit d = (if d < 10 then 48 + d else 87 + d)"

definition is_hex :: "nat \<Rightarrow> bool" where
  "is_hex c \<longleftrightarrow> 48 \<le> c \<and> c \<le> 57 \<or> 97 \<le> c \<and> c \<le> 102"

definition hex_val :: "nat \<Rightarrow> nat" where
  "hex_val c = (if c \<le> 57 then c - 48 else c - 87)"

text \<open>\<open>"%0nx" % number\<close>: the last \<open>n\<close> hexadecimal digits, most significant first.\<close>

fun hex_format :: "nat \<Rightarrow> nat \<Rightarrow> str" where
  "hex_format 0 x = []"
| "hex_format (Suc n) x = hex_format n (x div 16) @ [hex_digit (x mod 16)]"

definition hex_parse :: "str \<Rightarrow> nat" where
  "hex_parse s = foldl (\<lambda>x c. 16 * x + hex_val c) 0 s"

text \<open>\<open>str(UUID)\<close>: 32 digits grouped 8-4-4-4-12.\<close>

definition uuid_str :: "nat \<Rightarrow> str" where
  "uuid_str x = (let h = hex_format 32 x in
     take 8 h @ [hyphen] @ take 4 (drop 8 h) @ [hyphen] @ take 4 (drop 12 h) @ [hyphen]
     @ take 4 (drop 16 h) @ [hyphen] @ drop 20 h)"

text \<open>\<open>s.replace(pattern, "")\<close>.\<close>

function remove_all :: "str \<Rightarrow> str \<Rightarrow> str" where
  "remove_all p [] = []"
| "remove_all p (c # s) =
     (if p \<noteq> [] \<and> take (length p) (c # s) = p then remove_all p (drop (length p) (c # s))
      else c # remove_all p s)"
  by pat_completeness auto
termination by (relation "measure (\<lambda>(p, s). length s)") (auto simp: le_imp_less_Suc)

text \<open>
  The constructor \<open>UUID(text)\<close>: prefixes, braces and hyphens are dropped, exactly 32 characters must
  remain and read as a number of 128 bits; \<open>None\<close> is \<open>ValueError\<close>. \<open>int16\<close> is \<open>int(_, 16)\<close>.
\<close>

definition UUID :: "(str \<Rightarrow> nat option) \<Rightarrow> str \<Rightarrow> nat option" where
  "UUID int16 text =
     (let t = remove_all (lit ''uuid:'') (remove_all (lit ''urn:'') text);
          brace = (\<lambda>c. c = 123 \<or> c = 125);
          u = rev (dropWhile brace (rev (dropWhile brace t)));
          h = filter (\<lambda>c. c \<noteq> hyphen) u
      in if length h \<noteq> 32 then None
         else case int16 h of None \<Rightarrow> None | Some x \<Rightarrow> if x < 2 ^ 128 then Some x else None)"

definition validate_uuid :: "error \<Rightarrow> (str \<Rightarrow> nat option) \<Rightarrow> str \<Rightarrow> error + str" where
  "validate_uuid err int16 value =
     (case UUID int16 value of
        None \<Rightarrow> Inl err
      | Some parsed \<Rightarrow>
          let canonical = uuid_str parsed in
          if canonical \<noteq> value then Inl err else Inr canonical)"

definition validate_run_id :: "(str \<Rightarrow> nat option) \<Rightarrow> str \<Rightarrow> error + str" where
  "validate_run_id = validate_uuid InvalidRunId"

definition validate_conversation_id :: "(str \<Rightarrow> nat option) \<Rightarrow> str \<Rightarrow> error + str" where
  "validate_conversation_id = validate_uuid InvalidConversationId"

definition validate_client_request_id :: "(str \<Rightarrow> nat option) \<Rightarrow> str \<Rightarrow> error + str" where
  "validate_client_request_id = validate_uuid InvalidClientRequestId"

section \<open>Messages and titles\<close>

definition MAX_MESSAGE_BYTES :: nat where "MAX_MESSAGE_BYTES = 32 * 1024"

definition MAX_TITLE_CHARS :: nat where "MAX_TITLE_CHARS = 120"

definition automatic_title :: "str \<Rightarrow> str" where
  "automatic_title content =
     (let compact = join_strs (lit '' '') (split_words content)
      in if length compact \<le> 40 then compact else take 40 compact @ lit ''...'')"

definition validate_message :: "str \<Rightarrow> error + str" where
  "validate_message message =
     (if strip message = [] then Inl InvalidMessage
      else let normalized = strip message in
           if \<not> utf8_encodable normalized then Inl UnicodeEncodeError
           else if utf8_length normalized > MAX_MESSAGE_BYTES then Inl InvalidMessage
           else Inr normalized)"

definition validate_title :: "str \<Rightarrow> error + str" where
  "validate_title title =
     (let normalized = strip title in
      if normalized = [] \<or> length normalized > MAX_TITLE_CHARS then Inl InvalidTitle
      else Inr normalized)"

end
