(* ===== verification/Run_Store.thy ===== *)
theory Run_Store
  imports Conversation_Store Conversation_Rules
begin

text \<open>
  \<open>src/src/repo/inmemory/runs.py\<close>: creation and retry of runs, claiming with leases and fencing,
  the waiting and terminal transitions, and the event log. Each method of the class is one
  definition of the same name; the values of \<open>uuid4()\<close> are arguments, in the order of the calls.
\<close>

section \<open>Helpers\<close>

definition RUNTIME_CONTRACT_VERSION :: int where
  "RUNTIME_CONTRACT_VERSION = 3"

text \<open>\<open>run.x or default\<close> on an optional string: the empty string counts as absent.\<close>

definition or_str :: "str option \<Rightarrow> str \<Rightarrow> str" where
  "or_str x d = (case x of None \<Rightarrow> d | Some t \<Rightarrow> if t = [] then d else t)"

definition grant_for :: "str \<Rightarrow> str \<Rightarrow> actor \<Rightarrow> str \<Rightarrow> datetime \<Rightarrow> platform_state \<Rightarrow> run_grant" where
  "grant_for run_id grant_id actor conversation_id now s =
     \<lparr>g_grant_id = grant_id, g_run_id = run_id, g_owner_id = a_owner_id actor,
      g_tenant_id = lit ''default'', g_conversation_id = conversation_id,
      g_allowed_data_scopes = [lit ''conversation:'' @ conversation_id, lit ''owner:memory''],
      g_allowed_action_classes =
        [lit ''model.invoke'', lit ''memory.read'', lit ''memory.write'', lit ''tool.invoke''],
      g_authorization_epoch =
        (case map_of (owners s) (a_owner_id actor) of
           Some owner \<Rightarrow> o_authorization_epoch owner | None \<Rightarrow> 1),
      g_requested_by_session_id = a_session_id actor, g_expires_at = now + days 7,
      g_revoked_at = None\<rparr>"

definition queued_run ::
  "str \<Rightarrow> str \<Rightarrow> str \<Rightarrow> str \<Rightarrow> str \<Rightarrow> datetime \<Rightarrow> str option \<Rightarrow> agent_run" where
  "queued_run run_id conversation_id owner_id input_message_id grant_id now retry_of =
     \<lparr>r_run_id = run_id, r_conversation_id = conversation_id, r_owner_id = owner_id,
      r_input_message_id = input_message_id, r_grant_id = grant_id, r_status = Queued,
      r_runtime_contract_version = RUNTIME_CONTRACT_VERSION, r_created_at = now,
      r_updated_at = now, r_output_message_id = None, r_retry_of_run_id = retry_of,
      r_started_at = None, r_completed_at = None, r_cancel_requested_at = None,
      r_terminal_reason_code = None, r_terminal_message = None, r_phase = None,
      r_completed_nodes = 0, r_total_nodes = 1, r_claimed_by = None, r_claim_token = None,
      r_lease_expires_at = None, r_execution_attempt = 0, r_selected_skill_id = None,
      r_selected_skill_name = None\<rparr>"

definition new_run ::
  "str \<Rightarrow> str \<Rightarrow> actor \<Rightarrow> str \<Rightarrow> str \<Rightarrow> datetime \<Rightarrow> str option \<Rightarrow> platform_state
   \<Rightarrow> agent_run \<times> platform_state" where
  "new_run run_id grant_id actor conversation_id input_message_id now retry_of s =
     (let grant = grant_for run_id grant_id actor conversation_id now s;
          run = queued_run run_id conversation_id (a_owner_id actor) input_message_id
                  (g_grant_id grant) now retry_of
      in (run, s\<lparr>grants := (grants s)(g_grant_id grant \<mapsto> grant)\<rparr>))"

text \<open>\<open>next(item for item in items if p(item))\<close>: the first match, or \<open>StopIteration\<close>.\<close>

definition next_match :: "('a \<Rightarrow> bool) \<Rightarrow> 'a list \<Rightarrow> error + 'a" where
  "next_match P xs = (case List.find P xs of None \<Rightarrow> Inl StopIteration | Some x \<Rightarrow> Inr x)"

definition creation :: "str \<Rightarrow> str \<Rightarrow> platform_state \<Rightarrow> error + run_creation" where
  "creation run_id input_message_id s =
     (case map_of (runs s) run_id of
        None \<Rightarrow> Inl (KeyError run_id)
      | Some run \<Rightarrow>
          (case next_match (\<lambda>item. m_message_id item = input_message_id)
                  (messages s (r_conversation_id run)) of
             Inl e \<Rightarrow> Inl e
           | Inr message \<Rightarrow> Inr \<lparr>rc_run = run, rc_input_message = message\<rparr>))"

definition require_no_active_run :: "str \<Rightarrow> platform_state \<Rightarrow> error + unit" where
  "require_no_active_run conversation_id s =
     (if list_ex (\<lambda>run. r_conversation_id run = conversation_id \<and> active_status (r_status run))
           (dvalues (runs s))
      then Inl ConversationBusy else Inr ())"

definition stale_claim :: str where
  "stale_claim = lit ''stale or invalid run claim''"

definition require_current_claim ::
  "str \<Rightarrow> str \<Rightarrow> int \<Rightarrow> str option \<Rightarrow> platform_state \<Rightarrow> error + agent_run" where
  "require_current_claim run_id claim_token execution_attempt worker_id s =
     (case map_of (runs s) run_id of
        None \<Rightarrow> Inl RunNotFound
      | Some run \<Rightarrow>
          if r_status run \<noteq> Running \<or> r_claim_token run \<noteq> Some claim_token
             \<or> r_execution_attempt run \<noteq> execution_attempt
             \<or> (worker_id \<noteq> None \<and> r_claimed_by run \<noteq> worker_id)
          then Inl (InvalidRunTransition stale_claim) else Inr run)"

definition put_run :: "str \<Rightarrow> agent_run \<Rightarrow> platform_state \<Rightarrow> platform_state" where
  "put_run run_id run s = s\<lparr>runs := AList.update run_id run (runs s)\<rparr>"

section \<open>Events\<close>

definition append_run_event ::
  "str \<Rightarrow> str \<Rightarrow> (str, json) dict \<Rightarrow> datetime \<Rightarrow> platform_state \<Rightarrow> (run_event, platform_state) res"
where
  "append_run_event run_id event_type payload now s =
     (if run_id \<notin> set (dkeys (runs s)) then Raise RunNotFound s
      else let events = run_events s run_id;
               event = \<lparr>e_run_id = run_id, e_sequence = int (length events) + 1,
                        e_type = event_type, e_payload = payload, e_created_at = now\<rparr>
           in Return event (s\<lparr>run_events := (run_events s)(run_id := events @ [event])\<rparr>))"

definition read_run_events ::
  "str \<Rightarrow> str \<Rightarrow> int \<Rightarrow> platform_state \<Rightarrow> error + run_event list" where
  "read_run_events owner_id run_id after_sequence s =
     (case map_of (runs s) run_id of
        None \<Rightarrow> Inl RunNotFound
      | Some run \<Rightarrow>
          if r_owner_id run \<noteq> owner_id then Inl RunNotFound
          else Inr (filter (\<lambda>item. e_sequence item > after_sequence) (run_events s run_id)))"

section \<open>Creation and retry\<close>

definition create_run ::
  "str \<Rightarrow> str \<Rightarrow> str \<Rightarrow> actor \<Rightarrow> str \<Rightarrow> str \<Rightarrow> str \<Rightarrow> datetime \<Rightarrow> platform_state
   \<Rightarrow> (run_creation, platform_state) res" where
  "create_run message_id run_id grant_id actor conversation_id message client_request_id now s =
     (case require_conversation (a_owner_id actor) conversation_id s of
        Inl e \<Rightarrow> Raise e s
      | Inr conversation \<Rightarrow>
      (case require_active_owner_if_known (a_owner_id actor) s of
        Inl e \<Rightarrow> Raise e s
      | Inr _ \<Rightarrow>
      (case requests s (conversation_id, client_request_id) of
        Some replay \<Rightarrow>
          if q_operation replay \<noteq> Op_create \<or> q_payload replay \<noteq> message
          then Raise IdempotencyConflict s
          else (creation (q_run_id replay) (q_input_message_id replay) s, s)
      | None \<Rightarrow>
          if c_lifecycle_state conversation \<noteq> Active then Raise ConversationDeleting s
          else
          (case require_no_active_run conversation_id s of
            Inl e \<Rightarrow> Raise e s
          | Inr _ \<Rightarrow>
              let record = \<lparr>m_message_id = message_id, m_conversation_id = conversation_id,
                    m_owner_id = a_owner_id actor, m_role = Role_user, m_content = message,
                    m_sequence = next_sequence conversation_id s, m_created_at = now,
                    m_client_request_id = Some client_request_id, m_source_run_id = None,
                    m_reply_to_message_id = None, m_content_blocks = []\<rparr>;
                  (run, s1) = new_run run_id grant_id actor conversation_id message_id now None s;
                  s2 = s1\<lparr>messages := (messages s1)(conversation_id :=
                             messages s1 conversation_id @ [record])\<rparr>;
                  s3 = put_run (r_run_id run) run s2;
                  s4 = s3\<lparr>requests := (requests s3)((conversation_id, client_request_id) \<mapsto>
                             \<lparr>q_operation = Op_create, q_payload = message,
                              q_run_id = r_run_id run, q_input_message_id = message_id\<rparr>)\<rparr>;
                  s5 = s4\<lparr>conversations := AList.update conversation_id
                             (conversation\<lparr>c_updated_at := now\<rparr>) (conversations s4)\<rparr>
              in Return \<lparr>rc_run = run, rc_input_message = record\<rparr> s5))))"

definition retry_run ::
  "str \<Rightarrow> str \<Rightarrow> actor \<Rightarrow> str \<Rightarrow> str \<Rightarrow> datetime \<Rightarrow> platform_state
   \<Rightarrow> (run_creation, platform_state) res" where
  "retry_run run_id grant_id actor source_run_id client_request_id now s =
     (case map_of (runs s) source_run_id of
        None \<Rightarrow> Raise RunNotFound s
      | Some source \<Rightarrow>
      if r_owner_id source \<noteq> a_owner_id actor then Raise RunNotFound s
      else
      let conversation_id = r_conversation_id source in
      (case requests s (conversation_id, client_request_id) of
        Some replay \<Rightarrow>
          if q_operation replay \<noteq> Op_retry source_run_id then Raise IdempotencyConflict s
          else (creation (q_run_id replay) (q_input_message_id replay) s, s)
      | None \<Rightarrow>
      if r_status source \<notin> {Failed, Cancelled, Incompatible} then Raise RetryNotAllowed s
      else
      (case require_conversation (a_owner_id actor) conversation_id s of
        Inl e \<Rightarrow> Raise e s
      | Inr _ \<Rightarrow>
      (case require_active_owner_if_known (a_owner_id actor) s of
        Inl e \<Rightarrow> Raise e s
      | Inr _ \<Rightarrow>
      let user_messages = filter (\<lambda>item. m_role item = Role_user) (messages s conversation_id) in
      if user_messages = [] \<or> m_message_id (last user_messages) \<noteq> r_input_message_id source
      then Raise RetryNotAllowed s
      else
      (case require_no_active_run conversation_id s of
        Inl e \<Rightarrow> Raise e s
      | Inr _ \<Rightarrow>
      (case next_match (\<lambda>item. m_message_id item = r_input_message_id source)
              (messages s conversation_id) of
        Inl e \<Rightarrow> Raise e s
      | Inr input_message \<Rightarrow>
          let (run, s1) = new_run run_id grant_id actor conversation_id
                            (r_input_message_id source) now (Some source_run_id) s;
              s2 = put_run (r_run_id run) run s1;
              s3 = s2\<lparr>requests := (requests s2)((conversation_id, client_request_id) \<mapsto>
                         \<lparr>q_operation = Op_retry source_run_id, q_payload = [],
                          q_run_id = r_run_id run,
                          q_input_message_id = r_input_message_id source\<rparr>)\<rparr>
          in Return \<lparr>rc_run = run, rc_input_message = input_message\<rparr> s3))))))"

section \<open>Lookup and authorization\<close>

definition get_run :: "str \<Rightarrow> str \<Rightarrow> platform_state \<Rightarrow> agent_run option" where
  "get_run owner_id run_id s =
     (case map_of (runs s) run_id of
        None \<Rightarrow> None | Some run \<Rightarrow> if r_owner_id run = owner_id then Some run else None)"

definition get_run_internal :: "str \<Rightarrow> platform_state \<Rightarrow> agent_run option" where
  "get_run_internal run_id s = map_of (runs s) run_id"

definition authorize_run ::
  "str \<Rightarrow> datetime \<Rightarrow> platform_state \<Rightarrow> error + execution_authorization" where
  "authorize_run run_id now s =
     (case map_of (runs s) run_id of
        None \<Rightarrow> Inl RunNotFound
      | Some run \<Rightarrow>
          (let owner = map_of (owners s) (r_owner_id run) in
           case grants s (r_grant_id run) of
             None \<Rightarrow> Inl RunAuthorizationInvalid
           | Some grant \<Rightarrow>
               if g_run_id grant \<noteq> r_run_id run \<or> g_owner_id grant \<noteq> r_owner_id run
                  \<or> g_conversation_id grant \<noteq> r_conversation_id run
                  \<or> g_revoked_at grant \<noteq> None \<or> g_expires_at grant \<le> now
                  \<or> (\<exists>o' \<in> set_option owner. o_lifecycle_state o' \<noteq> Active)
                  \<or> (\<exists>o' \<in> set_option owner. g_authorization_epoch grant \<noteq> o_authorization_epoch o')
               then Inl RunAuthorizationInvalid
               else Inr \<lparr>x_run_id = r_run_id run, x_owner_id = g_owner_id grant,
                         x_tenant_id = g_tenant_id grant,
                         x_conversation_id = g_conversation_id grant,
                         x_allowed_data_scopes = g_allowed_data_scopes grant,
                         x_allowed_action_classes = g_allowed_action_classes grant,
                         x_authorization_epoch = g_authorization_epoch grant\<rparr>))"

section \<open>Claiming\<close>

text \<open>A running run whose lease is absent or still valid counts against its owner's limit.\<close>

definition holds_lease :: "datetime \<Rightarrow> agent_run \<Rightarrow> bool" where
  "holds_lease now run \<longleftrightarrow> r_status run = Running
     \<and> (case r_lease_expires_at run of None \<Rightarrow> True | Some t \<Rightarrow> t > now)"

definition owner_running :: "datetime \<Rightarrow> str \<Rightarrow> platform_state \<Rightarrow> nat" where
  "owner_running now owner_id s =
     length (filter (\<lambda>run. holds_lease now run \<and> r_owner_id run = owner_id) (dvalues (runs s)))"

definition claimable :: "datetime \<Rightarrow> agent_run \<Rightarrow> bool" where
  "claimable now run \<longleftrightarrow> r_status run = Queued
     \<or> (r_status run = Running
        \<and> (case r_lease_expires_at run of None \<Rightarrow> False | Some t \<Rightarrow> t \<le> now))"

definition candidates :: "datetime \<Rightarrow> platform_state \<Rightarrow> agent_run list" where
  "candidates now s = sort_key run_key (filter (claimable now) (dvalues (runs s)))"

definition claimed_run :: "str \<Rightarrow> str \<Rightarrow> datetime \<Rightarrow> timedelta \<Rightarrow> agent_run \<Rightarrow> agent_run" where
  "claimed_run token worker_id now lease_duration run =
     run\<lparr>r_status := Running,
         r_started_at := (case r_started_at run of None \<Rightarrow> Some now | Some t \<Rightarrow> Some t),
         r_updated_at := now, r_claimed_by := Some worker_id, r_claim_token := Some token,
         r_lease_expires_at := Some (now + lease_duration),
         r_execution_attempt := r_execution_attempt run + 1,
         r_phase := Some (or_str (r_phase run) (lit ''synthesizing''))\<rparr>"

text \<open>The loop over the candidates: the first one whose owner has fewer than two live leases.\<close>

definition claim_next ::
  "str \<Rightarrow> str \<Rightarrow> datetime \<Rightarrow> timedelta \<Rightarrow> platform_state \<Rightarrow> agent_run option \<times> platform_state" where
  "claim_next token worker_id now lease_duration s =
     (case List.find (\<lambda>run. \<not> owner_running now (r_owner_id run) s \<ge> 2) (candidates now s) of
        None \<Rightarrow> (None, s)
      | Some run \<Rightarrow>
          let claimed = claimed_run token worker_id now lease_duration run
          in (Some claimed, put_run (r_run_id run) claimed s))"

definition heartbeat ::
  "str \<Rightarrow> str \<Rightarrow> str \<Rightarrow> int \<Rightarrow> datetime \<Rightarrow> timedelta \<Rightarrow> platform_state
   \<Rightarrow> (agent_run, platform_state) res" where
  "heartbeat run_id worker_id claim_token execution_attempt now lease_duration s =
     (case require_current_claim run_id claim_token execution_attempt (Some worker_id) s of
        Inl e \<Rightarrow> Raise e s
      | Inr run \<Rightarrow>
          let updated = run\<lparr>r_updated_at := now, r_lease_expires_at := Some (now + lease_duration)\<rparr>
          in Return updated (put_run run_id updated s))"

section \<open>Cancellation and approval\<close>

definition request_cancel ::
  "str \<Rightarrow> str \<Rightarrow> datetime \<Rightarrow> platform_state \<Rightarrow> (agent_run, platform_state) res" where
  "request_cancel owner_id run_id now s =
     (case map_of (runs s) run_id of
        None \<Rightarrow> Raise RunNotFound s
      | Some run \<Rightarrow>
          if r_owner_id run \<noteq> owner_id then Raise RunNotFound s
          else if terminal run \<or> r_cancel_requested_at run \<noteq> None then Return run s
          else let updated = run\<lparr>r_cancel_requested_at := Some now, r_updated_at := now\<rparr>
               in Return updated (put_run run_id updated s))"

definition unclaim :: "agent_run \<Rightarrow> agent_run" where
  "unclaim run = run\<lparr>r_claimed_by := None, r_claim_token := None, r_lease_expires_at := None\<rparr>"

definition wait_approval_run ::
  "str \<Rightarrow> str \<Rightarrow> int \<Rightarrow> datetime \<Rightarrow> platform_state \<Rightarrow> (agent_run, platform_state) res" where
  "wait_approval_run run_id claim_token execution_attempt now s =
     (case require_current_claim run_id claim_token execution_attempt None s of
        Inl e \<Rightarrow> Raise e s
      | Inr run \<Rightarrow>
          let waiting = unclaim (run\<lparr>r_status := Waiting_approval, r_updated_at := now,
                                    r_phase := Some (lit ''awaiting_approval'')\<rparr>)
          in Return waiting (put_run run_id waiting s))"

definition not_waiting :: str where
  "not_waiting = lit ''run is not waiting for approval''"

definition resume_run :: "str \<Rightarrow> datetime \<Rightarrow> platform_state \<Rightarrow> (agent_run, platform_state) res" where
  "resume_run run_id now s =
     (case map_of (runs s) run_id of
        None \<Rightarrow> Raise RunNotFound s
      | Some run \<Rightarrow>
          if r_status run \<noteq> Waiting_approval then Raise (InvalidRunTransition not_waiting) s
          else let resumed = run\<lparr>r_status := Queued, r_updated_at := now,
                                 r_phase := Some (lit ''synthesizing'')\<rparr>
               in Return resumed (put_run run_id resumed s))"

text \<open>The terminal message of a cancelled run.\<close>

definition cancelled_message :: str where
  "cancelled_message = [36816, 34892, 24050, 21462, 28040]"

definition finish ::
  "run_status \<Rightarrow> str option \<Rightarrow> str option \<Rightarrow> datetime \<Rightarrow> agent_run \<Rightarrow> agent_run" where
  "finish status reason_code message now run =
     unclaim (run\<lparr>r_status := status, r_completed_at := Some now, r_updated_at := now,
                  r_terminal_reason_code := reason_code, r_terminal_message := message\<rparr>)"

definition cancel_waiting_approval ::
  "str \<Rightarrow> str \<Rightarrow> datetime \<Rightarrow> platform_state \<Rightarrow> (agent_run, platform_state) res" where
  "cancel_waiting_approval owner_id run_id now s =
     (case map_of (runs s) run_id of
        None \<Rightarrow> Raise RunNotFound s
      | Some run \<Rightarrow>
          if r_owner_id run \<noteq> owner_id then Raise RunNotFound s
          else if r_status run = Cancelled then Return run s
          else if r_status run \<noteq> Waiting_approval then Raise (InvalidRunTransition not_waiting) s
          else let cancelled = finish Cancelled (Some (lit ''user_cancelled''))
                                 (Some cancelled_message) now run
               in Return cancelled (put_run run_id cancelled s))"

definition set_run_skill ::
  "str \<Rightarrow> str \<Rightarrow> str option \<Rightarrow> str option \<Rightarrow> datetime \<Rightarrow> platform_state
   \<Rightarrow> (agent_run, platform_state) res" where
  "set_run_skill owner_id run_id skill_id skill_name now s =
     (case map_of (runs s) run_id of
        None \<Rightarrow> Raise RunNotFound s
      | Some run \<Rightarrow>
          if r_owner_id run \<noteq> owner_id then Raise RunNotFound s
          else let updated = run\<lparr>r_selected_skill_id := skill_id,
                                 r_selected_skill_name := skill_name, r_updated_at := now\<rparr>
               in Return updated (put_run run_id updated s))"

section \<open>Terminal transitions\<close>

definition cancel_before_final :: str where
  "cancel_before_final = lit ''cancel was requested before finalization''"

definition conversation_unavailable :: str where
  "conversation_unavailable = lit ''conversation is unavailable''"

text \<open>The reply of a run: an earlier one if there is one, otherwise a new assistant message.\<close>

definition reply_of :: "str \<Rightarrow> agent_run \<Rightarrow> conversation_message \<Rightarrow> bool" where
  "reply_of run_id run item \<longleftrightarrow> m_source_run_id item = Some run_id
     \<or> m_reply_to_message_id item = Some (r_input_message_id run)"

definition new_reply ::
  "str \<Rightarrow> str \<Rightarrow> agent_run \<Rightarrow> str \<Rightarrow> (str, str) dict list \<Rightarrow> datetime \<Rightarrow> platform_state
   \<Rightarrow> conversation_message" where
  "new_reply message_id run_id run answer blocks now s =
     \<lparr>m_message_id = message_id, m_conversation_id = r_conversation_id run,
      m_owner_id = r_owner_id run, m_role = Role_assistant, m_content = answer,
      m_sequence = next_sequence (r_conversation_id run) s, m_created_at = now,
      m_client_request_id = None, m_source_run_id = Some run_id,
      m_reply_to_message_id = Some (r_input_message_id run), m_content_blocks = blocks\<rparr>"

text \<open>The title after the reply: automatic, from the input, on the first assistant message.\<close>

definition title_after ::
  "conversation \<Rightarrow> agent_run \<Rightarrow> conversation_message \<Rightarrow> conversation_message list \<Rightarrow> error + str" where
  "title_after conversation run output msgs =
     (if c_title_source conversation = Title_auto
         \<and> \<not> list_ex (\<lambda>item. m_role item = Role_assistant
                         \<and> m_message_id item \<noteq> m_message_id output) msgs
      then case next_match (\<lambda>item. m_message_id item = r_input_message_id run) msgs of
             Inl e \<Rightarrow> Inl e | Inr source \<Rightarrow> Inr (automatic_title (m_content source))
      else Inr (c_title conversation))"

definition succeeded_run :: "str \<Rightarrow> datetime \<Rightarrow> agent_run \<Rightarrow> agent_run" where
  "succeeded_run output_id now run =
     (finish Succeeded None None now run)\<lparr>r_output_message_id := Some output_id,
        r_completed_nodes := r_total_nodes run\<rparr>"

definition succeed_run ::
  "str \<Rightarrow> str \<Rightarrow> str \<Rightarrow> int \<Rightarrow> str \<Rightarrow> datetime \<Rightarrow> (str, str) dict list \<Rightarrow> platform_state
   \<Rightarrow> (agent_run, platform_state) res" where
  "succeed_run message_id run_id claim_token execution_attempt answer now blocks s =
     (case map_of (runs s) run_id of
        None \<Rightarrow> Raise RunNotFound s
      | Some existing \<Rightarrow>
      if r_status existing = Succeeded then Return existing s
      else
      (case require_current_claim run_id claim_token execution_attempt None s of
        Inl e \<Rightarrow> Raise e s
      | Inr run \<Rightarrow>
      if r_cancel_requested_at run \<noteq> None then Raise (InvalidRunTransition cancel_before_final) s
      else
      (case map_of (conversations s) (r_conversation_id run) of
        None \<Rightarrow> Raise (InvalidRunTransition conversation_unavailable) s
      | Some conversation \<Rightarrow>
      if c_lifecycle_state conversation \<noteq> Active
      then Raise (InvalidRunTransition conversation_unavailable) s
      else
      let cid = r_conversation_id run;
          prior = List.find (reply_of run_id run) (messages s cid);
          output = (case prior of None \<Rightarrow> new_reply message_id run_id run answer blocks now s
                    | Some item \<Rightarrow> item);
          s1 = (case prior of
                  None \<Rightarrow> s\<lparr>messages := (messages s)(cid := messages s cid @ [output])\<rparr>
                | Some _ \<Rightarrow> s)
      in (case title_after conversation run output (messages s1 cid) of
            Inl e \<Rightarrow> Raise e s1
          | Inr title \<Rightarrow>
              let finished = succeeded_run (m_message_id output) now run;
                  s2 = put_run run_id finished s1;
                  s3 = s2\<lparr>conversations := AList.update cid
                         (conversation\<lparr>c_title := title, c_updated_at := now,
                                       c_last_successful_at := Some now\<rparr>) (conversations s2)\<rparr>
              in Return finished s3))))"

definition fail_run ::
  "str \<Rightarrow> str \<Rightarrow> int \<Rightarrow> str \<Rightarrow> str \<Rightarrow> datetime \<Rightarrow> platform_state \<Rightarrow> (agent_run, platform_state) res" where
  "fail_run run_id claim_token execution_attempt reason_code message now s =
     (case map_of (runs s) run_id of
        None \<Rightarrow> Raise RunNotFound s
      | Some existing \<Rightarrow>
          if r_status existing = Failed then Return existing s
          else (case require_current_claim run_id claim_token execution_attempt None s of
                  Inl e \<Rightarrow> Raise e s
                | Inr run \<Rightarrow>
                    let failed = finish Failed (Some reason_code) (Some message) now run
                    in Return failed (put_run run_id failed s)))"

definition cancel_run ::
  "str \<Rightarrow> str \<Rightarrow> str \<Rightarrow> int \<Rightarrow> str \<Rightarrow> datetime \<Rightarrow> platform_state \<Rightarrow> (agent_run, platform_state) res" where
  "cancel_run run_id worker_id claim_token execution_attempt reason_code now s =
     (case map_of (runs s) run_id of
        None \<Rightarrow> Raise RunNotFound s
      | Some existing \<Rightarrow>
          if r_status existing = Cancelled then Return existing s
          else (case require_current_claim run_id claim_token execution_attempt (Some worker_id) s of
                  Inl e \<Rightarrow> Raise e s
                | Inr run \<Rightarrow>
                    let cancelled = finish Cancelled (Some reason_code) (Some cancelled_message) now run
                    in Return cancelled (put_run run_id cancelled s)))"

definition incompatible_run ::
  "str \<Rightarrow> str \<Rightarrow> int \<Rightarrow> str \<Rightarrow> datetime \<Rightarrow> platform_state \<Rightarrow> (agent_run, platform_state) res" where
  "incompatible_run run_id claim_token execution_attempt message now s =
     (case require_current_claim run_id claim_token execution_attempt None s of
        Inl e \<Rightarrow> Raise e s
      | Inr run \<Rightarrow>
          let incompatible = finish Incompatible (Some (lit ''runtime_contract_mismatch''))
                               (Some message) now run
          in Return incompatible (put_run run_id incompatible s))"

end
