(* ===== verification/Run_Invariant.thy ===== *)
theory Run_Invariant
  imports Run_Store
begin

text \<open>
  The invariant of the conversation and run stores, and the lemmas that every operation keeps it.
  An operation that rewrites one run in place is covered by one lemma (\<open>platform_inv_put_run\<close>) over
  the conditions \<open>same_identity\<close> and \<open>claim_ok\<close>; creation, deletion and the final reply have their
  own.
\<close>

section \<open>The invariant\<close>

text \<open>The claim fields of a run agree with its status.\<close>

definition claim_ok :: "agent_run \<Rightarrow> bool" where
  "claim_ok r \<longleftrightarrow>
     (if r_status r = Running
      then r_claimed_by r \<noteq> None \<and> r_claim_token r \<noteq> None \<and> r_lease_expires_at r \<noteq> None
           \<and> r_execution_attempt r \<ge> 1
      else r_claimed_by r = None \<and> r_claim_token r = None \<and> r_lease_expires_at r = None)
     \<and> r_execution_attempt r \<ge> 0
     \<and> (terminal r \<longleftrightarrow> r_completed_at r \<noteq> None)
     \<and> (r_status r = Succeeded \<longleftrightarrow> r_output_message_id r \<noteq> None)"

text \<open>A run belongs to a conversation of its owner, answers one of its user messages and holds a
  grant made for it.\<close>

definition run_ok :: "platform_state \<Rightarrow> str \<Rightarrow> agent_run \<Rightarrow> bool" where
  "run_ok s k r \<longleftrightarrow> r_run_id r = k
     \<and> (\<exists>c. map_of (conversations s) (r_conversation_id r) = Some c \<and> c_owner_id c = r_owner_id r)
     \<and> (\<exists>g. grants s (r_grant_id r) = Some g \<and> g_run_id g = k \<and> g_owner_id g = r_owner_id r
            \<and> g_conversation_id g = r_conversation_id r)
     \<and> (\<exists>m \<in> set (messages s (r_conversation_id r)).
            m_message_id m = r_input_message_id r \<and> m_role m = Role_user)"

definition runs_ok :: "platform_state \<Rightarrow> bool" where
  "runs_ok s \<longleftrightarrow> distinct (dkeys (runs s))
     \<and> (\<forall>k r. map_of (runs s) k = Some r \<longrightarrow> run_ok s k r \<and> claim_ok r)"

definition convs_ok :: "platform_state \<Rightarrow> bool" where
  "convs_ok s \<longleftrightarrow> distinct (dkeys (conversations s))
     \<and> (\<forall>k c. map_of (conversations s) k = Some c \<longrightarrow> c_conversation_id c = k)"

text \<open>A request record leads to a run of the same conversation and to its input message.\<close>

definition requests_ok :: "platform_state \<Rightarrow> bool" where
  "requests_ok s \<longleftrightarrow> (\<forall>cid req q. requests s (cid, req) = Some q \<longrightarrow>
     (\<exists>r. map_of (runs s) (q_run_id q) = Some r \<and> r_conversation_id r = cid
          \<and> r_input_message_id r = q_input_message_id q))"

definition one_active :: "platform_state \<Rightarrow> bool" where
  "one_active s \<longleftrightarrow> (\<forall>k1 r1 k2 r2. map_of (runs s) k1 = Some r1 \<and> map_of (runs s) k2 = Some r2
     \<and> active_status (r_status r1) \<and> active_status (r_status r2)
     \<and> r_conversation_id r1 = r_conversation_id r2 \<longrightarrow> k1 = k2)"

lemma one_activeD:
  assumes "one_active s" and "map_of (runs s) k1 = Some r1" and "map_of (runs s) k2 = Some r2"
    and "active_status (r_status r1)" and "active_status (r_status r2)"
    and "r_conversation_id r1 = r_conversation_id r2"
  shows "k1 = k2"
  using assms unfolding one_active_def by blast

lemma one_activeI:
  assumes "\<And>k1 r1 k2 r2. map_of (runs s) k1 = Some r1 \<Longrightarrow> map_of (runs s) k2 = Some r2
     \<Longrightarrow> active_status (r_status r1) \<Longrightarrow> active_status (r_status r2)
     \<Longrightarrow> r_conversation_id r1 = r_conversation_id r2 \<Longrightarrow> k1 = k2"
  shows "one_active s"
  unfolding one_active_def using assms by blast

text \<open>Sequence numbers are 1, 2, ... in order.\<close>

definition counted :: "int list \<Rightarrow> bool" where
  "counted xs \<longleftrightarrow> xs = map int [1..<Suc (length xs)]"

text \<open>
  The messages of one conversation: numbered without gaps, with distinct identifiers; user messages
  answer nothing, assistant messages answer one message each, and no message is answered twice.
\<close>

definition thread_ok :: "str \<Rightarrow> conversation_message list \<Rightarrow> bool" where
  "thread_ok cid ms \<longleftrightarrow> counted (map m_sequence ms) \<and> distinct (map m_message_id ms)
     \<and> (\<forall>m \<in> set ms. m_conversation_id m = cid
          \<and> (m_role m = Role_user \<longleftrightarrow> m_reply_to_message_id m = None))
     \<and> distinct (map m_reply_to_message_id (filter (\<lambda>m. m_role m = Role_assistant) ms))"

definition messages_ok :: "platform_state \<Rightarrow> bool" where
  "messages_ok s \<longleftrightarrow> (\<forall>cid. thread_ok cid (messages s cid)
     \<and> (messages s cid \<noteq> [] \<longrightarrow> map_of (conversations s) cid \<noteq> None))"

definition events_ok :: "platform_state \<Rightarrow> bool" where
  "events_ok s \<longleftrightarrow> (\<forall>rid. counted (map e_sequence (run_events s rid))
     \<and> (\<forall>e \<in> set (run_events s rid). e_run_id e = rid))"

definition platform_inv :: "platform_state \<Rightarrow> bool" where
  "platform_inv s \<longleftrightarrow> convs_ok s \<and> runs_ok s \<and> requests_ok s \<and> one_active s \<and> messages_ok s
     \<and> events_ok s"

lemmas platform_inv_defs [inv_defs] =
  platform_inv_def convs_ok_def runs_ok_def run_ok_def requests_ok_def one_active_def
  messages_ok_def events_ok_def

text \<open>Each part reads only some of the fields: what an operation has to show.\<close>

lemma platform_inv_runs_frame:
  assumes "platform_inv s" and "runs_ok t" and "requests_ok t" and "one_active t"
    and "conversations t = conversations s" and "messages t = messages s"
    and "run_events t = run_events s"
  shows "platform_inv t"
  using assms by (simp add: platform_inv_def convs_ok_def messages_ok_def events_ok_def)

lemma platform_inv_messages_frame:
  assumes "platform_inv s" and "runs_ok t" and "convs_ok t" and "messages_ok t"
    and "runs t = runs s" and "requests t = requests s" and "run_events t = run_events s"
  shows "platform_inv t"
proof -
  have "one_active t = one_active s" "requests_ok t = requests_ok s" "events_ok t = events_ok s"
    unfolding one_active_def requests_ok_def events_ok_def assms(5-7) by (rule refl)+
  with assms show ?thesis by (simp add: platform_inv_def)
qed

section \<open>Sequences\<close>

lemma counted_snoc: "counted xs \<Longrightarrow> counted (xs @ [int (length xs) + 1])"
  by (simp add: counted_def)

lemma counted_Nil [simp]: "counted []"
  by (simp add: counted_def)

lemma counted_set: "counted xs \<Longrightarrow> set xs = {1..int (length xs)}"
proof -
  assume "counted xs"
  then have "set xs = int ` {1..<Suc (length xs)}"
    unfolding counted_def by (metis set_map set_upt)
  also have "\<dots> = {1..int (length xs)}"
    by (auto simp: image_int_atLeastLessThan)
  finally show ?thesis .
qed

lemma next_sequence_counted:
  assumes "counted (map m_sequence (messages s cid))"
  shows "next_sequence cid s = int (length (messages s cid)) + 1"
proof (cases "messages s cid = []")
  case True
  then show ?thesis by (simp add: next_sequence_def)
next
  case False
  then have "1 \<le> int (length (messages s cid))"
    by (cases "messages s cid") simp_all
  then have "Max {1..int (length (messages s cid))} = int (length (messages s cid))"
    by (intro Max_eqI) auto
  with counted_set [OF assms] False show ?thesis
    by (simp add: next_sequence_def)
qed

section \<open>The life cycle of one run\<close>

text \<open>
  What an operation may do to one run: the abstract state machine behind the store. Every operation
  that rewrites a run makes one of these moves (\<open>one_move\<close>); what holds of the moves holds of the
  operations.
\<close>

inductive run_move :: "agent_run \<Rightarrow> agent_run \<Rightarrow> bool" where
  move_claim: "run_move r (claimed_run tok w now dur r)" if "r_status r = Queued \<or> r_status r = Running"
| move_beat: "run_move r (r\<lparr>r_updated_at := now, r_lease_expires_at := Some t\<rparr>)" if "r_status r = Running"
| move_ask: "run_move r (mark_cancel now r)" if "\<not> terminal r"
| move_wait: "run_move r (unclaim (r\<lparr>r_status := Waiting_approval, r_updated_at := now, r_phase := ph\<rparr>))"
    if "r_status r = Running"
| move_resume: "run_move r (r\<lparr>r_status := Queued, r_updated_at := now, r_phase := ph\<rparr>)"
    if "r_status r = Waiting_approval"
| move_reject: "run_move r (finish Cancelled rc msg now r)" if "r_status r = Waiting_approval"
| move_skill: "run_move r (r\<lparr>r_selected_skill_id := i, r_selected_skill_name := n, r_updated_at := now\<rparr>)"
| move_finish: "run_move r (finish st rc msg now r)"
    if "r_status r = Running" and "st \<in> {Failed, Cancelled, Incompatible}"
| move_success: "run_move r (succeeded_run out now r)" if "r_status r = Running"

definition same_identity :: "agent_run \<Rightarrow> agent_run \<Rightarrow> bool" where
  "same_identity r r' \<longleftrightarrow> r_run_id r' = r_run_id r \<and> r_conversation_id r' = r_conversation_id r
     \<and> r_owner_id r' = r_owner_id r \<and> r_input_message_id r' = r_input_message_id r
     \<and> r_grant_id r' = r_grant_id r \<and> r_created_at r' = r_created_at r"

text \<open>What a terminal run keeps for ever.\<close>

definition same_verdict :: "agent_run \<Rightarrow> agent_run \<Rightarrow> bool" where
  "same_verdict r r' \<longleftrightarrow> r_status r' = r_status r \<and> r_completed_at r' = r_completed_at r
     \<and> r_output_message_id r' = r_output_message_id r
     \<and> r_terminal_reason_code r' = r_terminal_reason_code r
     \<and> r_terminal_message r' = r_terminal_message r
     \<and> r_cancel_requested_at r' = r_cancel_requested_at r
     \<and> r_execution_attempt r' = r_execution_attempt r"

lemmas move_defs =
  claimed_run_def finish_def succeeded_run_def unclaim_def mark_cancel_def

lemma run_move_identity: "run_move r r' \<Longrightarrow> same_identity r r'"
  by (induction rule: run_move.induct) (simp_all add: same_identity_def move_defs)

lemma run_move_claim_ok: "run_move r r' \<Longrightarrow> claim_ok r \<Longrightarrow> claim_ok r'"
  by (induction rule: run_move.induct)
    (auto simp: claim_ok_def move_defs terminal_def split: if_splits)

lemma run_move_active: "run_move r r' \<Longrightarrow> active_status (r_status r') \<Longrightarrow> active_status (r_status r)"
  by (induction rule: run_move.induct) (auto simp: move_defs)

lemma run_move_verdict: "run_move r r' \<Longrightarrow> terminal r \<Longrightarrow> same_verdict r r'"
  by (induction rule: run_move.induct) (auto simp: same_verdict_def terminal_def move_defs)

lemma run_move_attempt: "run_move r r' \<Longrightarrow> r_execution_attempt r \<le> r_execution_attempt r'"
  by (induction rule: run_move.induct) (simp_all add: move_defs)

text \<open>A claim token enters a run only together with a new attempt number.\<close>

lemma run_move_token:
  "run_move r r' \<Longrightarrow> r_claim_token r' = Some tok \<Longrightarrow>
     r_claim_token r = Some tok \<or> r_execution_attempt r < r_execution_attempt r'"
  by (induction rule: run_move.induct) (auto simp: move_defs)

section \<open>One run rewritten in place\<close>

definition one_move :: "str \<Rightarrow> platform_state \<Rightarrow> platform_state \<Rightarrow> bool" where
  "one_move k s s' \<longleftrightarrow> s' = s
     \<or> (\<exists>r r'. map_of (runs s) k = Some r \<and> run_move r r' \<and> s' = put_run k r' s)"

lemma platform_inv_put_run:
  assumes inv: "platform_inv s" and r: "map_of (runs s) k = Some r"
    and same: "same_identity r r'" and claim: "claim_ok r'"
    and active: "active_status (r_status r') \<Longrightarrow> active_status (r_status r)"
  shows "platform_inv (put_run k r' s)"
proof -
  from inv have runs: "runs_ok s" and one: "one_active s" and req: "requests_ok s"
    by (simp_all add: platform_inv_def)
  from runs r same claim have "runs_ok (put_run k r' s)"
    by (auto simp: runs_ok_def run_ok_def put_run_def same_identity_def distinct_update)
  moreover from req r same have "requests_ok (put_run k r' s)"
    by (fastforce simp: requests_ok_def put_run_def same_identity_def)
  moreover have "one_active (put_run k r' s)"
  proof (rule one_activeI)
    fix k1 r1 k2 r2
    assume *: "map_of (runs (put_run k r' s)) k1 = Some r1" "active_status (r_status r1)"
      "map_of (runs (put_run k r' s)) k2 = Some r2" "active_status (r_status r2)"
      "r_conversation_id r1 = r_conversation_id r2"
    have old: "\<exists>q. map_of (runs s) i = Some q \<and> active_status (r_status q)
        \<and> r_conversation_id q = r_conversation_id p"
      if "map_of (runs (put_run k r' s)) i = Some p" "active_status (r_status p)" for i p
      using that r same active by (auto simp: put_run_def same_identity_def split: if_splits)
    from old [OF *(1,2)] old [OF *(3,4)] *(5) one_activeD [OF one] show "k1 = k2"
      by metis
  qed
  ultimately show ?thesis
    by (intro platform_inv_runs_frame [OF inv]) (simp_all add: put_run_def)
qed

lemma platform_inv_runD:
  assumes "platform_inv s" and "map_of (runs s) k = Some r"
  shows "run_ok s k r" and "claim_ok r" and "r_run_id r = k"
  using assms by (auto simp: platform_inv_def runs_ok_def run_ok_def)

lemma one_move_inv: "one_move k s s' \<Longrightarrow> platform_inv s \<Longrightarrow> platform_inv s'"
  by (auto simp: one_move_def intro!: platform_inv_put_run
      intro: run_move_identity run_move_claim_ok run_move_active platform_inv_runD)

lemma require_current_claim_Inr [simp]:
  "require_current_claim k tok att w s = Inr r \<longleftrightarrow>
     map_of (runs s) k = Some r \<and> r_status r = Running \<and> r_claim_token r = Some tok
     \<and> r_execution_attempt r = att \<and> (w \<noteq> None \<longrightarrow> r_claimed_by r = w)"
  by (auto simp: require_current_claim_def split: option.splits if_splits)

section \<open>The operations are moves\<close>

lemma heartbeat_move: "one_move k s (snd (heartbeat k w tok att now dur s))"
  by (auto simp: heartbeat_def one_move_def Let_def split: sum.splits intro: move_beat)

lemma request_cancel_move: "one_move k s (snd (request_cancel own k now s))"
proof -
  have "r\<lparr>r_cancel_requested_at := Some now, r_updated_at := now\<rparr> = mark_cancel now r"
    if "r_cancel_requested_at r = None" for r
    using that by (simp add: mark_cancel_def)
  then show ?thesis
    by (auto simp: request_cancel_def one_move_def Let_def split: option.splits intro: move_ask)
qed

lemma wait_approval_move: "one_move k s (snd (wait_approval_run k tok att now s))"
  by (auto simp: wait_approval_run_def one_move_def Let_def split: sum.splits intro: move_wait)

lemma resume_move: "one_move k s (snd (resume_run k now s))"
  by (auto simp: resume_run_def one_move_def Let_def split: option.splits intro: move_resume)

lemma cancel_waiting_move: "one_move k s (snd (cancel_waiting_approval own k now s))"
  by (auto simp: cancel_waiting_approval_def one_move_def Let_def split: option.splits
      intro: move_reject)

lemma set_run_skill_move: "one_move k s (snd (set_run_skill own k i n now s))"
  by (auto simp: set_run_skill_def one_move_def Let_def split: option.splits intro: move_skill)

lemma fail_move: "one_move k s (snd (fail_run k tok att rc msg now s))"
  by (auto simp: fail_run_def one_move_def Let_def split: option.splits sum.splits
      intro: move_finish)

lemma cancel_move: "one_move k s (snd (cancel_run k w tok att rc now s))"
  by (auto simp: cancel_run_def one_move_def Let_def split: option.splits sum.splits
      intro: move_finish)

lemma incompatible_move: "one_move k s (snd (incompatible_run k tok att msg now s))"
  by (auto simp: incompatible_run_def one_move_def Let_def split: sum.splits intro: move_finish)

end
