(* ===== verification/Run_Preservation.thy ===== *)
theory Run_Preservation
  imports Run_Invariant
begin

text \<open>
  Claiming, creation, retry, the final reply and deletion keep the invariant of
  \<open>Run_Invariant\<close>. The identifiers made by \<open>uuid4()\<close> are assumed unused
  (\<open>fresh_run_ids\<close>, \<open>fresh_message_id\<close>).
\<close>

section \<open>Claiming\<close>

lemma run_values_iff:
  "platform_inv s \<Longrightarrow> r \<in> snd ` set (runs s) \<longleftrightarrow> map_of (runs s) (r_run_id r) = Some r"
proof -
  assume inv: "platform_inv s"
  then have "distinct (dkeys (runs s))" by (simp add: platform_inv_def runs_ok_def)
  then have "r \<in> snd ` set (runs s) \<longleftrightarrow> (\<exists>k. map_of (runs s) k = Some r)"
    by (rule dvalues_iff)
  also have "\<dots> \<longleftrightarrow> map_of (runs s) (r_run_id r) = Some r"
    using platform_inv_runD(3) [OF inv] by blast
  finally show ?thesis .
qed

lemma candidates_iff:
  "platform_inv s \<Longrightarrow> r \<in> set (candidates now s) \<longleftrightarrow> map_of (runs s) (r_run_id r) = Some r \<and> claimable now r"
  using run_values_iff [of s r] by (auto simp: candidates_def)

lemma claimable_status: "claimable now r \<Longrightarrow> r_status r = Queued \<or> r_status r = Running"
  by (auto simp: claimable_def)

lemma claim_next_cases:
  assumes "platform_inv s"
  obtains (idle) "claim_next tok w now dur s = (None, s)"
    | (claim) r where "map_of (runs s) (r_run_id r) = Some r" and "claimable now r"
        and "owner_running now (r_owner_id r) s < 2"
        and "claim_next tok w now dur s =
               (Some (claimed_run tok w now dur r), put_run (r_run_id r) (claimed_run tok w now dur r) s)"
proof (cases "List.find (\<lambda>run. \<not> owner_running now (r_owner_id run) s \<ge> 2) (candidates now s)")
  case None
  then show ?thesis using idle by (simp add: claim_next_def)
next
  case (Some r)
  then have "r \<in> set (candidates now s)" and "owner_running now (r_owner_id r) s < 2"
    by (auto simp: find_Some_iff)
  with assms Some show ?thesis
    by (intro claim [of r]) (simp_all add: candidates_iff claim_next_def Let_def)
qed

lemma claim_next_move:
  assumes "platform_inv s"
  shows "\<exists>k. one_move k s (snd (claim_next tok w now dur s))"
  using assms
proof (cases rule: claim_next_cases [of s tok w now dur])
  case idle
  then show ?thesis by (simp add: one_move_def)
next
  case (claim r)
  from claim(2) have "run_move r (claimed_run tok w now dur r)"
    by (intro move_claim claimable_status)
  with claim(1,4) have "one_move (r_run_id r) s (snd (claim_next tok w now dur s))"
    by (auto simp: one_move_def)
  then show ?thesis ..
qed

section \<open>Creation and retry\<close>

text \<open>What the code relies on of \<open>uuid4()\<close>: the identifiers it makes are not in use.\<close>

definition fresh_run_ids :: "str \<Rightarrow> str \<Rightarrow> platform_state \<Rightarrow> bool" where
  "fresh_run_ids rid gid s \<longleftrightarrow> map_of (runs s) rid = None \<and> grants s gid = None \<and> run_events s rid = []"

definition fresh_message_id :: "str \<Rightarrow> platform_state \<Rightarrow> bool" where
  "fresh_message_id mid s \<longleftrightarrow> (\<forall>cid. mid \<notin> m_message_id ` set (messages s cid))"

lemma require_conversation_Inr:
  "require_conversation own cid s = Inr c \<longleftrightarrow> map_of (conversations s) cid = Some c \<and> c_owner_id c = own"
  by (auto simp: require_conversation_def split: option.splits if_splits)

lemma require_no_active_run_Inr:
  assumes "platform_inv s"
  shows "require_no_active_run cid s = Inr u \<longleftrightarrow>
     (\<forall>k r. map_of (runs s) k = Some r \<longrightarrow> r_conversation_id r = cid \<longrightarrow> \<not> active_status (r_status r))"
proof -
  have "list_ex P (dvalues (runs s)) \<longleftrightarrow> (\<exists>k r. map_of (runs s) k = Some r \<and> P r)" for P
    using run_values_iff [OF assms] platform_inv_runD(3) [OF assms]
    by (auto simp: list_ex_iff) (metis image_eqI snd_conv map_of_SomeD)+
  then show ?thesis by (auto simp: require_no_active_run_def)
qed

lemma requests_okD:
  assumes "platform_inv s" and "requests s (cid, req) = Some q"
  obtains r where "map_of (runs s) (q_run_id q) = Some r" and "r_conversation_id r = cid"
    and "r_input_message_id r = q_input_message_id q"
proof -
  have "requests_ok s" using assms(1) by (simp add: platform_inv_def)
  with assms(2) that show thesis unfolding requests_ok_def by blast
qed

lemma one_active_add:
  assumes one: "one_active s" and t: "runs t = AList.update k r (runs s)"
    and none: "\<And>k' r'. map_of (runs s) k' = Some r' \<Longrightarrow> r_conversation_id r' = r_conversation_id r
           \<Longrightarrow> \<not> active_status (r_status r')"
  shows "one_active t"
proof (rule one_activeI)
  fix k1 r1 k2 r2
  assume *: "map_of (runs t) k1 = Some r1" "map_of (runs t) k2 = Some r2"
    "active_status (r_status r1)" "active_status (r_status r2)"
    "r_conversation_id r1 = r_conversation_id r2"
  have cases: "i = k \<and> p = r \<or> i \<noteq> k \<and> map_of (runs s) i = Some p"
    if "map_of (runs t) i = Some p" for i p
    using that by (simp add: t split: if_splits)
  show "k1 = k2"
    using cases [OF *(1)] cases [OF *(2)] *(3-5) none one_activeD [OF one] by metis
qed

text \<open>A fresh queued run with its grant, answering a user message of its conversation.\<close>

lemma platform_inv_add_run:
  assumes inv: "platform_inv s" and fresh: "fresh_run_ids rid gid s"
    and c: "map_of (conversations s) cid = Some c" "c_owner_id c = a_owner_id actor"
    and idle: "require_no_active_run cid s = Inr u"
    and m: "m \<in> set (messages s cid)" "m_message_id m = mid" "m_role m = Role_user"
    and q: "q_run_id q = rid" "q_input_message_id q = mid"
  shows "platform_inv (put_run rid (queued_run rid cid (a_owner_id actor) mid gid now rt)
     (s\<lparr>grants := (grants s)(gid \<mapsto> grant_for rid gid actor cid now s),
        requests := (requests s)((cid, req) \<mapsto> q)\<rparr>))" (is "platform_inv ?t")
proof -
  note none = require_no_active_run_Inr [OF inv, THEN iffD1, OF idle]
  let ?r = "queued_run rid cid (a_owner_id actor) mid gid now rt"
  have new: "run_ok ?t rid ?r"
    unfolding run_ok_def
  proof (intro conjI)
    show "\<exists>g. grants ?t (r_grant_id ?r) = Some g \<and> g_run_id g = rid
        \<and> g_owner_id g = r_owner_id ?r \<and> g_conversation_id g = r_conversation_id ?r"
      by (simp add: put_run_def queued_run_def grant_for_def)
    show "\<exists>x\<in>set (messages ?t (r_conversation_id ?r)).
        m_message_id x = r_input_message_id ?r \<and> m_role x = Role_user"
      using m by (intro bexI [of _ m]) (simp_all add: put_run_def queued_run_def)
  qed (use c in \<open>simp_all add: put_run_def queued_run_def\<close>)
  have new': "claim_ok ?r"
    by (simp add: claim_ok_def queued_run_def terminal_def)
  have old: "run_ok ?t k r" if "map_of (runs s) k = Some r" for k r
    using platform_inv_runD(1) [OF inv that] fresh
    by (auto simp: run_ok_def put_run_def fresh_run_ids_def)
  have keys: "distinct (dkeys (runs s))"
    using inv by (simp add: platform_inv_def runs_ok_def)
  have 1: "runs_ok ?t"
    unfolding runs_ok_def
  proof (intro conjI allI impI)
    show "distinct (dkeys (runs ?t))"
      using keys by (simp add: put_run_def distinct_update)
  next
    fix k r
    assume "map_of (runs ?t) k = Some r"
    then have *: "k = rid \<and> r = ?r \<or> map_of (runs s) k = Some r"
      by (auto simp: put_run_def split: if_splits)
    then show "run_ok ?t k r" using new old by blast
    show "claim_ok r" using * new' platform_inv_runD(2) [OF inv] by blast
  qed
  have 2: "requests_ok ?t"
    unfolding requests_ok_def
  proof (intro allI impI)
    fix cid' req' q'
    assume "requests ?t (cid', req') = Some q'"
    then have "cid' = cid \<and> q' = q \<or> requests s (cid', req') = Some q'"
      by (simp add: put_run_def split: if_splits)
    then consider "cid' = cid" "q' = q" | "requests s (cid', req') = Some q'"
      by blast
    then show "\<exists>r. map_of (runs ?t) (q_run_id q') = Some r \<and> r_conversation_id r = cid'
        \<and> r_input_message_id r = q_input_message_id q'"
    proof cases
      case 1
      with q show ?thesis by (simp add: put_run_def queued_run_def)
    next
      case 2
      with inv obtain r where "map_of (runs s) (q_run_id q') = Some r" "r_conversation_id r = cid'"
        "r_input_message_id r = q_input_message_id q'"
        by (rule requests_okD)
      with fresh show ?thesis by (auto simp: put_run_def fresh_run_ids_def)
    qed
  qed
  have 3: "one_active ?t"
  proof (rule one_active_add [of s])
    show "one_active s" using inv by (simp add: platform_inv_def)
    show "runs ?t = AList.update rid ?r (runs s)" by (simp add: put_run_def)
    show "\<not> active_status (r_status r')"
      if "map_of (runs s) k' = Some r'" "r_conversation_id r' = r_conversation_id ?r" for k' r'
      using none that by (simp add: queued_run_def)
  qed
  show ?thesis
    by (rule platform_inv_runs_frame [OF inv 1 2 3]) (simp_all add: put_run_def)
qed

text \<open>One more message at the end of a thread.\<close>

lemma thread_ok_snoc:
  assumes "thread_ok cid ms" and "m_sequence m = int (length ms) + 1"
    and "m_message_id m \<notin> m_message_id ` set ms" and "m_conversation_id m = cid"
    and "m_role m = Role_user \<longleftrightarrow> m_reply_to_message_id m = None"
    and "m_role m = Role_assistant \<Longrightarrow>
           m_reply_to_message_id m \<notin> m_reply_to_message_id ` {n \<in> set ms. m_role n = Role_assistant}"
  shows "thread_ok cid (ms @ [m])"
  using assms counted_snoc [of "map m_sequence ms"] by (auto simp: thread_ok_def)

lemma platform_inv_add_message:
  assumes inv: "platform_inv s" and c: "map_of (conversations s) cid \<noteq> None"
    and t: "thread_ok cid (messages s cid @ [m])"
  shows "platform_inv (s\<lparr>messages := (messages s)(cid := messages s cid @ [m])\<rparr>)" (is "platform_inv ?t")
proof -
  have run: "run_ok ?t k r" if "run_ok s k r" for k r
    using that by (auto simp: run_ok_def)
  have 1: "runs_ok ?t" using inv run by (simp add: platform_inv_def runs_ok_def)
  have 2: "convs_ok ?t" using inv by (simp add: platform_inv_def convs_ok_def)
  have 3: "messages_ok ?t" using inv c t by (simp add: platform_inv_def messages_ok_def)
  show ?thesis
    by (rule platform_inv_messages_frame [OF inv 1 2 3]) simp_all
qed

text \<open>A conversation updated in place, keeping its identity and owner.\<close>

lemma platform_inv_put_conversation:
  assumes inv: "platform_inv s" and c: "map_of (conversations s) cid = Some c"
    and c': "c_conversation_id c' = c_conversation_id c" "c_owner_id c' = c_owner_id c"
  shows "platform_inv (s\<lparr>conversations := AList.update cid c' (conversations s)\<rparr>)" (is "platform_inv ?t")
proof -
  have run: "run_ok ?t k r" if "run_ok s k r" for k r
    using that c c' by (auto simp: run_ok_def)
  have 1: "runs_ok ?t" using inv run by (simp add: platform_inv_def runs_ok_def)
  have 2: "convs_ok ?t" using inv c c' by (simp add: platform_inv_def convs_ok_def distinct_update)
  have 3: "messages_ok ?t" using inv by (simp add: platform_inv_def messages_ok_def)
  show ?thesis
    by (rule platform_inv_messages_frame [OF inv 1 2 3]) simp_all
qed

text \<open>The input message that \<open>create_run\<close> writes, and the state after a creation.\<close>

definition input_message ::
  "str \<Rightarrow> actor \<Rightarrow> str \<Rightarrow> str \<Rightarrow> str \<Rightarrow> datetime \<Rightarrow> platform_state \<Rightarrow> conversation_message" where
  "input_message mid actor cid message req now s =
     \<lparr>m_message_id = mid, m_conversation_id = cid, m_owner_id = a_owner_id actor, m_role = Role_user,
      m_content = message, m_sequence = next_sequence cid s, m_created_at = now,
      m_client_request_id = Some req, m_source_run_id = None, m_reply_to_message_id = None,
      m_content_blocks = []\<rparr>"

definition created_state ::
  "str \<Rightarrow> str \<Rightarrow> str \<Rightarrow> actor \<Rightarrow> str \<Rightarrow> str \<Rightarrow> str \<Rightarrow> datetime \<Rightarrow> conversation \<Rightarrow> platform_state
   \<Rightarrow> platform_state" where
  "created_state mid rid gid actor cid message req now c s =
     (let s1 = s\<lparr>messages := (messages s)(cid :=
                messages s cid @ [input_message mid actor cid message req now s])\<rparr>;
          s2 = put_run rid (queued_run rid cid (a_owner_id actor) mid gid now None)
                 (s1\<lparr>grants := (grants s1)(gid \<mapsto> grant_for rid gid actor cid now s1),
                     requests := (requests s1)((cid, req) \<mapsto>
                       \<lparr>q_operation = Op_create, q_payload = message, q_run_id = rid,
                        q_input_message_id = mid\<rparr>)\<rparr>)
      in s2\<lparr>conversations := AList.update cid (c\<lparr>c_updated_at := now\<rparr>) (conversations s2)\<rparr>)"

lemma grant_for_owners: "owners t = owners s \<Longrightarrow> grant_for rid gid a cid now t = grant_for rid gid a cid now s"
  by (simp add: grant_for_def)

lemma create_run_fresh:
  assumes "map_of (conversations s) cid = Some c" and "c_owner_id c = a_owner_id actor"
    and "require_active_owner_if_known (a_owner_id actor) s = Inr ()"
    and "requests s (cid, req) = None" and "c_lifecycle_state c = Active"
    and "require_no_active_run cid s = Inr ()"
  shows "create_run mid rid gid actor cid message req now s =
     (Inr \<lparr>rc_run = queued_run rid cid (a_owner_id actor) mid gid now None,
           rc_input_message = input_message mid actor cid message req now s\<rparr>,
      created_state mid rid gid actor cid message req now c s)"
  using assms
  by (simp add: create_run_def require_conversation_def created_state_def new_run_def Let_def
      put_run_def input_message_def grant_for_def queued_run_def)

lemma create_run_cases:
  obtains (same) "snd (create_run mid rid gid actor cid message req now s) = s"
  | (fresh) c where "map_of (conversations s) cid = Some c" and "c_owner_id c = a_owner_id actor"
      and "require_active_owner_if_known (a_owner_id actor) s = Inr ()"
      and "requests s (cid, req) = None" and "c_lifecycle_state c = Active"
      and "require_no_active_run cid s = Inr ()"
      and "snd (create_run mid rid gid actor cid message req now s) =
             created_state mid rid gid actor cid message req now c s"
proof (cases "snd (create_run mid rid gid actor cid message req now s) = s")
  case changed: False
  then obtain c where c: "require_conversation (a_owner_id actor) cid s = Inr c"
    by (cases "require_conversation (a_owner_id actor) cid s") (simp_all add: create_run_def)
  from changed c have 1: "require_active_owner_if_known (a_owner_id actor) s = Inr ()"
    by (cases "require_active_owner_if_known (a_owner_id actor) s") (simp_all add: create_run_def)
  from changed c 1 have 2: "requests s (cid, req) = None"
    by (cases "requests s (cid, req)") (simp_all add: create_run_def split: if_splits)
  from changed c 1 2 have 3: "c_lifecycle_state c = Active"
    by (simp add: create_run_def split: if_splits)
  from changed c 1 2 3 have 4: "require_no_active_run cid s = Inr ()"
    by (cases "require_no_active_run cid s") (simp_all add: create_run_def)
  from c have c': "map_of (conversations s) cid = Some c" "c_owner_id c = a_owner_id actor"
    by (simp_all add: require_conversation_Inr)
  show ?thesis
    by (rule fresh [OF c' 1 2 3 4]) (simp add: create_run_fresh [OF c' 1 2 3 4])
qed (rule same)

lemma created_state_inv:
  assumes inv: "platform_inv s" and c: "map_of (conversations s) cid = Some c"
    and own: "c_owner_id c = a_owner_id actor" and idle: "require_no_active_run cid s = Inr ()"
    and fresh: "fresh_run_ids rid gid s" "fresh_message_id mid s"
  shows "platform_inv (created_state mid rid gid actor cid message req now c s)"
proof -
  let ?m = "input_message mid actor cid message req now s"
  let ?s1 = "s\<lparr>messages := (messages s)(cid := messages s cid @ [?m])\<rparr>"
  have thread: "thread_ok cid (messages s cid)" using inv by (simp add: platform_inv_def messages_ok_def)
  then have "counted (map m_sequence (messages s cid))" by (simp add: thread_ok_def)
  then have "m_sequence ?m = int (length (messages s cid)) + 1"
    by (simp add: input_message_def next_sequence_counted)
  then have "thread_ok cid (messages s cid @ [?m])"
    using thread fresh(2) by (intro thread_ok_snoc) (simp_all add: input_message_def fresh_message_id_def)
  then have inv1: "platform_inv ?s1" using c by (intro platform_inv_add_message [OF inv]) simp_all
  have "platform_inv (put_run rid (queued_run rid cid (a_owner_id actor) mid gid now None)
     (?s1\<lparr>grants := (grants ?s1)(gid \<mapsto> grant_for rid gid actor cid now ?s1),
        requests := (requests ?s1)((cid, req) \<mapsto> \<lparr>q_operation = Op_create, q_payload = message,
          q_run_id = rid, q_input_message_id = mid\<rparr>)\<rparr>))" (is "platform_inv ?s2")
  proof (rule platform_inv_add_run [OF inv1, where m = ?m])
    show "fresh_run_ids rid gid ?s1" using fresh(1) by (simp add: fresh_run_ids_def)
    show "require_no_active_run cid ?s1 = Inr ()" using idle by (simp add: require_no_active_run_def)
  qed (use c own in \<open>simp_all add: input_message_def\<close>)
  then have "platform_inv (?s2\<lparr>conversations := AList.update cid (c\<lparr>c_updated_at := now\<rparr>) (conversations ?s2)\<rparr>)"
    by (rule platform_inv_put_conversation [where c = c]) (use c in \<open>simp_all add: put_run_def\<close>)
  then show ?thesis by (simp add: created_state_def Let_def)
qed

lemma create_run_inv:
  assumes "platform_inv s" and "fresh_run_ids rid gid s" and "fresh_message_id mid s"
  shows "platform_inv (snd (create_run mid rid gid actor cid message req now s))"
  by (cases rule: create_run_cases [of mid rid gid actor cid message req now s])
    (use assms created_state_inv in auto)

section \<open>Retry\<close>

definition retried_state ::
  "str \<Rightarrow> str \<Rightarrow> actor \<Rightarrow> str \<Rightarrow> agent_run \<Rightarrow> str \<Rightarrow> datetime \<Rightarrow> platform_state \<Rightarrow> platform_state" where
  "retried_state rid gid actor src source req now s =
     (let cid = r_conversation_id source; mid = r_input_message_id source in
      put_run rid (queued_run rid cid (a_owner_id actor) mid gid now (Some src))
        (s\<lparr>grants := (grants s)(gid \<mapsto> grant_for rid gid actor cid now s),
           requests := (requests s)((cid, req) \<mapsto>
             \<lparr>q_operation = Op_retry src, q_payload = [], q_run_id = rid,
              q_input_message_id = mid\<rparr>)\<rparr>))"

text \<open>The guards of a retry that creates a run.\<close>

definition retry_allowed :: "actor \<Rightarrow> str \<Rightarrow> str \<Rightarrow> platform_state \<Rightarrow> agent_run \<Rightarrow> conversation_message \<Rightarrow> bool" where
  "retry_allowed actor src req s source im \<longleftrightarrow> map_of (runs s) src = Some source
     \<and> r_owner_id source = a_owner_id actor \<and> requests s (r_conversation_id source, req) = None
     \<and> r_status source \<in> {Failed, Cancelled, Incompatible}
     \<and> (\<exists>c. require_conversation (a_owner_id actor) (r_conversation_id source) s = Inr c)
     \<and> require_active_owner_if_known (a_owner_id actor) s = Inr ()
     \<and> (let um = filter (\<lambda>item. m_role item = Role_user) (messages s (r_conversation_id source))
        in um \<noteq> [] \<and> m_message_id (last um) = r_input_message_id source)
     \<and> require_no_active_run (r_conversation_id source) s = Inr ()
     \<and> next_match (\<lambda>item. m_message_id item = r_input_message_id source)
           (messages s (r_conversation_id source)) = Inr im"

lemma retry_run_fresh:
  assumes "retry_allowed actor src req s source im"
  shows "retry_run rid gid actor src req now s =
     (Inr \<lparr>rc_run = queued_run rid (r_conversation_id source) (a_owner_id actor)
             (r_input_message_id source) gid now (Some src), rc_input_message = im\<rparr>,
      retried_state rid gid actor src source req now s)"
  using assms unfolding retry_allowed_def
  by (clarsimp simp: require_conversation_Inr retry_run_def Let_def new_run_def retried_state_def put_run_def grant_for_def
      queued_run_def require_conversation_def split: option.splits)

lemma retry_run_refused:
  assumes "\<nexists>source im. retry_allowed actor src req s source im"
  shows "snd (retry_run rid gid actor src req now s) = s"
proof (cases "map_of (runs s) src")
  case None
  then show ?thesis by (simp add: retry_run_def)
next
  case (Some source)
  have no: "\<not> retry_allowed actor src req s source im" for im using assms by blast
  show ?thesis
  proof (rule ccontr)
    assume changed: "snd (retry_run rid gid actor src req now s) \<noteq> s"
    from changed Some have 1: "r_owner_id source = a_owner_id actor"
      by (simp add: retry_run_def split: if_splits)
    from changed Some 1 have 2: "requests s (r_conversation_id source, req) = None"
      by (simp add: retry_run_def Let_def split: if_splits option.splits)
    from changed Some 1 2 have 3: "r_status source \<in> {Failed, Cancelled, Incompatible}"
      by (simp add: retry_run_def Let_def split: if_splits)
    note s1 = changed Some 1 2 3
    from s1 have 4: "\<exists>c. require_conversation (a_owner_id actor) (r_conversation_id source) s = Inr c"
      by (cases "require_conversation (a_owner_id actor) (r_conversation_id source) s")
        (simp_all add: retry_run_def Let_def)
    then obtain c where c: "require_conversation (a_owner_id actor) (r_conversation_id source) s = Inr c" ..
    from s1 c have 5: "require_active_owner_if_known (a_owner_id actor) s = Inr ()"
      by (cases "require_active_owner_if_known (a_owner_id actor) s") (simp_all add: retry_run_def Let_def)
    from s1 c 5 have 6: "let um = filter (\<lambda>item. m_role item = Role_user) (messages s (r_conversation_id source))
        in um \<noteq> [] \<and> m_message_id (last um) = r_input_message_id source"
      by (simp add: retry_run_def Let_def split: if_splits)
    from s1 c 5 6 have 7: "require_no_active_run (r_conversation_id source) s = Inr ()"
      by (cases "require_no_active_run (r_conversation_id source) s") (simp_all add: retry_run_def Let_def)
    from s1 c 5 6 7 obtain im where 8: "next_match (\<lambda>item. m_message_id item = r_input_message_id source)
           (messages s (r_conversation_id source)) = Inr im"
      by (cases "next_match (\<lambda>item. m_message_id item = r_input_message_id source)
           (messages s (r_conversation_id source))") (simp_all add: retry_run_def Let_def)
    have "retry_allowed actor src req s source im"
      unfolding retry_allowed_def using Some 1 2 3 4 5 6 7 8 by blast
    with no show False by blast
  qed
qed

lemma retry_run_inv:
  assumes inv: "platform_inv s" and ids: "fresh_run_ids rid gid s"
  shows "platform_inv (snd (retry_run rid gid actor src req now s))"
proof (cases "\<exists>source im. retry_allowed actor src req s source im")
  case False
  with inv retry_run_refused show ?thesis by metis
next
  case True
  then obtain source im where ok: "retry_allowed actor src req s source im" by blast
  then have src: "map_of (runs s) src = Some source" and own: "r_owner_id source = a_owner_id actor"
    and idle: "require_no_active_run (r_conversation_id source) s = Inr ()"
    by (simp_all add: retry_allowed_def)
  from platform_inv_runD(1) [OF inv src] obtain c m
    where c: "map_of (conversations s) (r_conversation_id source) = Some c"
      "c_owner_id c = r_owner_id source"
      and m: "m \<in> set (messages s (r_conversation_id source))"
        "m_message_id m = r_input_message_id source" "m_role m = Role_user"
    unfolding run_ok_def by blast
  have "platform_inv (retried_state rid gid actor src source req now s)"
    unfolding retried_state_def Let_def
    by (rule platform_inv_add_run [OF inv ids c(1) _ idle m]) (use c own in simp_all)
  then show ?thesis by (simp add: retry_run_fresh [OF ok])
qed

section \<open>The final reply\<close>

text \<open>The reply that \<open>succeed_run\<close> settles on and the state after it is in the thread.\<close>

definition reply_for ::
  "str \<Rightarrow> str \<Rightarrow> agent_run \<Rightarrow> str \<Rightarrow> (str, str) dict list \<Rightarrow> datetime \<Rightarrow> platform_state
   \<Rightarrow> conversation_message" where
  "reply_for mid k run answer blocks now s =
     (case List.find (reply_of k run) (messages s (r_conversation_id run)) of
        None \<Rightarrow> new_reply mid k run answer blocks now s | Some item \<Rightarrow> item)"

definition replied_state ::
  "str \<Rightarrow> str \<Rightarrow> agent_run \<Rightarrow> str \<Rightarrow> (str, str) dict list \<Rightarrow> datetime \<Rightarrow> platform_state \<Rightarrow> platform_state"
where
  "replied_state mid k run answer blocks now s =
     (case List.find (reply_of k run) (messages s (r_conversation_id run)) of
        None \<Rightarrow> s\<lparr>messages := (messages s)(r_conversation_id run :=
                   messages s (r_conversation_id run) @ [new_reply mid k run answer blocks now s])\<rparr>
      | Some _ \<Rightarrow> s)"

definition finished_state ::
  "str \<Rightarrow> str \<Rightarrow> agent_run \<Rightarrow> str \<Rightarrow> (str, str) dict list \<Rightarrow> datetime \<Rightarrow> conversation \<Rightarrow> str
   \<Rightarrow> platform_state \<Rightarrow> platform_state" where
  "finished_state mid k run answer blocks now c title s =
     (let s1 = replied_state mid k run answer blocks now s;
          s2 = put_run k (succeeded_run (m_message_id (reply_for mid k run answer blocks now s)) now run) s1
      in s2\<lparr>conversations := AList.update (r_conversation_id run)
             (c\<lparr>c_title := title, c_updated_at := now, c_last_successful_at := Some now\<rparr>)
             (conversations s2)\<rparr>)"

lemma replied_state_simps [simp]:
  "runs (replied_state mid k run answer blocks now s) = runs s"
  "conversations (replied_state mid k run answer blocks now s) = conversations s"
  "requests (replied_state mid k run answer blocks now s) = requests s"
  "grants (replied_state mid k run answer blocks now s) = grants s"
  "run_events (replied_state mid k run answer blocks now s) = run_events s"
  "owners (replied_state mid k run answer blocks now s) = owners s"
  by (simp_all add: replied_state_def split: option.splits)

lemma replied_state_prefix:
  "\<exists>new. messages (replied_state mid k run answer blocks now s) cid = messages s cid @ new"
  by (simp add: replied_state_def split: option.splits)

lemma next_match_Some: "x \<in> set xs \<Longrightarrow> P x \<Longrightarrow> \<exists>y. next_match P xs = Inr y"
  by (auto simp: next_match_def find_None_iff split: option.splits)

lemma title_after_Inr:
  assumes "m \<in> set msgs" and "m_message_id m = r_input_message_id run"
  shows "\<exists>title. title_after c run output msgs = Inr title"
proof -
  obtain y where "next_match (\<lambda>item. m_message_id item = r_input_message_id run) msgs = Inr y"
    using next_match_Some [OF assms(1), where P = "\<lambda>item. m_message_id item = r_input_message_id run"]
      assms(2) by blast
  then show ?thesis by (simp add: title_after_def)
qed

lemma succeed_run_cases:
  assumes inv: "platform_inv s"
  obtains (same) "snd (succeed_run mid k tok att answer now blocks s) = s"
  | (finished) run c title where "map_of (runs s) k = Some run" and "r_status run = Running"
      and "r_claim_token run = Some tok" and "r_execution_attempt run = att"
      and "r_cancel_requested_at run = None"
      and "map_of (conversations s) (r_conversation_id run) = Some c"
      and "c_lifecycle_state c = Active"
      and "succeed_run mid k tok att answer now blocks s =
         (Inr (succeeded_run (m_message_id (reply_for mid k run answer blocks now s)) now run),
          finished_state mid k run answer blocks now c title s)"
proof (cases "snd (succeed_run mid k tok att answer now blocks s) = s")
  case changed: False
  then obtain run where r: "map_of (runs s) k = Some run"
    by (cases "map_of (runs s) k") (simp_all add: succeed_run_def)
  from changed r have ns: "r_status run \<noteq> Succeeded"
    by (simp add: succeed_run_def split: if_splits)
  from changed r ns have claim: "require_current_claim k tok att None s = Inr run"
    by (cases "require_current_claim k tok att None s") (simp_all add: succeed_run_def)
  from changed r ns claim have nc: "r_cancel_requested_at run = None"
    by (simp add: succeed_run_def del: require_current_claim_Inr split: if_splits)
  from changed r ns claim nc obtain c where c: "map_of (conversations s) (r_conversation_id run) = Some c"
    by (cases "map_of (conversations s) (r_conversation_id run)")
      (simp_all add: succeed_run_def del: require_current_claim_Inr)
  from changed r ns claim nc c have act: "c_lifecycle_state c = Active"
    by (simp add: succeed_run_def del: require_current_claim_Inr split: if_splits)
  obtain m where m: "m \<in> set (messages s (r_conversation_id run))"
    "m_message_id m = r_input_message_id run"
    using platform_inv_runD(1) [OF inv r] unfolding run_ok_def by blast
  then have "m \<in> set (messages (replied_state mid k run answer blocks now s) (r_conversation_id run))"
    using replied_state_prefix [of mid k run answer blocks now s "r_conversation_id run"] by auto
  then obtain title where title: "title_after c run (reply_for mid k run answer blocks now s)
      (messages (replied_state mid k run answer blocks now s) (r_conversation_id run)) = Inr title"
    using title_after_Inr m(2) by blast
  have "succeed_run mid k tok att answer now blocks s =
         (Inr (succeeded_run (m_message_id (reply_for mid k run answer blocks now s)) now run),
          finished_state mid k run answer blocks now c title s)"
    using r ns claim nc c act title
    by (cases "List.find (reply_of k run) (messages s (r_conversation_id run))")
      (simp_all add: succeed_run_def Let_def finished_state_def replied_state_def reply_for_def
        del: require_current_claim_Inr)
  with r ns claim nc c act show ?thesis by (intro finished) simp_all
qed (rule same)

lemma replied_state_inv:
  assumes inv: "platform_inv s" and r: "map_of (runs s) k = Some run" and mid: "fresh_message_id mid s"
  shows "platform_inv (replied_state mid k run answer blocks now s)"
proof (cases "List.find (reply_of k run) (messages s (r_conversation_id run))")
  case None
  let ?cid = "r_conversation_id run" and ?m = "new_reply mid k run answer blocks now s"
  have thread: "thread_ok ?cid (messages s ?cid)"
    using inv by (simp add: platform_inv_def messages_ok_def)
  then have "m_sequence ?m = int (length (messages s ?cid)) + 1"
    by (simp add: new_reply_def next_sequence_counted thread_ok_def)
  moreover have "Some (r_input_message_id run) \<noteq> m_reply_to_message_id n"
    if "n \<in> set (messages s ?cid)" for n
    using None that by (auto simp: find_None_iff reply_of_def)
  then have "m_reply_to_message_id ?m \<notin>
      m_reply_to_message_id ` {n \<in> set (messages s ?cid). m_role n = Role_assistant}"
    unfolding new_reply_def by auto
  ultimately have "thread_ok ?cid (messages s ?cid @ [?m])"
    using thread mid by (intro thread_ok_snoc) (simp_all add: new_reply_def fresh_message_id_def)
  moreover have "map_of (conversations s) ?cid \<noteq> None"
    using platform_inv_runD(1) [OF inv r] by (auto simp: run_ok_def)
  ultimately show ?thesis
    using platform_inv_add_message [OF inv] None by (simp add: replied_state_def)
qed (simp add: replied_state_def inv)

lemma succeed_run_inv:
  assumes inv: "platform_inv s" and mid: "fresh_message_id mid s"
  shows "platform_inv (snd (succeed_run mid k tok att answer now blocks s))"
proof (cases rule: succeed_run_cases [OF inv, where mid = mid and k = k and tok = tok and att = att
      and answer = answer and now = now and blocks = blocks, case_names same finished])
  case same
  with inv show ?thesis by simp
next
  case (finished run c title)
  let ?s1 = "replied_state mid k run answer blocks now s"
  let ?r' = "succeeded_run (m_message_id (reply_for mid k run answer blocks now s)) now run"
  have "one_move k ?s1 (put_run k ?r' ?s1)"
    using finished(1,2) move_success by (fastforce simp: one_move_def)
  then have "platform_inv (put_run k ?r' ?s1)"
    by (rule one_move_inv) (rule replied_state_inv [OF inv finished(1) mid])
  then have "platform_inv (finished_state mid k run answer blocks now c title s)"
    unfolding finished_state_def Let_def
    by (rule platform_inv_put_conversation [where c = c]) (use finished(6) in \<open>simp_all add: put_run_def\<close>)
  with finished show ?thesis by simp
qed

section \<open>Events and conversations\<close>

lemma append_run_event_inv:
  assumes "platform_inv s"
  shows "platform_inv (snd (append_run_event k ty payload now s))"
proof (cases "k \<in> set (dkeys (runs s))")
  case False
  with assms show ?thesis by (simp add: append_run_event_def)
next
  case True
  let ?t = "snd (append_run_event k ty payload now s)"
  have ev: "events_ok s" using assms by (simp add: platform_inv_def)
  have "events_ok ?t"
    using ev counted_snoc [of "map e_sequence (run_events s k)"] True
    by (auto simp: events_ok_def append_run_event_def Let_def)
  moreover have "one_active ?t = one_active s" "requests_ok ?t = requests_ok s"
    "convs_ok ?t = convs_ok s" "runs_ok ?t = runs_ok s" "messages_ok ?t = messages_ok s"
    by (simp_all add: append_run_event_def Let_def one_active_def requests_ok_def convs_ok_def
        runs_ok_def run_ok_def messages_ok_def)
  ultimately show ?thesis using assms by (simp add: platform_inv_def)
qed

lemma platform_inv_guest_creates [simp]: "platform_inv (s\<lparr>guest_creates := g\<rparr>) = platform_inv s"
  by (simp add: platform_inv_def one_active_def requests_ok_def convs_ok_def runs_ok_def run_ok_def
      messages_ok_def events_ok_def)

lemma add_conversation_inv:
  assumes inv: "platform_inv s" and fresh: "map_of (conversations s) (c_conversation_id c) = None"
  shows "platform_inv (add_conversation c s)" (is "platform_inv ?t")
proof -
  have run: "run_ok ?t k r" if "run_ok s k r" for k r
    using that fresh by (auto simp: run_ok_def add_conversation_def)
  have 1: "runs_ok ?t" using inv run by (simp add: platform_inv_def runs_ok_def add_conversation_def)
  have 2: "convs_ok ?t" using inv by (simp add: platform_inv_def convs_ok_def distinct_update add_conversation_def)
  have 3: "messages_ok ?t" using inv by (simp add: platform_inv_def messages_ok_def add_conversation_def)
  show ?thesis
    by (rule platform_inv_messages_frame [OF inv 1 2 3]) (simp_all add: add_conversation_def)
qed

lemma create_conversation_inv:
  assumes "platform_inv s" and "map_of (conversations s) cid = None"
  shows "platform_inv (snd (create_conversation cid actor now s))"
  using assms by (auto simp: create_conversation_def Let_def new_conversation_def
      intro!: add_conversation_inv split: sum.splits)

lemma get_conversation_Some:
  "get_conversation own cid s = Some c \<longleftrightarrow> map_of (conversations s) cid = Some c \<and> c_owner_id c = own"
  by (auto simp: get_conversation_def split: option.splits)

lemma rename_conversation_inv:
  "platform_inv s \<Longrightarrow> platform_inv (snd (rename_conversation own cid title now s))"
  by (auto simp: rename_conversation_def Let_def get_conversation_Some split: option.splits
      intro: platform_inv_put_conversation)

text \<open>Several runs rewritten by one loop, each by a move.\<close>

lemma platform_inv_drewrite:
  assumes inv: "platform_inv s" and mv: "\<And>k r. P k r \<Longrightarrow> run_move r (f r)"
  shows "platform_inv (s\<lparr>runs := drewrite P f (runs s)\<rparr>)" (is "platform_inv ?t")
proof -
  let ?g = "\<lambda>k r. if P k r then f r else r"
  have same: "same_identity r (?g k r)" for k r
    using run_move_identity [OF mv] by (auto simp: same_identity_def)
  have old: "\<exists>r0. map_of (runs s) k = Some r0 \<and> r = ?g k r0" if "map_of (runs ?t) k = Some r" for k r
    using that by auto
  have 1: "runs_ok ?t"
    unfolding runs_ok_def
  proof (intro conjI allI impI)
    show "distinct (dkeys (runs ?t))" using inv by (simp add: platform_inv_def runs_ok_def)
  next
    fix k r
    assume "map_of (runs ?t) k = Some r"
    then obtain r0 where r0: "map_of (runs s) k = Some r0" and r: "r = ?g k r0" using old by blast
    show "run_ok ?t k r"
      using platform_inv_runD(1) [OF inv r0] same [of r0 k] unfolding r run_ok_def same_identity_def by simp
    show "claim_ok r"
      using platform_inv_runD(2) [OF inv r0] run_move_claim_ok [OF mv] unfolding r by simp
  qed
  have 2: "requests_ok ?t"
    unfolding requests_ok_def
  proof (intro allI impI)
    fix cid req q
    assume "requests ?t (cid, req) = Some q"
    then have "requests s (cid, req) = Some q" by simp
    with inv obtain r0 where "map_of (runs s) (q_run_id q) = Some r0" "r_conversation_id r0 = cid"
      "r_input_message_id r0 = q_input_message_id q" by (rule requests_okD)
    then show "\<exists>r. map_of (runs ?t) (q_run_id q) = Some r \<and> r_conversation_id r = cid
        \<and> r_input_message_id r = q_input_message_id q"
      using same [of r0 "q_run_id q"] by (simp add: same_identity_def)
  qed
  have one: "one_active s" using inv by (simp add: platform_inv_def)
  have 3: "one_active ?t"
  proof (rule one_activeI)
    fix k1 r1 k2 r2
    assume *: "map_of (runs ?t) k1 = Some r1" "map_of (runs ?t) k2 = Some r2"
      "active_status (r_status r1)" "active_status (r_status r2)"
      "r_conversation_id r1 = r_conversation_id r2"
    from old [OF *(1)] obtain q1 where q1: "map_of (runs s) k1 = Some q1" "r1 = ?g k1 q1" by blast
    from old [OF *(2)] obtain q2 where q2: "map_of (runs s) k2 = Some q2" "r2 = ?g k2 q2" by blast
    have "active_status (r_status q1)" "active_status (r_status q2)"
      using *(3,4) q1(2) q2(2) run_move_active [OF mv] by (auto split: if_splits)
    moreover have "r_conversation_id q1 = r_conversation_id q2"
      using *(5) same [of q1 k1] same [of q2 k2] unfolding q1(2) q2(2) same_identity_def by simp
    ultimately show "k1 = k2" using one_activeD [OF one q1(1) q2(1)] by blast
  qed
  show ?thesis by (rule platform_inv_runs_frame [OF inv 1 2 3]) simp_all
qed

lemma mark_conversation_deleting_inv:
  assumes inv: "platform_inv s"
  shows "platform_inv (snd (mark_conversation_deleting own cid now s))"
proof (cases "get_conversation own cid s")
  case None
  with inv show ?thesis by (simp add: mark_conversation_deleting_def)
next
  case (Some c)
  then have c: "map_of (conversations s) cid = Some c" by (simp add: get_conversation_Some)
  let ?c = "c\<lparr>c_lifecycle_state := Deleting, c_updated_at := now\<rparr>"
  have "run_move r (mark_cancel now r)" if "live_run_of cid r" for r
    using that by (auto simp: live_run_of_def intro: move_ask)
  moreover have "platform_inv (s\<lparr>conversations := AList.update cid ?c (conversations s)\<rparr>)"
    by (rule platform_inv_put_conversation [OF inv c]) simp_all
  ultimately show ?thesis
    using Some platform_inv_drewrite [where P = "\<lambda>_. live_run_of cid" and f = "mark_cancel now"]
    by (fastforce simp: mark_conversation_deleting_def)
qed

lemma remove_conversation_runs:
  assumes inv: "platform_inv s" and c: "map_of (conversations s) cid = Some c" "c_owner_id c = own"
  shows "map_of (runs (remove_conversation own cid s)) k =
     (case map_of (runs s) k of None \<Rightarrow> None
      | Some r \<Rightarrow> if r_conversation_id r = cid then None else Some r)"
proof -
  have d: "distinct (dkeys (runs s))" using inv by (simp add: platform_inv_def runs_ok_def)
  have key: "k \<in> r_run_id ` {r \<in> snd ` set (runs s). r_conversation_id r = cid} \<longleftrightarrow>
      (\<exists>r. map_of (runs s) k = Some r \<and> r_conversation_id r = cid)"
  proof
    assume "k \<in> r_run_id ` {r \<in> snd ` set (runs s). r_conversation_id r = cid}"
    then obtain r where "k = r_run_id r" "r \<in> snd ` set (runs s)" "r_conversation_id r = cid" by blast
    with run_values_iff [OF inv, of r] show "\<exists>r. map_of (runs s) k = Some r \<and> r_conversation_id r = cid"
      by blast
  next
    assume "\<exists>r. map_of (runs s) k = Some r \<and> r_conversation_id r = cid"
    then obtain r where r: "map_of (runs s) k = Some r" "r_conversation_id r = cid" by blast
    with platform_inv_runD(3) [OF inv r(1)] run_values_iff [OF inv, of r]
    show "k \<in> r_run_id ` {r \<in> snd ` set (runs s). r_conversation_id r = cid}" by blast
  qed
  show ?thesis
    using c key by (simp add: remove_conversation_def Let_def map_of_ddrop [OF d] split: option.splits)
qed

lemma remove_conversation_inv:
  assumes inv: "platform_inv s"
  shows "platform_inv (remove_conversation own cid s)"
proof (cases "\<exists>c. map_of (conversations s) cid = Some c \<and> c_owner_id c = own")
  case False
  then have "remove_conversation own cid s = s"
    by (auto simp: remove_conversation_def split: option.splits)
  with inv show ?thesis by simp
next
  case True
  then obtain c where c: "map_of (conversations s) cid = Some c" "c_owner_id c = own" by blast
  let ?t = "remove_conversation own cid s"
  note runs_t = remove_conversation_runs [OF inv c]
  have old: "map_of (runs s) k = Some r \<and> r_conversation_id r \<noteq> cid" if "map_of (runs ?t) k = Some r" for k r
    using that by (auto simp: runs_t split: option.splits if_splits)
  have grants_t: "grants ?t (r_grant_id r) = grants s (r_grant_id r)"
    if "map_of (runs s) k = Some r" "r_conversation_id r \<noteq> cid" for k r
  proof -
    have "r_grant_id r \<noteq> r_grant_id r'" if "r' \<in> snd ` set (runs s)" "r_conversation_id r' = cid" for r'
      using platform_inv_runD(1) [OF inv \<open>map_of (runs s) k = Some r\<close>] \<open>r_conversation_id r \<noteq> cid\<close>
        that run_values_iff [OF inv] platform_inv_runD(1) [OF inv, of "r_run_id r'" r']
      by (auto simp: run_ok_def)
    then show ?thesis using c by (auto simp: remove_conversation_def Let_def)
  qed
  have 1: "runs_ok ?t"
    unfolding runs_ok_def
  proof (intro conjI allI impI)
    have "distinct (dkeys (runs s))" using inv by (simp add: platform_inv_def runs_ok_def)
    then show "distinct (dkeys (runs ?t))"
      using c by (auto simp: remove_conversation_def Let_def intro!: distinct_ddrop)
  next
    fix k r
    assume "map_of (runs ?t) k = Some r"
    then have r: "map_of (runs s) k = Some r" and ne: "r_conversation_id r \<noteq> cid" using old by blast+
    have "conversations ?t = AList.delete cid (conversations s)"
      "messages ?t = (messages s)(cid := [])"
      using c by (simp_all add: remove_conversation_def Let_def)
    then show "run_ok ?t k r"
      using platform_inv_runD(1) [OF inv r] ne grants_t [OF r ne] unfolding run_ok_def by simp
    show "claim_ok r" by (rule platform_inv_runD(2) [OF inv r])
  qed
  have 2: "requests_ok ?t"
    unfolding requests_ok_def
  proof (intro allI impI)
    fix cid' req q
    assume "requests ?t (cid', req) = Some q"
    then have "cid' \<noteq> cid" and "requests s (cid', req) = Some q"
      using c by (auto simp: remove_conversation_def Let_def split: if_splits)
    from requests_okD [OF inv this(2)] obtain r where "map_of (runs s) (q_run_id q) = Some r"
      "r_conversation_id r = cid'" "r_input_message_id r = q_input_message_id q" by blast
    then show "\<exists>r. map_of (runs ?t) (q_run_id q) = Some r \<and> r_conversation_id r = cid'
        \<and> r_input_message_id r = q_input_message_id q"
      using \<open>cid' \<noteq> cid\<close> by (simp add: runs_t)
  qed
  have one: "one_active s" using inv by (simp add: platform_inv_def)
  have 3: "one_active ?t"
    by (rule one_activeI) (use old one_activeD [OF one] in blast)
  have 4: "convs_ok ?t"
    using inv c by (auto simp: remove_conversation_def Let_def platform_inv_def convs_ok_def
        distinct_delete split: if_splits)
  have 5: "messages_ok ?t"
    using inv c by (auto simp: remove_conversation_def Let_def platform_inv_def messages_ok_def
        thread_ok_def)
  have 6: "events_ok ?t"
    using inv c by (auto simp: remove_conversation_def Let_def platform_inv_def events_ok_def)
  from 1 2 3 4 5 6 show ?thesis by (simp add: platform_inv_def)
qed

end
