(* ===== verification/Transition_System.thy ===== *)
theory Transition_System
  imports Prelude
begin

text \<open>
  Deterministic operations with an enabling condition, the sequences of steps they make, and two
  interfaces: a system with an invariant (\<open>guarded_system\<close>) and one whose steps also respect an
  order on states (\<open>ordered_system\<close>). The stores of the platform are interpretations.
\<close>

inductive steps :: "('op \<Rightarrow> 's \<Rightarrow> 's) \<Rightarrow> ('op \<Rightarrow> 's \<Rightarrow> bool) \<Rightarrow> 's \<Rightarrow> 's \<Rightarrow> bool"
  for exec :: "'op \<Rightarrow> 's \<Rightarrow> 's" and enabled :: "'op \<Rightarrow> 's \<Rightarrow> bool" where
  steps_refl: "steps exec enabled s s"
| steps_step: "steps exec enabled s (exec op t)" if "steps exec enabled s t" and "enabled op t"

lemma steps_one: "enabled op s \<Longrightarrow> steps exec enabled s (exec op s)"
  by (rule steps_step [OF steps_refl])

lemma steps_trans:
  assumes "steps exec enabled t u" and "steps exec enabled s t"
  shows "steps exec enabled s u"
  using assms by (induction rule: steps.induct) (auto intro: steps_step)

locale guarded_system =
  fixes exec :: "'op \<Rightarrow> 's \<Rightarrow> 's" and enabled :: "'op \<Rightarrow> 's \<Rightarrow> bool" and init :: 's
    and inv :: "'s \<Rightarrow> bool"
  assumes inv_init: "inv init"
    and inv_step: "inv s \<Longrightarrow> enabled op s \<Longrightarrow> inv (exec op s)"
begin

lemma steps_inv: "steps exec enabled s t \<Longrightarrow> inv s \<Longrightarrow> inv t"
  by (induction rule: steps.induct) (auto intro: inv_step)

lemma reachable_inv: "steps exec enabled init s \<Longrightarrow> inv s"
  using steps_inv inv_init by blast

end

locale ordered_system = guarded_system +
  fixes le :: "'s \<Rightarrow> 's \<Rightarrow> bool"
  assumes le_refl: "le s s"
    and le_trans: "inv s \<Longrightarrow> inv t \<Longrightarrow> le s t \<Longrightarrow> le t u \<Longrightarrow> le s u"
    and le_step: "inv s \<Longrightarrow> enabled op s \<Longrightarrow> le s (exec op s)"
begin

lemma steps_le: "steps exec enabled s t \<Longrightarrow> inv s \<Longrightarrow> le s t"
proof (induction rule: steps.induct)
  case (steps_refl s)
  show ?case by (rule le_refl)
next
  case (steps_step s t op)
  then have "inv t" using steps_inv by blast
  with steps_step show ?case by (meson le_step le_trans)
qed

end

text \<open>
  Fencing: every item carries an epoch that no step lowers, and a write names the epoch it was made
  under. A write under an epoch that has passed is refused for ever.
\<close>

locale fenced_system = ordered_system +
  fixes epoch :: "'k \<Rightarrow> 'b \<Rightarrow> int option" and accepts :: "'k \<Rightarrow> int \<Rightarrow> 'b \<Rightarrow> bool"
  assumes epoch_mono: "inv s \<Longrightarrow> le s t \<Longrightarrow> epoch k s = Some e \<Longrightarrow> epoch k t = Some e' \<Longrightarrow> e \<le> e'"
    and accepts_current: "accepts k n s \<Longrightarrow> epoch k s = Some n"
begin

lemma stale_refused:
  assumes "inv s" and "steps exec enabled s t" and "epoch k s = Some e" and "n < e"
  shows "\<not> accepts k n t"
proof
  assume "accepts k n t"
  then have "epoch k t = Some n" by (rule accepts_current)
  with assms have "e \<le> n" using epoch_mono steps_le by blast
  with assms(4) show False by simp
qed

end

section \<open>Running a list of operations\<close>

fun all_enabled :: "('op \<Rightarrow> 's \<Rightarrow> 's) \<Rightarrow> ('op \<Rightarrow> 's \<Rightarrow> bool) \<Rightarrow> 'op list \<Rightarrow> 's \<Rightarrow> bool" where
  "all_enabled exec enabled [] s \<longleftrightarrow> True"
| "all_enabled exec enabled (op # ops) s \<longleftrightarrow> enabled op s \<and> all_enabled exec enabled ops (exec op s)"

lemma all_enabled_steps:
  "all_enabled exec enabled ops s \<Longrightarrow> steps exec enabled s (fold exec ops s)"
proof (induction ops arbitrary: s)
  case Nil
  show ?case by (simp add: steps_refl)
next
  case (Cons op ops)
  then have "steps exec enabled (exec op s) (fold exec ops (exec op s))" by simp
  moreover have "steps exec enabled s (exec op s)" using Cons.prems by (auto intro: steps_one)
  ultimately show ?case by (simp add: steps_trans)
qed

end
