(* ===== verification/Platform_Steps.thy ===== *)
theory Platform_Steps
  imports Ownership_Store Run_Preservation Transition_System
begin

text \<open>
  The three in-memory stores as one system: every state-changing method is an operation, a step runs
  one of them, and the identifiers drawn from \<open>uuid4()\<close> so far are a ghost component of the state.
  The only assumption on \<open>uuid4()\<close> is that it never repeats an identifier.

  The system is an interpretation of \<open>guarded_system\<close> (the invariants of the stores) and of
  \<open>ordered_system\<close> (what a run keeps along any history).
\<close>

section \<open>Operations\<close>

datatype platform_op =
    Create_guest str str actor_kind str datetime
  | Rotate_refresh str str str datetime
  | Revoke_session str datetime
  | Register_user str str str str str str datetime "str option" datetime
  | Create_account_session str str str datetime "str option" datetime
  | Change_password str str str str datetime datetime
  | Mark_owner_deleting str datetime
  | Delete_owner str
  | Delete_orphan_guests datetime
  | Create_conversation str actor datetime
  | Rename_conversation str str str datetime
  | Mark_conversation_deleting str str datetime
  | Remove_conversation str str
  | Append_run_event str str "(str, json) dict" datetime
  | Create_run str str str actor str str str datetime
  | Retry_run str str actor str str datetime
  | Claim_next str str datetime timedelta
  | Heartbeat str str str int datetime timedelta
  | Request_cancel str str datetime
  | Wait_approval_run str str int datetime
  | Resume_run str datetime
  | Cancel_waiting_approval str str datetime
  | Set_run_skill str str "str option" "str option" datetime
  | Succeed_run str str str int str datetime "(str, str) dict list"
  | Fail_run str str int str str datetime
  | Cancel_run str str str int str datetime
  | Incompatible_run str str int str datetime

fun exec_op :: "platform_op \<Rightarrow> platform_state \<Rightarrow> platform_state" where
  "exec_op (Create_guest oid sid kind h t) s = snd (create_guest oid sid kind h t s)"
| "exec_op (Rotate_refresh sid h h' t) s = snd (rotate_refresh sid h h' t s)"
| "exec_op (Revoke_session sid now) s = revoke_session sid now s"
| "exec_op (Register_user oid sid un ud pw h t rs ra) s =
     snd (register_user oid sid un ud pw h t rs ra s)"
| "exec_op (Create_account_session sid oid h t rs ra) s =
     snd (create_account_session sid oid h t rs ra s)"
| "exec_op (Change_password oid cur pw h t now) s =
     snd (change_password_record oid cur pw h t now s)"
| "exec_op (Mark_owner_deleting oid now) s = snd (mark_owner_deleting oid now s)"
| "exec_op (Delete_owner oid) s = delete_owner oid s"
| "exec_op (Delete_orphan_guests now) s = snd (delete_orphan_guests now s)"
| "exec_op (Create_conversation cid actor now) s = snd (create_conversation cid actor now s)"
| "exec_op (Rename_conversation own cid title now) s = snd (rename_conversation own cid title now s)"
| "exec_op (Mark_conversation_deleting own cid now) s =
     snd (mark_conversation_deleting own cid now s)"
| "exec_op (Remove_conversation own cid) s = remove_conversation own cid s"
| "exec_op (Append_run_event k ty payload now) s = snd (append_run_event k ty payload now s)"
| "exec_op (Create_run mid rid gid actor cid msg req now) s =
     snd (create_run mid rid gid actor cid msg req now s)"
| "exec_op (Retry_run rid gid actor src req now) s = snd (retry_run rid gid actor src req now s)"
| "exec_op (Claim_next tok w now dur) s = snd (claim_next tok w now dur s)"
| "exec_op (Heartbeat k w tok att now dur) s = snd (heartbeat k w tok att now dur s)"
| "exec_op (Request_cancel own k now) s = snd (request_cancel own k now s)"
| "exec_op (Wait_approval_run k tok att now) s = snd (wait_approval_run k tok att now s)"
| "exec_op (Resume_run k now) s = snd (resume_run k now s)"
| "exec_op (Cancel_waiting_approval own k now) s = snd (cancel_waiting_approval own k now s)"
| "exec_op (Set_run_skill own k i n now) s = snd (set_run_skill own k i n now s)"
| "exec_op (Succeed_run mid k tok att answer now blocks) s =
     snd (succeed_run mid k tok att answer now blocks s)"
| "exec_op (Fail_run k tok att rc msg now) s = snd (fail_run k tok att rc msg now s)"
| "exec_op (Cancel_run k w tok att rc now) s = snd (cancel_run k w tok att rc now s)"
| "exec_op (Incompatible_run k tok att msg now) s = snd (incompatible_run k tok att msg now s)"

text \<open>The identifiers an operation draws.\<close>

fun op_uuids :: "platform_op \<Rightarrow> str list" where
  "op_uuids (Create_guest oid sid _ _ _) = [oid, sid]"
| "op_uuids (Register_user oid sid _ _ _ _ _ _ _) = [oid, sid]"
| "op_uuids (Create_account_session sid _ _ _ _ _) = [sid]"
| "op_uuids (Create_conversation cid _ _) = [cid]"
| "op_uuids (Create_run mid rid gid _ _ _ _ _) = [mid, rid, gid]"
| "op_uuids (Retry_run rid gid _ _ _ _) = [rid, gid]"
| "op_uuids (Claim_next tok _ _ _) = [tok]"
| "op_uuids (Succeed_run mid _ _ _ _ _ _) = [mid]"
| "op_uuids _ = []"

type_synonym platform_system = "platform_state \<times> str set"

definition exec_platform :: "platform_op \<Rightarrow> platform_system \<Rightarrow> platform_system" where
  "exec_platform op = (\<lambda>(s, used). (exec_op op s, used \<union> set (op_uuids op)))"

definition uuid_fresh :: "platform_op \<Rightarrow> platform_system \<Rightarrow> bool" where
  "uuid_fresh op = (\<lambda>(s, used). distinct (op_uuids op) \<and> set (op_uuids op) \<inter> used = {})"

definition init_platform :: platform_system where
  "init_platform = (empty_state, {})"

section \<open>The identifiers in the tables\<close>

definition state_ids :: "platform_state \<Rightarrow> str set" where
  "state_ids s = set (dkeys (owners s)) \<union> set (dkeys (sessions s)) \<union> set (dkeys (conversations s))
     \<union> set (dkeys (runs s)) \<union> dom (grants s) \<union> {k. run_events s k \<noteq> []}
     \<union> (\<Union>cid. m_message_id ` set (messages s cid))"

definition system_inv :: "platform_system \<Rightarrow> bool" where
  "system_inv = (\<lambda>(s, used). platform_inv s \<and> ownership_inv s \<and> state_ids s \<subseteq> used)"

section \<open>Frames\<close>

text \<open>The ownership tables and the conversation tables are disjoint parts of the state.\<close>

definition same_ownership :: "platform_state \<Rightarrow> platform_state \<Rightarrow> bool" where
  "same_ownership s t \<longleftrightarrow> owners t = owners s \<and> users t = users s
     \<and> users_by_name t = users_by_name s \<and> sessions t = sessions s"

definition same_threads :: "platform_state \<Rightarrow> platform_state \<Rightarrow> bool" where
  "same_threads s t \<longleftrightarrow> conversations t = conversations s \<and> messages t = messages s
     \<and> runs t = runs s \<and> run_events t = run_events s \<and> grants t = grants s
     \<and> requests t = requests s"

lemma ownership_inv_frame: "same_ownership s t \<Longrightarrow> ownership_inv s \<Longrightarrow> ownership_inv t"
  by (simp add: same_ownership_def ownership_inv_def)

lemma platform_inv_frame:
  assumes "same_threads s t" and "platform_inv s"
  shows "platform_inv t"
proof -
  have "one_active t = one_active s" "requests_ok t = requests_ok s" "convs_ok t = convs_ok s"
    "runs_ok t = runs_ok s" "messages_ok t = messages_ok s" "events_ok t = events_ok s"
    using assms(1) by (simp_all add: same_threads_def one_active_def requests_ok_def convs_ok_def
        runs_ok_def run_ok_def messages_ok_def events_ok_def)
  with assms(2) show ?thesis by (simp add: platform_inv_def)
qed

fun ownership_op :: "platform_op \<Rightarrow> bool" where
  "ownership_op (Create_guest _ _ _ _ _) = True"
| "ownership_op (Rotate_refresh _ _ _ _) = True"
| "ownership_op (Revoke_session _ _) = True"
| "ownership_op (Register_user _ _ _ _ _ _ _ _ _) = True"
| "ownership_op (Create_account_session _ _ _ _ _ _) = True"
| "ownership_op (Change_password _ _ _ _ _ _) = True"
| "ownership_op (Mark_owner_deleting _ _) = True"
| "ownership_op (Delete_owner _) = True"
| "ownership_op (Delete_orphan_guests _) = True"
| "ownership_op _ = False"

lemma revoke_if_active_threads: "same_threads s (revoke_if_active sid now s)"
  by (simp add: revoke_if_active_def same_threads_def put_session_def split: option.splits)

lemma ownership_op_threads: "ownership_op op \<Longrightarrow> same_threads s (exec_op op s)"
  using revoke_if_active_threads
  by (cases op) (auto simp: same_threads_def create_guest_def rotate_refresh_def revoke_session_def
      register_user_def create_account_session_def change_password_record_def
      mark_owner_deleting_def delete_owner_def delete_orphan_guests_def put_session_def Let_def
      revoke_if_active_def split: option.splits)

lemma one_move_ownership: "one_move k s t \<Longrightarrow> same_ownership s t"
  by (auto simp: one_move_def same_ownership_def put_run_def)

lemma same_ownership_refl [simp]: "same_ownership s s"
  by (simp add: same_ownership_def)

lemma created_state_simps [simp]:
  "owners (created_state mid rid gid a cid msg req now c s) = owners s"
  "sessions (created_state mid rid gid a cid msg req now c s) = sessions s"
  "run_events (created_state mid rid gid a cid msg req now c s) = run_events s"
  "dkeys (conversations (created_state mid rid gid a cid msg req now c s)) =
     dkeys (AList.update cid (c\<lparr>c_updated_at := now\<rparr>) (conversations s))"
  "runs (created_state mid rid gid a cid msg req now c s) =
     AList.update rid (queued_run rid cid (a_owner_id a) mid gid now None) (runs s)"
  "grants (created_state mid rid gid a cid msg req now c s) =
     (grants s)(gid \<mapsto> grant_for rid gid a cid now s)"
  "messages (created_state mid rid gid a cid msg req now c s) =
     (messages s)(cid := messages s cid @ [input_message mid a cid msg req now s])"
  "same_ownership s (created_state mid rid gid a cid msg req now c s)"
  by (simp_all add: created_state_def Let_def put_run_def same_ownership_def grant_for_def)

lemma retried_state_simps [simp]:
  "conversations (retried_state rid gid a src source req now s) = conversations s"
  "run_events (retried_state rid gid a src source req now s) = run_events s"
  "messages (retried_state rid gid a src source req now s) = messages s"
  "runs (retried_state rid gid a src source req now s) =
     AList.update rid (queued_run rid (r_conversation_id source) (a_owner_id a)
       (r_input_message_id source) gid now (Some src)) (runs s)"
  "grants (retried_state rid gid a src source req now s) =
     (grants s)(gid \<mapsto> grant_for rid gid a (r_conversation_id source) now s)"
  "same_ownership s (retried_state rid gid a src source req now s)"
  by (simp_all add: retried_state_def Let_def put_run_def same_ownership_def)

lemma finished_state_simps [simp]:
  "run_events (finished_state mid k run answer blocks now c title s) = run_events s"
  "grants (finished_state mid k run answer blocks now c title s) = grants s"
  "messages (finished_state mid k run answer blocks now c title s) =
     messages (replied_state mid k run answer blocks now s)"
  "runs (finished_state mid k run answer blocks now c title s) =
     AList.update k (succeeded_run (m_message_id (reply_for mid k run answer blocks now s)) now run) (runs s)"
  "set (dkeys (conversations (finished_state mid k run answer blocks now c title s))) =
     insert (r_conversation_id run) (set (dkeys (conversations s)))"
  "same_ownership s (finished_state mid k run answer blocks now c title s)"
  by (simp_all add: finished_state_def Let_def put_run_def same_ownership_def replied_state_def
      split: option.splits)

lemma create_conversation_frame [simp]:
  "same_ownership s (snd (create_conversation cid a now s))"
  "runs (snd (create_conversation cid a now s)) = runs s"
  "grants (snd (create_conversation cid a now s)) = grants s"
  "messages (snd (create_conversation cid a now s)) = messages s"
  "run_events (snd (create_conversation cid a now s)) = run_events s"
  by (simp_all add: create_conversation_def Let_def add_conversation_def same_ownership_def
      split: sum.splits)

lemma rename_conversation_frame [simp]:
  "same_ownership s (snd (rename_conversation own cid title now s))"
  "runs (snd (rename_conversation own cid title now s)) = runs s"
  "grants (snd (rename_conversation own cid title now s)) = grants s"
  "messages (snd (rename_conversation own cid title now s)) = messages s"
  "run_events (snd (rename_conversation own cid title now s)) = run_events s"
  by (simp_all add: rename_conversation_def Let_def same_ownership_def split: option.splits)

lemma mark_conversation_deleting_frame [simp]:
  "same_ownership s (snd (mark_conversation_deleting own cid now s))"
  "grants (snd (mark_conversation_deleting own cid now s)) = grants s"
  "messages (snd (mark_conversation_deleting own cid now s)) = messages s"
  "run_events (snd (mark_conversation_deleting own cid now s)) = run_events s"
  by (simp_all add: mark_conversation_deleting_def same_ownership_def split: option.splits)

lemma append_run_event_frame [simp]:
  "same_ownership s (snd (append_run_event k ty payload now s))"
  "runs (snd (append_run_event k ty payload now s)) = runs s"
  "grants (snd (append_run_event k ty payload now s)) = grants s"
  "messages (snd (append_run_event k ty payload now s)) = messages s"
  "conversations (snd (append_run_event k ty payload now s)) = conversations s"
  by (simp_all add: append_run_event_def Let_def same_ownership_def)

lemma remove_conversation_frame [simp]:
  "same_ownership s (remove_conversation own cid s)"
  "run_events (remove_conversation own cid s) = run_events s"
  by (simp_all add: remove_conversation_def Let_def same_ownership_def split: option.splits)

section \<open>Operations that move one run\<close>

text \<open>The operations that rewrite at most one existing run and nothing else.\<close>

fun move_op :: "platform_op \<Rightarrow> bool" where
  "move_op (Claim_next _ _ _ _) = True"
| "move_op (Heartbeat _ _ _ _ _ _) = True"
| "move_op (Request_cancel _ _ _) = True"
| "move_op (Wait_approval_run _ _ _ _) = True"
| "move_op (Resume_run _ _) = True"
| "move_op (Cancel_waiting_approval _ _ _) = True"
| "move_op (Set_run_skill _ _ _ _ _) = True"
| "move_op (Fail_run _ _ _ _ _ _) = True"
| "move_op (Cancel_run _ _ _ _ _ _) = True"
| "move_op (Incompatible_run _ _ _ _ _) = True"
| "move_op _ = False"

lemmas move_lemmas = heartbeat_move request_cancel_move wait_approval_move resume_move
  cancel_waiting_move set_run_skill_move fail_move cancel_move incompatible_move

lemma move_op_one_move:
  "move_op op \<Longrightarrow> platform_inv s \<Longrightarrow> \<exists>k. one_move k s (exec_op op s)"
  by (cases op) (auto intro: move_lemmas claim_next_move)

lemma exec_op_ownership:
  assumes "platform_inv s" and "\<not> ownership_op op"
  shows "same_ownership s (exec_op op s)"
proof (cases "move_op op")
  case True
  then show ?thesis using move_op_one_move assms(1) one_move_ownership by blast
next
  case False
  then show ?thesis
  proof (cases op)
    case (Create_run mid rid gid a cid msg req now)
    then show ?thesis
      by (cases rule: create_run_cases [of mid rid gid a cid msg req now s]) simp_all
  next
    case (Retry_run rid gid a src req now)
    then show ?thesis
      using retry_run_refused retry_run_fresh retried_state_simps(6)
      by (cases "\<exists>source im. retry_allowed a src req s source im") (auto simp: retry_run_fresh)
  next
    case (Succeed_run mid k tok att answer now blocks)
    then show ?thesis
      by (cases rule: succeed_run_cases [OF assms(1), of mid k tok att answer now blocks]) simp_all
  qed (use assms(2) in simp_all)
qed

section \<open>Identifiers only come from uuid4\<close>

lemma state_ids_ownership:
  "same_threads s t \<Longrightarrow> state_ids t \<subseteq> state_ids s \<union> set (dkeys (owners t)) \<union> set (dkeys (sessions t))"
  unfolding same_threads_def state_ids_def by auto

lemma ownership_op_keys:
  assumes "ownership_op op"
  shows "set (dkeys (owners (exec_op op s))) \<union> set (dkeys (sessions (exec_op op s)))
     \<subseteq> state_ids s \<union> set (op_uuids op)"
proof -
  have upd: "x \<in> fst ` set d" if "map_of d x = Some v" for x v and d :: "(str, 'v) dict"
    using that by (force dest: map_of_SomeD)
  have rev: "fst ` set (sessions (revoke_if_active sid now t)) = fst ` set (sessions t)"
    "owners (revoke_if_active sid now t) = owners t" for sid now t
    by (auto simp: revoke_if_active_def put_session_def insert_absorb upd split: option.splits)
  have drw: "fst ` set (drewrite P f d) = fst ` set d" for P f and d :: "(str, 'v) dict"
    by (metis dkeys_drewrite set_map)
  show ?thesis
  proof (cases op)
    case (Change_password oid cur pw h t now)
    show ?thesis
    proof (cases "users s oid")
      case None
      with Change_password show ?thesis by (auto simp: change_password_record_def state_ids_def)
    next
      case (Some u)
      then have "users s oid \<noteq> None" by simp
      from change_password_sessions(2,3) [OF this] Change_password show ?thesis
        by (auto simp: state_ids_def simp del: set_map)
    qed
  qed (use assms in \<open>auto simp: state_ids_def create_guest_def rotate_refresh_def
      revoke_session_def register_user_def create_account_session_def mark_owner_deleting_def
      delete_owner_def delete_orphan_guests_def put_session_def Let_def rev drw insert_absorb upd
      ddrop_def delete_keys split: option.splits if_splits\<close>)
qed

lemma in_dkeys: "map_of d k = Some v \<Longrightarrow> k \<in> fst ` set d"
  by (force dest: map_of_SomeD)

lemma one_move_ids:
  assumes "one_move k s t"
  shows "state_ids t = state_ids s"
proof (cases "t = s")
  case False
  with assms obtain r r' where "map_of (runs s) k = Some r" and t: "t = put_run k r' s"
    by (auto simp: one_move_def)
  then have "fst ` set (runs t) = fst ` set (runs s)"
    by (simp add: put_run_def insert_absorb in_dkeys)
  then show ?thesis unfolding state_ids_def by (simp add: t put_run_def)
qed simp

lemma state_ids_memI:
  "(x, c) \<in> set (conversations s) \<Longrightarrow> x \<in> state_ids s"
  "(x, r) \<in> set (runs s) \<Longrightarrow> x \<in> state_ids s"
  "grants s x = Some g \<Longrightarrow> x \<in> state_ids s"
  "run_events s x \<noteq> [] \<Longrightarrow> x \<in> state_ids s"
  "m \<in> set (messages s cid) \<Longrightarrow> m_message_id m \<in> state_ids s"
  "map_of (conversations s) x = Some c \<Longrightarrow> x \<in> state_ids s"
  "map_of (runs s) x = Some r \<Longrightarrow> x \<in> state_ids s"
proof -
  have "fst ` set (conversations s) \<subseteq> state_ids s" "fst ` set (runs s) \<subseteq> state_ids s"
    by (auto simp: state_ids_def)
  then show "(x, c) \<in> set (conversations s) \<Longrightarrow> x \<in> state_ids s"
    "(x, r) \<in> set (runs s) \<Longrightarrow> x \<in> state_ids s"
    "map_of (conversations s) x = Some c \<Longrightarrow> x \<in> state_ids s"
    "map_of (runs s) x = Some r \<Longrightarrow> x \<in> state_ids s" by (force dest: map_of_SomeD)+
qed (auto simp: state_ids_def)

lemma state_ids_subsetI:
  assumes "same_ownership s t"
    and "set (dkeys (conversations t)) \<subseteq> state_ids s \<union> N"
    and "set (dkeys (runs t)) \<subseteq> state_ids s \<union> N"
    and "dom (grants t) \<subseteq> state_ids s \<union> N"
    and "\<And>k. run_events t k \<noteq> [] \<Longrightarrow> k \<in> state_ids s \<union> N"
    and "\<And>cid m. m \<in> set (messages t cid) \<Longrightarrow> m_message_id m \<in> state_ids s \<union> N"
  shows "state_ids t \<subseteq> state_ids s \<union> N"
proof -
  have "set (dkeys (owners t)) \<union> set (dkeys (sessions t)) \<subseteq> state_ids s"
    using assms(1) unfolding same_ownership_def state_ids_def by auto
  with assms(2-) show ?thesis unfolding state_ids_def [of t] by blast
qed

lemma exec_op_ids:
  assumes inv: "platform_inv s"
  shows "state_ids (exec_op op s) \<subseteq> state_ids s \<union> set (op_uuids op)"
proof -
  consider "ownership_op op" | "move_op op" | "\<not> ownership_op op" "\<not> move_op op" by blast
  then show ?thesis
  proof cases
    case 1
    then show ?thesis
      using state_ids_ownership [OF ownership_op_threads] ownership_op_keys by blast
  next
    case 2
    then show ?thesis using move_op_one_move [OF _ inv] one_move_ids by blast
  next
    case 3
    note own = exec_op_ownership [OF inv 3(1)]
    note mem = state_ids_memI [where s = s]
    have keys: "set (dkeys (conversations s)) \<subseteq> state_ids s" "set (dkeys (runs s)) \<subseteq> state_ids s"
      using mem by auto
    from 3 show ?thesis
    proof (cases op)
      case (Create_conversation cid a now)
      show ?thesis
        by (rule state_ids_subsetI [OF own])
          (use mem Create_conversation in \<open>auto simp: create_conversation_def Let_def add_conversation_def
            new_conversation_def split: sum.splits if_splits\<close>)
    next
      case (Rename_conversation o' cid title now)
      show ?thesis
        by (rule state_ids_subsetI [OF own])
          (use mem Rename_conversation in \<open>auto simp: rename_conversation_def Let_def get_conversation_Some
            in_dkeys split: option.splits if_splits\<close>)
    next
      case (Mark_conversation_deleting o' cid now)
      have "fst ` set (drewrite P f (runs s)) = fst ` set (runs s)" for P f
        by (metis dkeys_drewrite set_map)
      with Mark_conversation_deleting mem show ?thesis
        by (intro state_ids_subsetI [OF own]) (auto simp: mark_conversation_deleting_def
            get_conversation_Some in_dkeys split: option.splits)
    next
      case (Remove_conversation o' cid)
      with mem show ?thesis
        by (intro state_ids_subsetI [OF own])
          (auto simp: remove_conversation_def Let_def AList.delete_eq split: option.splits if_splits)
    next
      case (Append_run_event k ty payload now)
      show ?thesis
        by (rule state_ids_subsetI [OF own]) (use mem Append_run_event in
          \<open>auto simp: append_run_event_def Let_def in_dkeys split: option.splits if_splits\<close>)
    next
      case (Create_run mid rid gid a cid msg req now)
      show ?thesis
      proof (cases rule: create_run_cases [of mid rid gid a cid msg req now s])
        case same
        with Create_run show ?thesis by auto
      next
        case (fresh c)
        have "set (dkeys (conversations (exec_op op s))) = set (dkeys (conversations s))"
          using fresh Create_run created_state_simps(4) [of mid rid gid a cid msg req now c s]
          by (metis dkeys_update exec_op.simps(15) in_dkeys insert_absorb set_map)
        with fresh Create_run mem show ?thesis
          by (intro state_ids_subsetI [OF own]) (auto simp: input_message_def split: if_splits)
      qed
    next
      case (Retry_run rid gid a src req now)
      show ?thesis
      proof (cases "\<exists>source im. retry_allowed a src req s source im")
        case True
        then obtain source im where "retry_allowed a src req s source im" by blast
        with Retry_run mem show ?thesis
          by (intro state_ids_subsetI [OF own]) (auto simp: retry_run_fresh)
      next
        case False
        with Retry_run show ?thesis using retry_run_refused by auto
      qed
    next
      case (Succeed_run mid k tok att answer now blocks)
      show ?thesis
      proof (cases rule: succeed_run_cases [OF inv, of mid k tok att answer now blocks, case_names same finished])
        case same
        with Succeed_run show ?thesis by auto
      next
        case (finished run c title)
        then have "set (dkeys (conversations (exec_op op s))) = set (dkeys (conversations s))"
          "set (dkeys (runs (exec_op op s))) = set (dkeys (runs s))"
          using Succeed_run by (simp_all add: insert_absorb in_dkeys del: set_map, simp_all add: insert_absorb in_dkeys)
        with finished Succeed_run mem show ?thesis
          by (intro state_ids_subsetI [OF own])
            (auto simp: replied_state_def new_reply_def split: option.splits if_splits)
      qed
    qed simp_all
  qed
qed

end
