(* ===== verification/Platform_History.thy ===== *)
theory Platform_History
  imports Platform_Steps
begin

text \<open>
  The stores along any history of operations. \<open>system_inv\<close> holds in every reachable state, and every
  history respects \<open>history_le\<close>: a run keeps its identity, its attempt number never decreases, a
  terminal run keeps its verdict and a claim token enters a run only with a new attempt.
\<close>

section \<open>The invariant of the system\<close>

lemma ids_fresh:
  assumes "x \<notin> state_ids s"
  shows "map_of (owners s) x = None" and "map_of (sessions s) x = None"
    and "map_of (conversations s) x = None" and "map_of (runs s) x = None" and "grants s x = None"
    and "run_events s x = []" and "m \<in> set (messages s cid) \<Longrightarrow> m_message_id m \<noteq> x"
proof -
  have "x \<notin> set (dkeys (owners s))" "x \<notin> set (dkeys (sessions s))"
    using assms by (auto simp: state_ids_def)
  then show "map_of (owners s) x = None" "map_of (sessions s) x = None"
    by (simp_all add: map_of_eq_None_iff)
  show "map_of (conversations s) x = None" "map_of (runs s) x = None" "grants s x = None"
    "run_events s x = []"
    using assms state_ids_memI [where s = s] by (meson option.exhaust)+
  show "m \<in> set (messages s cid) \<Longrightarrow> m_message_id m \<noteq> x"
    using assms state_ids_memI(5) by blast
qed

lemma exec_op_ownership_inv:
  assumes own: "ownership_inv s" and plat: "platform_inv s"
    and fresh: "distinct (op_uuids op)" "set (op_uuids op) \<inter> state_ids s = {}"
  shows "ownership_inv (exec_op op s)"
proof (cases "ownership_op op")
  case False
  then show ?thesis using exec_op_ownership [OF plat] ownership_inv_frame own by blast
next
  case True
  have new: "map_of (owners s) x = None" "map_of (sessions s) x = None" if "x \<in> set (op_uuids op)" for x
    using that fresh(2) ids_fresh by blast+
  from True show ?thesis
    using new own by (cases op)
      (auto simp: fresh_owner_ids_def create_guest_inv rotate_refresh_inv revoke_session_inv
        register_user_inv create_account_session_inv change_password_inv mark_owner_deleting_inv
        delete_owner_inv delete_orphan_guests_inv)
qed

lemma exec_op_platform_inv:
  assumes inv: "platform_inv s"
    and fresh: "distinct (op_uuids op)" "set (op_uuids op) \<inter> state_ids s = {}"
  shows "platform_inv (exec_op op s)"
proof -
  note new = ids_fresh [where s = s]
  consider "ownership_op op" | "move_op op" | "\<not> ownership_op op" "\<not> move_op op" by blast
  then show ?thesis
  proof cases
    case 1
    then show ?thesis using platform_inv_frame [OF ownership_op_threads inv] by blast
  next
    case 2
    then show ?thesis using move_op_one_move [OF _ inv] one_move_inv inv by blast
  next
    case 3
    then show ?thesis
    proof (cases op)
      case (Create_conversation cid a now)
      then show ?thesis using create_conversation_inv [OF inv] new(3) fresh by simp
    next
      case (Create_run mid rid gid a cid msg req now)
      then have "fresh_run_ids rid gid s" "fresh_message_id mid s"
        using fresh new(4-6) new(7) by (simp_all add: fresh_run_ids_def fresh_message_id_def) blast
      with Create_run show ?thesis using create_run_inv [OF inv] by simp
    next
      case (Retry_run rid gid a src req now)
      then have "fresh_run_ids rid gid s" using fresh new(4-6) by (simp add: fresh_run_ids_def)
      with Retry_run show ?thesis using retry_run_inv [OF inv] by simp
    next
      case (Succeed_run mid k tok att answer now blocks)
      then have "fresh_message_id mid s" using fresh new(7) by (simp add: fresh_message_id_def) blast
      with Succeed_run show ?thesis using succeed_run_inv [OF inv] by simp
    qed (simp_all add: inv rename_conversation_inv mark_conversation_deleting_inv
        remove_conversation_inv append_run_event_inv)
  qed
qed

lemma system_inv_step:
  assumes "system_inv su" and "uuid_fresh op su"
  shows "system_inv (exec_platform op su)"
proof -
  obtain s used where su: "su = (s, used)" by force
  have fresh: "distinct (op_uuids op)" "set (op_uuids op) \<inter> state_ids s = {}"
    using assms by (auto simp: su system_inv_def uuid_fresh_def)
  with assms show ?thesis
    using exec_op_platform_inv exec_op_ownership_inv exec_op_ids
    by (fastforce simp: su system_inv_def exec_platform_def)
qed

lemma system_inv_init: "system_inv init_platform"
  by (simp add: system_inv_def init_platform_def empty_state_def platform_inv_def ownership_inv_def
      state_ids_def runs_ok_def convs_ok_def requests_ok_def one_active_def messages_ok_def
      thread_ok_def counted_def events_ok_def)

interpretation platform: guarded_system exec_platform uuid_fresh init_platform system_inv
  by unfold_locales (auto intro: system_inv_init system_inv_step)

section \<open>What a run keeps\<close>

definition run_kept :: "agent_run \<Rightarrow> agent_run \<Rightarrow> bool" where
  "run_kept r r' \<longleftrightarrow> same_identity r r' \<and> r_execution_attempt r \<le> r_execution_attempt r'
     \<and> (terminal r \<longrightarrow> same_verdict r r')
     \<and> (\<forall>tok. r_claim_token r' = Some tok \<longrightarrow>
          r_claim_token r = Some tok \<or> r_execution_attempt r < r_execution_attempt r')"

lemma run_kept_refl [simp]: "run_kept r r"
  by (simp add: run_kept_def same_identity_def same_verdict_def)

lemma run_kept_trans: "run_kept r r' \<Longrightarrow> run_kept r' r'' \<Longrightarrow> run_kept r r''"
  by (fastforce simp: run_kept_def same_identity_def same_verdict_def terminal_def)

lemma run_move_kept: "run_move r r' \<Longrightarrow> run_kept r r'"
  using run_move_identity run_move_attempt run_move_verdict run_move_token
  by (auto simp: run_kept_def)

definition history_le :: "platform_system \<Rightarrow> platform_system \<Rightarrow> bool" where
  "history_le = (\<lambda>(s, used) (t, used'). used \<subseteq> used' \<and>
     (\<forall>k r'. k \<in> used \<longrightarrow> map_of (runs t) k = Some r' \<longrightarrow>
        (\<exists>r. map_of (runs s) k = Some r \<and> run_kept r r')))"

lemma one_move_kept:
  assumes "one_move k s t" and "map_of (runs t) j = Some r'"
  shows "\<exists>r. map_of (runs s) j = Some r \<and> run_kept r r'"
  using assms by (auto simp: one_move_def put_run_def run_move_kept split: if_splits)

lemma exec_op_runs:
  assumes inv: "platform_inv s" and r': "map_of (runs (exec_op op s)) k = Some r'"
    and old: "k \<notin> set (op_uuids op)"
  shows "\<exists>r. map_of (runs s) k = Some r \<and> run_kept r r'"
proof -
  consider "ownership_op op" | "move_op op" | "\<not> ownership_op op" "\<not> move_op op" by blast
  then show ?thesis
  proof cases
    case 1
    with r' show ?thesis using ownership_op_threads [of op s] by (auto simp: same_threads_def)
  next
    case 2
    with r' show ?thesis using move_op_one_move [OF _ inv] one_move_kept by blast
  next
    case 3
    then show ?thesis
    proof (cases op)
      case (Mark_conversation_deleting o' cid now)
      with r' show ?thesis
        by (auto simp: mark_conversation_deleting_def map_of_drewrite live_run_of_def
            intro!: run_move_kept move_ask split: option.splits if_splits)
    next
      case (Remove_conversation o' cid)
      show ?thesis
      proof (cases "\<exists>c. map_of (conversations s) cid = Some c \<and> c_owner_id c = o'")
        case True
        with Remove_conversation r' show ?thesis
          using remove_conversation_runs [OF inv] by (auto split: option.splits if_splits)
      next
        case False
        with Remove_conversation r' show ?thesis
          by (auto simp: remove_conversation_def split: option.splits)
      qed
    next
      case (Create_run mid rid gid a cid msg req now)
      with r' old show ?thesis
        by (cases rule: create_run_cases [of mid rid gid a cid msg req now s]) auto
    next
      case (Retry_run rid gid a src req now)
      with r' old show ?thesis
        using retry_run_refused
        by (cases "\<exists>source im. retry_allowed a src req s source im") (auto simp: retry_run_fresh)
    next
      case (Succeed_run mid k' tok att answer now blocks)
      show ?thesis
      proof (cases rule: succeed_run_cases [OF inv, of mid k' tok att answer now blocks, case_names same finished])
        case same
        with Succeed_run r' show ?thesis by auto
      next
        case (finished run c title)
        with Succeed_run r' show ?thesis
          by (auto intro!: run_move_kept move_success split: if_splits)
      qed
    qed (use r' in simp_all)
  qed
qed

lemma history_le_step:
  assumes "system_inv su" and "uuid_fresh op su"
  shows "history_le su (exec_platform op su)"
proof -
  obtain s used where su: "su = (s, used)" by force
  have "platform_inv s" "set (op_uuids op) \<inter> used = {}"
    using assms by (auto simp: su system_inv_def uuid_fresh_def)
  then show ?thesis
    using exec_op_runs [of s op] by (auto simp: su history_le_def exec_platform_def)
qed

lemma history_le_trans: "history_le s t \<Longrightarrow> history_le t u \<Longrightarrow> history_le s u"
  unfolding history_le_def by (fastforce dest: run_kept_trans split: prod.splits)

interpretation platform_order: ordered_system exec_platform uuid_fresh init_platform system_inv history_le
proof unfold_locales
  show "history_le s s" for s by (auto simp: history_le_def)
qed (auto intro: history_le_trans history_le_step)

section \<open>Fencing\<close>

text \<open>The epoch of a run is its attempt number; a worker's write is accepted when the claim it names
  is the current one.\<close>

definition run_epoch :: "str \<Rightarrow> platform_system \<Rightarrow> int option" where
  "run_epoch k = (\<lambda>(s, used). map_option r_execution_attempt (map_of (runs s) k))"

definition claim_accepted :: "str \<Rightarrow> int \<Rightarrow> platform_system \<Rightarrow> bool" where
  "claim_accepted k att = (\<lambda>(s, used). \<exists>tok w r. require_current_claim k tok att w s = Inr r)"

interpretation fencing: fenced_system exec_platform uuid_fresh init_platform system_inv history_le
  run_epoch claim_accepted
proof unfold_locales
  fix s t :: platform_system and k e e'
  assume inv: "system_inv s" and le: "history_le s t" and e: "run_epoch k s = Some e"
    and e': "run_epoch k t = Some e'"
  obtain s0 u t0 v where st: "s = (s0, u)" "t = (t0, v)" by force
  from e obtain r where r: "map_of (runs s0) k = Some r" "r_execution_attempt r = e"
    by (auto simp: run_epoch_def st)
  from e' obtain r' where r': "map_of (runs t0) k = Some r'" "r_execution_attempt r' = e'"
    by (auto simp: run_epoch_def st)
  have "k \<in> u" using inv state_ids_memI(7) [OF r(1)] by (auto simp: system_inv_def st)
  with le r r' show "e \<le> e'" by (auto simp: history_le_def run_kept_def st)
next
  show "run_epoch k s = Some n" if "claim_accepted k n s" for k n and s :: platform_system
    using that by (auto simp: run_epoch_def claim_accepted_def split: prod.splits)
qed

lemma history_run:
  assumes "steps exec_platform uuid_fresh init_platform (s, u)"
    and "steps exec_platform uuid_fresh (s, u) (t, v)"
    and "map_of (runs s) k = Some r" and "map_of (runs t) k = Some r'"
  shows "run_kept r r'"
proof -
  have inv: "system_inv (s, u)" using assms(1) by (rule platform.reachable_inv)
  have "k \<in> u" using inv state_ids_memI(7) [OF assms(3)] by (auto simp: system_inv_def)
  moreover have "history_le (s, u) (t, v)" using assms(2) inv by (rule platform_order.steps_le)
  ultimately show ?thesis using assms(3,4) by (auto simp: history_le_def)
qed

end
