(* ===== verification/Run_Properties.thy ===== *)
theory Run_Properties
  imports Platform_History
begin

text \<open>
  The contract of the run store: the invariant and the fencing of workers along every history, the
  order and the limits of claiming, replays of requests, and that an operation which raises changes
  nothing. A small concrete history (a guest, a conversation, a run that is claimed, expires and is
  claimed again) is evaluated step by step for the witnesses.
\<close>

section \<open>A concrete history\<close>

definition demo_actor :: actor where
  "demo_actor = \<lparr>a_owner_id = [1], a_kind = Guest, a_session_id = [2], a_username = None,
     a_mode = Durable\<rparr>"

definition demo_guest :: platform_state where
  "demo_guest = empty_state\<lparr>owners := [([1], new_owner [1] Guest)],
     sessions := [([2], new_session [2] [1] Guest [100] (days 30))]\<rparr>"

definition demo_open :: platform_state where
  "demo_open = demo_guest\<lparr>conversations := [([3], new_conversation [3] demo_actor 0)],
     guest_creates := (\<lambda>_. [])([1] := [0])\<rparr>"

definition demo_queued_run :: agent_run where
  "demo_queued_run = queued_run [5] [3] [1] [4] [6] 1 None"

definition demo_claimed :: agent_run where
  "demo_claimed = claimed_run [7] [70] 2 (seconds 60) demo_queued_run"

definition demo_reclaimed :: agent_run where
  "demo_reclaimed = claimed_run [8] [71] (seconds 90) (seconds 60) demo_claimed"

definition demo_input :: conversation_message where
  "demo_input = \<lparr>m_message_id = [4], m_conversation_id = [3], m_owner_id = [1], m_role = Role_user,
     m_content = lit ''hello'', m_sequence = 1, m_created_at = 1, m_client_request_id = Some [50],
     m_source_run_id = None, m_reply_to_message_id = None, m_content_blocks = []\<rparr>"

text \<open>The state with one run of the conversation.\<close>

definition demo_with :: "agent_run \<Rightarrow> platform_state" where
  "demo_with r = demo_guest\<lparr>conversations := [([3], (new_conversation [3] demo_actor 0)\<lparr>c_updated_at := 1\<rparr>)],
     messages := (\<lambda>_. [])([3] := [demo_input]), runs := [([5], r)],
     grants := [[6] \<mapsto> grant_for [5] [6] demo_actor [3] 1 demo_guest],
     requests := [([3], [50]) \<mapsto> \<lparr>q_operation = Op_create, q_payload = lit ''hello'',
        q_run_id = [5], q_input_message_id = [4]\<rparr>], 
     guest_creates := (\<lambda>_. [])([1] := [0])\<rparr>"

lemmas demo_defs = demo_guest_def demo_open_def demo_queued_run_def demo_claimed_def demo_reclaimed_def
  demo_input_def demo_with_def demo_actor_def

lemma demo_create_guest:
  "exec_op (Create_guest [1] [2] Guest [100] (days 30)) empty_state = demo_guest"
  by (simp add: demo_guest_def create_guest_def Let_def empty_state_def)

lemma demo_create_conversation: "exec_op (Create_conversation [3] demo_actor 0) demo_guest = demo_open"
  by (simp add: demo_defs create_conversation_def Let_def empty_state_def new_owner_def
      require_active_owner_if_known_def add_conversation_def new_conversation_def)

lemma demo_create_run:
  "create_run [4] [5] [6] demo_actor [3] (lit ''hello'') [50] 1 demo_open =
     (Inr \<lparr>rc_run = demo_queued_run, rc_input_message = demo_input\<rparr>, demo_with demo_queued_run)"
  by (simp add: demo_defs create_run_def Let_def empty_state_def new_owner_def new_run_def
      require_active_owner_if_known_def require_conversation_def grant_for_def queued_run_def
      new_conversation_def require_no_active_run_def put_run_def next_sequence_def)

lemmas claim_defs = claim_next_def candidates_def claimable_def owner_running_def holds_lease_def
  claimed_run_def queued_run_def put_run_def Let_def

lemma demo_claim:
  "claim_next [7] [70] 2 (seconds 60) (demo_with demo_queued_run) =
     (Some demo_claimed, demo_with demo_claimed)"
  by (simp add: demo_defs empty_state_def claim_defs)

lemma demo_reclaim:
  "claim_next [8] [71] (seconds 90) (seconds 60) (demo_with demo_claimed) =
     (Some demo_reclaimed, demo_with demo_reclaimed)"
  by (simp add: demo_defs empty_state_def claim_defs seconds_def)

definition demo_used :: "str set" where
  "demo_used = {[1], [2], [3], [4], [5], [6], [7], [8]}"

lemma demo_steps:
  "steps exec_platform uuid_fresh init_platform (demo_with demo_reclaimed, demo_used)"
  "steps exec_platform uuid_fresh init_platform (demo_open, {[1], [2], [3]})"
proof -
  let ?ops = "[Create_guest [1] [2] Guest [100] (days 30), Create_conversation [3] demo_actor 0]"
  have "all_enabled exec_platform uuid_fresh ?ops init_platform"
    by (simp add: uuid_fresh_def init_platform_def exec_platform_def)
  moreover have "fold exec_platform ?ops init_platform = (demo_open, {[1], [2], [3]})"
    using demo_create_guest demo_create_conversation
    by (simp add: init_platform_def exec_platform_def insert_commute del: exec_op.simps)
  ultimately show 1: "steps exec_platform uuid_fresh init_platform (demo_open, {[1], [2], [3]})"
    using all_enabled_steps by metis
  let ?more = "[Create_run [4] [5] [6] demo_actor [3] (lit ''hello'') [50] 1,
     Claim_next [7] [70] 2 (seconds 60), Claim_next [8] [71] (seconds 90) (seconds 60)]"
  have "all_enabled exec_platform uuid_fresh ?more (demo_open, {[1], [2], [3]})"
    by (simp add: uuid_fresh_def exec_platform_def)
  moreover have "fold exec_platform ?more (demo_open, {[1], [2], [3]})
      = (demo_with demo_reclaimed, demo_used)"
    by (simp add: exec_platform_def demo_create_run demo_claim demo_reclaim demo_used_def insert_commute)
  ultimately have "steps exec_platform uuid_fresh (demo_open, {[1], [2], [3]})
      (demo_with demo_reclaimed, demo_used)"
    using all_enabled_steps by metis
  with 1 show "steps exec_platform uuid_fresh init_platform (demo_with demo_reclaimed, demo_used)"
    by (rule steps_trans [rotated])
qed

lemma demo_inv:
  "platform_inv (demo_with demo_reclaimed)" "platform_inv demo_open" "ownership_inv demo_open"
  using platform.reachable_inv [OF demo_steps(1)] platform.reachable_inv [OF demo_steps(2)]
  by (simp_all add: system_inv_def)

lemma demo_run: "map_of (runs (demo_with r)) [5] = Some r"
  by (simp add: demo_with_def)

lemma demo_put: "put_run [5] r' (demo_with r) = demo_with r'"
  by (simp add: demo_with_def put_run_def demo_guest_def empty_state_def)

section \<open>Every history\<close>

text \<open>C1: In every state the stores can reach from the empty one, by any sequence of their operations
  with fresh identifiers, the tables agree: every run belongs to a conversation of its owner, answers
  one of its user messages and holds its own grant, its claim fields agree with its status, a
  conversation has at most one active run, messages and events are numbered 1, 2, ... without gaps,
  no message is answered twice, request records lead to runs, and the owner, user, name and session
  tables refer to each other.\<close>

theorem reachable_invariant:
  assumes "steps exec_platform uuid_fresh init_platform (s, used)"
  shows "platform_inv s \<and> ownership_inv s"
  using platform.reachable_inv [OF assms] by (simp add: system_inv_def)

theorem reachable_invariant_witness:
  "platform_inv (demo_with demo_reclaimed) \<and> ownership_inv (demo_with demo_reclaimed)"
  by (rule reachable_invariant [OF demo_steps(1)])

text \<open>C2: A terminal run keeps its status, its completion time, its reply, its reason and message,
  its cancel mark and its attempt number in every later state that still has it, and stays the run
  of the same conversation, owner and input message.\<close>

theorem terminal_verdict_permanent:
  assumes "steps exec_platform uuid_fresh init_platform (s, used)"
    and "map_of (runs s) k = Some r" and "terminal r"
    and "steps exec_platform uuid_fresh (s, used) (t, used')" and "map_of (runs t) k = Some r'"
  shows "same_verdict r r' \<and> same_identity r r'"
  using history_run [OF assms(1,4,2,5)] assms(3) by (simp add: run_kept_def)

text \<open>The answered run, and what the history does to it afterwards.\<close>

definition demo_finished :: agent_run where
  "demo_finished = finish Failed (Some [60]) (Some [61]) (seconds 95) demo_reclaimed"

lemma demo_fail:
  "fail_run [5] [8] 2 [60] [61] (seconds 95) (demo_with demo_reclaimed) =
     (Inr demo_finished, demo_with demo_finished)"
  by (simp add: fail_run_def require_current_claim_def demo_run Let_def demo_finished_def
      demo_reclaimed_def demo_claimed_def demo_queued_run_def claimed_run_def queued_run_def demo_put)

lemma demo_fail_steps:
  "steps exec_platform uuid_fresh (demo_with demo_reclaimed, demo_used) (demo_with demo_finished, demo_used)"
  "steps exec_platform uuid_fresh init_platform (demo_with demo_finished, demo_used)"
proof -
  have "uuid_fresh (Fail_run [5] [8] 2 [60] [61] (seconds 95)) (demo_with demo_reclaimed, demo_used)"
    by (simp add: uuid_fresh_def)
  from steps_one [of uuid_fresh, OF this, of exec_platform]
  show "steps exec_platform uuid_fresh (demo_with demo_reclaimed, demo_used) (demo_with demo_finished, demo_used)"
    by (simp add: exec_platform_def demo_fail)
  then show "steps exec_platform uuid_fresh init_platform (demo_with demo_finished, demo_used)"
    using demo_steps(1) by (rule steps_trans)
qed

theorem terminal_verdict_permanent_witness:
  "terminal demo_finished \<and> same_verdict demo_finished
     (demo_finished\<lparr>r_selected_skill_id := None, r_selected_skill_name := None, r_updated_at := 99\<rparr>)"
proof -
  have fin: "terminal demo_finished" by (simp add: demo_finished_def finish_def unclaim_def terminal_def)
  let ?r = "demo_finished\<lparr>r_selected_skill_id := None, r_selected_skill_name := None, r_updated_at := 99\<rparr>"
  have own: "r_owner_id demo_finished = [1]"
    by (simp add: demo_finished_def finish_def unclaim_def demo_reclaimed_def demo_claimed_def
        demo_queued_run_def claimed_run_def queued_run_def)
  have "uuid_fresh (Set_run_skill [1] [5] None None 99) (demo_with demo_finished, demo_used)"
    by (simp add: uuid_fresh_def)
  from steps_one [of uuid_fresh, OF this, of exec_platform]
  have "steps exec_platform uuid_fresh (demo_with demo_finished, demo_used) (demo_with ?r, demo_used)"
    by (simp add: exec_platform_def set_run_skill_def demo_run own Let_def demo_put)
  from terminal_verdict_permanent [OF demo_fail_steps(2) demo_run fin this demo_run] fin
  show ?thesis by simp
qed

section \<open>Fencing\<close>

text \<open>C3: Once a run has been claimed under a later attempt, a worker that still holds an earlier
  one can no longer change anything, in any later state and with any token: its heartbeat, its wait
  for approval and its incompatibility verdict are refused with an error, and its success, failure
  and cancellation leave the state as it is.\<close>

theorem stale_worker_fenced:
  assumes "steps exec_platform uuid_fresh init_platform (s, used)"
    and "map_of (runs s) k = Some r" and "att < r_execution_attempt r"
    and "steps exec_platform uuid_fresh (s, used) (t, used')"
  shows "(\<exists>e. heartbeat k w tok att now dur t = (Inl e, t))
    \<and> (\<exists>e. wait_approval_run k tok att now t = (Inl e, t))
    \<and> (\<exists>e. incompatible_run k tok att msg now t = (Inl e, t))
    \<and> snd (succeed_run mid k tok att answer now blocks t) = t
    \<and> snd (fail_run k tok att code msg now t) = t
    \<and> snd (cancel_run k w tok att code now t) = t"
proof -
  have "\<not> claim_accepted k att (t, used')"
    using platform.reachable_inv [OF assms(1)] assms(4) _ assms(3)
    by (rule fencing.stale_refused) (simp add: run_epoch_def assms(2))
  then have refused: "\<exists>e. require_current_claim k tok att w' t = Inl e" for w'
    by (cases "require_current_claim k tok att w' t") (auto simp: claim_accepted_def simp del: require_current_claim_Inr)
  from refused [of "Some w"] refused [of None] show ?thesis
    by (auto simp: heartbeat_def wait_approval_run_def incompatible_run_def succeed_run_def
        fail_run_def cancel_run_def split: option.split)
qed

theorem stale_worker_fenced_witness:
  "\<exists>e. heartbeat [5] [70] [7] 1 (seconds 96) (seconds 60) (demo_with demo_finished)
     = (Inl e, demo_with demo_finished)"
proof -
  have "(1::int) < r_execution_attempt demo_reclaimed"
    by (simp add: demo_reclaimed_def demo_claimed_def demo_queued_run_def claimed_run_def queued_run_def)
  from stale_worker_fenced [OF demo_steps(1) demo_run this demo_fail_steps(1)] show ?thesis by blast
qed

section \<open>Claiming\<close>

lemma sorted_find:
  assumes "sorted (map f xs)" and "List.find P xs = Some x" and "y \<in> set xs" and "P y"
  shows "f x \<le> f y"
  using assms by (induction xs) (auto split: if_splits)

text \<open>C4: A claim takes, among the runs that are queued or whose lease has run out, and whose owner
  holds fewer than two live leases, the one with the least creation time and identifier, and changes
  only it; when no claim is made there is no such run and the state is unchanged.\<close>

theorem claim_next_oldest:
  assumes inv: "platform_inv s"
  shows "case claim_next tok w now dur s of
      (None, t) \<Rightarrow> t = s \<and> (\<forall>k r. map_of (runs s) k = Some r \<longrightarrow> claimable now r \<longrightarrow>
         owner_running now (r_owner_id r) s \<ge> 2)
    | (Some claimed, t) \<Rightarrow> (\<exists>r. map_of (runs s) (r_run_id r) = Some r \<and> claimable now r
         \<and> owner_running now (r_owner_id r) s < 2 \<and> claimed = claimed_run tok w now dur r
         \<and> t = put_run (r_run_id r) claimed s
         \<and> (\<forall>k q. map_of (runs s) k = Some q \<longrightarrow> claimable now q \<longrightarrow>
              owner_running now (r_owner_id q) s < 2 \<longrightarrow> run_key r \<le> run_key q))"
proof -
  let ?P = "\<lambda>run. \<not> owner_running now (r_owner_id run) s \<ge> 2"
  have cand: "q \<in> set (candidates now s)" if "map_of (runs s) k = Some q" "claimable now q" for k q
    using that candidates_iff [OF inv, of q now] platform_inv_runD(3) [OF inv that(1)] by simp
  show ?thesis
  proof (cases "List.find ?P (candidates now s)")
    case None
    then have "claim_next tok w now dur s = (None, s)" by (simp add: claim_next_def)
    with None show ?thesis using cand by (auto simp: find_None_iff)
  next
    case (Some r)
    then have r: "r \<in> set (candidates now s)" "?P r" by (auto simp: find_Some_iff)
    have "sorted (map run_key (candidates now s))" by (simp add: candidates_def)
    then have "run_key r \<le> run_key q" if "map_of (runs s) k = Some q" "claimable now q" "?P q" for k q
      using sorted_find [OF _ Some cand [OF that(1,2)] that(3)] by blast
    with r show ?thesis
      using candidates_iff [OF inv, of r now] by (auto simp: claim_next_def Some Let_def)
  qed
qed

theorem claim_next_oldest_witness:
  "owner_running 2 [1] (demo_with demo_queued_run) = 0 \<and>
   \<not> (\<exists>k r. map_of (runs (demo_with demo_reclaimed)) k = Some r \<and> claimable (seconds 91) r \<and>
      owner_running (seconds 91) (r_owner_id r) (demo_with demo_reclaimed) < 2)"
proof -
  have "claim_next [9] [70] (seconds 91) (seconds 60) (demo_with demo_reclaimed)
      = (None, demo_with demo_reclaimed)"
    by (simp add: demo_defs empty_state_def claim_defs seconds_def)
  with claim_next_oldest [OF demo_inv(1), of "seconds 91" "[9]" "[70]" "seconds 60"]
  have "\<forall>k r. map_of (runs (demo_with demo_reclaimed)) k = Some r \<longrightarrow> claimable (seconds 91) r \<longrightarrow>
      owner_running (seconds 91) (r_owner_id r) (demo_with demo_reclaimed) \<ge> 2"
    by (simp only: prod.case option.case) blast
  moreover have "owner_running 2 [1] (demo_with demo_queued_run) = 0"
    by (simp add: owner_running_def demo_defs queued_run_def holds_lease_def empty_state_def)
  ultimately show ?thesis by (meson not_le)
qed

text \<open>C5: Claiming never brings an owner above two live leases.\<close>

theorem claim_next_owner_limit:
  assumes inv: "platform_inv s"
  shows "owner_running now own (snd (claim_next tok w now dur s)) \<le> max 2 (owner_running now own s)"
  using inv
proof (cases rule: claim_next_cases [of s tok w now dur])
  case idle
  then show ?thesis by simp
next
  case (claim r)
  have "distinct (dkeys (runs s))" using inv by (simp add: platform_inv_def runs_ok_def)
  from count_update [OF this claim(1), of "\<lambda>run. holds_lease now run \<and> r_owner_id run = own"
      "claimed_run tok w now dur r"]
  have "owner_running now own (put_run (r_run_id r) (claimed_run tok w now dur r) s)
      \<le> owner_running now own s + (if r_owner_id r = own then 1 else 0)"
    by (auto simp: owner_running_def put_run_def claimed_run_def split: if_splits)
  with claim(3,4) show ?thesis by (auto split: if_splits)
qed

theorem claim_next_owner_limit_witness:
  "owner_running 2 [1] (snd (claim_next [9] [70] 2 (seconds 60) (demo_with demo_reclaimed))) \<le> 2"
  using claim_next_owner_limit [OF demo_inv(1), of 2 "[1]" "[9]" "[70]" "seconds 60"]
  by (simp add: owner_running_def demo_defs queued_run_def claimed_run_def empty_state_def
      holds_lease_def seconds_def del: One_nat_def)

section \<open>Replays\<close>

lemma find_snoc: "(\<And>x. x \<in> set xs \<Longrightarrow> \<not> P x) \<Longrightarrow> P y \<Longrightarrow> List.find P (xs @ [y]) = Some y"
  by (induction xs) auto

lemma created_state_replay:
  "requests (created_state mid rid gid a cid msg req now c s) (cid, req) =
     Some \<lparr>q_operation = Op_create, q_payload = msg, q_run_id = rid, q_input_message_id = mid\<rparr>"
  "map_of (conversations (created_state mid rid gid a cid msg req now c s)) cid =
     Some (c\<lparr>c_updated_at := now\<rparr>)"
  by (simp_all add: created_state_def put_run_def Let_def)

text \<open>C6: Sending the same message again under the same request identifier gives the run and the
  message made the first time and changes nothing, whatever identifiers \<open>uuid4()\<close> would give now; a
  different message under that identifier is refused as a conflict.\<close>

theorem create_run_idempotent:
  assumes inv: "platform_inv s" and fresh: "fresh_message_id mid s"
    and first: "create_run mid rid gid actor cid msg req now s = (Inr created, t)"
  shows "create_run mid' rid' gid' actor cid msg req now' t = (Inr created, t)
     \<and> (\<forall>msg'. msg' \<noteq> msg \<longrightarrow>
          create_run mid' rid' gid' actor cid msg' req now' t = (Inl IdempotencyConflict, t))"
proof (cases "requests s (cid, req)")
  case (Some q)
  with first have "t = s" by (auto simp: create_run_def split: sum.splits if_splits)
  with first Some show ?thesis by (auto simp: create_run_def split: sum.splits if_splits)
next
  case None
  show ?thesis
  proof (cases rule: create_run_cases [of mid rid gid actor cid msg req now s])
    case same
    with first None have "requests t (cid, req) = None" by simp
    with first None show ?thesis
      by (auto simp: create_run_def new_run_def put_run_def Let_def split: sum.splits if_splits)
  next
    case (fresh c)
    from create_run_fresh [OF fresh(1-6), of mid rid gid msg now] first
    have t: "t = created_state mid rid gid actor cid msg req now c s"
      and cr: "created = \<lparr>rc_run = queued_run rid cid (a_owner_id actor) mid gid now None,
           rc_input_message = input_message mid actor cid msg req now s\<rparr>" by simp_all
    have "require_active_owner_if_known (a_owner_id actor) t = Inr ()"
      using fresh(3) by (simp add: require_active_owner_if_known_def t)
    moreover have "require_conversation (a_owner_id actor) cid t = Inr (c\<lparr>c_updated_at := now\<rparr>)"
      using fresh(2) by (simp add: require_conversation_def t created_state_replay)
    moreover have "creation rid mid t = Inr created"
    proof -
      have "List.find (\<lambda>item. m_message_id item = mid) (messages t cid)
          = Some (input_message mid actor cid msg req now s)"
        using assms(2) by (simp add: t fresh_message_id_def input_message_def)
          (rule find_snoc; force)
      then show ?thesis by (simp add: creation_def t next_match_def queued_run_def cr)
    qed
    ultimately show ?thesis
      by (simp add: create_run_def created_state_replay t)
  qed
qed

theorem create_run_idempotent_witness:
  "create_run [14] [15] [16] demo_actor [3] (lit ''hello'') [50] 9 (demo_with demo_queued_run)
     = (Inr \<lparr>rc_run = demo_queued_run, rc_input_message = demo_input\<rparr>, demo_with demo_queued_run)"
proof -
  have "fresh_message_id [4] demo_open"
    by (simp add: fresh_message_id_def demo_open_def demo_guest_def empty_state_def)
  from create_run_idempotent [OF demo_inv(2) this demo_create_run] show ?thesis by blast
qed

section \<open>Errors\<close>

text \<open>C7: An operation of the run store that raises an error changes nothing: the creation and the retry of a run, the
  heartbeat, the request to cancel, waiting for an approval and going on or being cancelled after it, the choice of a skill,
  the four endings, and the appending of an event. (Claiming a run raises nothing, and reading returns no state.)\<close>

theorem run_errors_change_nothing:
  assumes inv: "platform_inv s"
  shows "(fst (create_run mid rid gid actor cid msg req now s) = Inl e \<longrightarrow>
            snd (create_run mid rid gid actor cid msg req now s) = s)
    \<and> (fst (retry_run rid gid actor src req now s) = Inl e \<longrightarrow>
            snd (retry_run rid gid actor src req now s) = s)
    \<and> (fst (succeed_run mid k tok att answer now blocks s) = Inl e \<longrightarrow>
            snd (succeed_run mid k tok att answer now blocks s) = s)
    \<and> (fst (heartbeat k w tok att now dur s) = Inl e \<longrightarrow> snd (heartbeat k w tok att now dur s) = s)
    \<and> (fst (request_cancel own k now s) = Inl e \<longrightarrow> snd (request_cancel own k now s) = s)
    \<and> (fst (wait_approval_run k tok att now s) = Inl e \<longrightarrow> snd (wait_approval_run k tok att now s) = s)
    \<and> (fst (resume_run k now s) = Inl e \<longrightarrow> snd (resume_run k now s) = s)
    \<and> (fst (cancel_waiting_approval own k now s) = Inl e \<longrightarrow>
            snd (cancel_waiting_approval own k now s) = s)
    \<and> (fst (fail_run k tok att code msg now s) = Inl e \<longrightarrow> snd (fail_run k tok att code msg now s) = s)
    \<and> (fst (cancel_run k w tok att code now s) = Inl e \<longrightarrow> snd (cancel_run k w tok att code now s) = s)
    \<and> (fst (incompatible_run k tok att msg now s) = Inl e \<longrightarrow>
            snd (incompatible_run k tok att msg now s) = s)
    \<and> (fst (set_run_skill own k skill name now s) = Inl e \<longrightarrow> snd (set_run_skill own k skill name now s) = s)
    \<and> (fst (append_run_event k event_type payload now s) = Inl e \<longrightarrow>
            snd (append_run_event k event_type payload now s) = s)"
proof -
  have "fst (create_run mid rid gid actor cid msg req now s) = Inl e \<longrightarrow>
      snd (create_run mid rid gid actor cid msg req now s) = s"
    by (cases rule: create_run_cases [of mid rid gid actor cid msg req now s])
      (simp_all add: create_run_fresh)
  moreover have "fst (retry_run rid gid actor src req now s) = Inl e \<longrightarrow>
      snd (retry_run rid gid actor src req now s) = s"
    using retry_run_refused by (cases "\<exists>source im. retry_allowed actor src req s source im")
      (auto simp: retry_run_fresh)
  moreover have "fst (succeed_run mid k tok att answer now blocks s) = Inl e \<longrightarrow>
      snd (succeed_run mid k tok att answer now blocks s) = s"
    by (cases rule: succeed_run_cases [OF inv, of mid k tok att answer now blocks]) simp_all
  moreover have "fst (heartbeat k w tok att now dur s) = Inl e \<longrightarrow> snd (heartbeat k w tok att now dur s) = s"
    by (simp add: heartbeat_def Let_def split: sum.split)
  moreover have "fst (request_cancel own k now s) = Inl e \<longrightarrow> snd (request_cancel own k now s) = s"
    by (simp add: request_cancel_def Let_def split: option.split)
  moreover have "fst (wait_approval_run k tok att now s) = Inl e \<longrightarrow> snd (wait_approval_run k tok att now s) = s"
    by (simp add: wait_approval_run_def Let_def split: sum.split)
  moreover have "fst (resume_run k now s) = Inl e \<longrightarrow> snd (resume_run k now s) = s"
    by (simp add: resume_run_def Let_def split: option.split)
  moreover have "fst (cancel_waiting_approval own k now s) = Inl e \<longrightarrow> snd (cancel_waiting_approval own k now s) = s"
    by (simp add: cancel_waiting_approval_def Let_def split: option.split)
  moreover have "fst (fail_run k tok att code msg now s) = Inl e \<longrightarrow> snd (fail_run k tok att code msg now s) = s"
    by (simp add: fail_run_def Let_def split: option.split sum.split)
  moreover have "fst (cancel_run k w tok att code now s) = Inl e \<longrightarrow> snd (cancel_run k w tok att code now s) = s"
    by (simp add: cancel_run_def Let_def split: option.split sum.split)
  moreover have "fst (incompatible_run k tok att msg now s) = Inl e \<longrightarrow> snd (incompatible_run k tok att msg now s) = s"
    by (simp add: incompatible_run_def Let_def split: sum.split)
  moreover have "fst (set_run_skill own k skill name now s) = Inl e \<longrightarrow> snd (set_run_skill own k skill name now s) = s"
    by (simp add: set_run_skill_def Let_def split: option.split)
  moreover have "fst (append_run_event k event_type payload now s) = Inl e \<longrightarrow> snd (append_run_event k event_type payload now s) = s"
    by (simp add: append_run_event_def Let_def)
  ultimately show ?thesis by blast
qed

theorem run_errors_change_nothing_witness:
  "heartbeat [5] [70] [7] 1 0 0 (demo_with demo_reclaimed)
     = (Inl (InvalidRunTransition stale_claim), demo_with demo_reclaimed)"
proof -
  have e: "fst (heartbeat [5] [70] [7] 1 0 0 (demo_with demo_reclaimed)) = Inl (InvalidRunTransition stale_claim)"
    by (simp add: heartbeat_def require_current_claim_def demo_run demo_reclaimed_def claimed_run_def)
  with run_errors_change_nothing [OF demo_inv(1), where e = "InvalidRunTransition stale_claim" and k = "[5]" and w = "[70]"
      and tok = "[7]" and att = 1 and now = 0 and dur = 0]
  have "snd (heartbeat [5] [70] [7] 1 0 0 (demo_with demo_reclaimed)) = demo_with demo_reclaimed"
    by blast
  with e show ?thesis by (simp add: prod_eq_iff)
qed

end
