(* ===== verification/Conversation_Properties.thy ===== *)
theory Conversation_Properties
  imports Run_Properties
begin

text \<open>
  The contract of the conversation store: the pages of a listing put together give every active
  conversation of the owner once, newest first; an owner's operations do not touch what other owners
  have; deletion removes what belongs to the conversation and nothing else; guests stay within their
  limits.
\<close>

section \<open>Listing\<close>

lemma sorted_wrt_drop_last:
  assumes "sorted_wrt (\<lambda>a b. f b < (f a :: 'b::linorder)) xs" and "take n xs \<noteq> []"
  shows "filter (\<lambda>x. f x < f (last (take n xs))) xs = drop n xs"
proof -
  let ?l = "last (take n xs)"
  have split: "sorted_wrt (\<lambda>a b. f b < f a) (take n xs @ drop n xs)" using assms(1) by simp
  have "f x < f ?l" if "x \<in> set (drop n xs)" for x
    using split that assms(2) last_in_set by (auto simp only: sorted_wrt_append)
  moreover have "\<not> f x < f ?l" if "x \<in> set (take n xs)" for x
  proof -
    have "take n xs = butlast (take n xs) @ [?l]" using assms(2) by simp
    then have "sorted_wrt (\<lambda>a b. f b < f a) (butlast (take n xs) @ [?l])"
      using split by (metis sorted_wrt_append)
    moreover have "x \<in> set (butlast (take n xs)) \<or> x = ?l"
      using that assms(2) by (metis append_butlast_last_id in_set_conv_decomp rotate1.simps(2) set_ConsD set_rotate1)
    ultimately show ?thesis by (auto simp: sorted_wrt_append)
  qed
  ultimately have "filter (\<lambda>x. f x < f ?l) (take n xs @ drop n xs) = drop n xs"
    by (auto simp only: filter_append filter_False filter_True) (auto simp: filter_empty_conv filter_id_conv)
  then show ?thesis by simp
qed

definition active_of :: "str \<Rightarrow> platform_state \<Rightarrow> conversation list" where
  "active_of own s = filter (\<lambda>item. c_owner_id item = own \<and> c_lifecycle_state item = Active)
     (dvalues (conversations s))"

definition ordered_of :: "str \<Rightarrow> platform_state \<Rightarrow> conversation list" where
  "ordered_of own s = rev (sort_key page_key (rev (active_of own s)))"

definition cut_at :: "(datetime \<times> str) option \<Rightarrow> conversation \<Rightarrow> bool" where
  "cut_at before = (\<lambda>item. case before of None \<Rightarrow> True | Some key \<Rightarrow> page_key item < key)"

lemma list_conversations_cut:
  "list_conversations own before n s = take n (filter (cut_at before) (ordered_of own s))"
  by (simp add: list_conversations_def ordered_of_def active_of_def cut_at_def Let_def
      split: option.split)

lemma distinct_page_keys:
  assumes "platform_inv s"
  shows "distinct (map page_key (active_of own s))"
proof -
  have convs: "convs_ok s" using assms by (simp add: platform_inv_def)
  then have d: "distinct (dkeys (conversations s))" by (simp add: convs_ok_def)
  have k: "c_conversation_id c = k" if "(k, c) \<in> set (conversations s)" for k c
    using that in_dict_iff [OF d, of k c] convs by (simp add: convs_ok_def)
  have "map (c_conversation_id \<circ> snd) (conversations s) = dkeys (conversations s)"
    using k by (intro map_cong) auto
  with d have "distinct (map c_conversation_id (dvalues (conversations s)))" by (simp only: map_map)
  then have "distinct (map c_conversation_id (active_of own s))"
    unfolding active_of_def by (rule distinct_map_filter)
  then show ?thesis by (auto simp: distinct_map inj_on_def page_key_def)
qed

lemma ordered_of_sorted:
  assumes "platform_inv s"
  shows "sorted_wrt (\<lambda>a b. page_key b < page_key a) (ordered_of own s)"
proof -
  let ?xs = "sort_key page_key (rev (active_of own s))"
  have "distinct (map page_key ?xs)"
    using distinct_page_keys [OF assms, of own] by (simp add: distinct_map)
  then have "sorted_wrt (<) (map page_key ?xs)" by (simp add: strict_sorted_iff)
  then show ?thesis by (simp add: ordered_of_def sorted_wrt_rev sorted_wrt_map)
qed

lemma cut_sorted:
  "platform_inv s \<Longrightarrow> sorted_wrt (\<lambda>a b. page_key b < page_key a) (filter (cut_at before) (ordered_of own s))"
  by (rule sorted_wrt_filter [OF ordered_of_sorted])

text \<open>C8: A page lists active conversations of the owner, strictly newest first; continuing from the
  key of the last item of a page gives exactly what follows it, so pages neither lose nor repeat a
  conversation; without a cursor and with a large enough limit the listing has every one of them.\<close>

theorem listing_pages:
  assumes inv: "platform_inv s" and page: "list_conversations own before n s \<noteq> []"
  shows "list_conversations own before (n + m) s =
      list_conversations own before n s
      @ list_conversations own (Some (page_key (last (list_conversations own before n s)))) m s
    \<and> sorted_wrt (\<lambda>a b. page_key b < page_key a) (list_conversations own before n s)
    \<and> set (list_conversations own None (length (conversations s)) s) =
        {c. \<exists>k. map_of (conversations s) k = Some c \<and> c_owner_id c = own \<and> c_lifecycle_state c = Active}"
proof (intro conjI)
  let ?xs = "filter (cut_at before) (ordered_of own s)" and ?p = "list_conversations own before n s"
  have p: "?p = take n ?xs" by (rule list_conversations_cut)
  have "?p \<noteq> []" by (rule page)
  then have "last ?p \<in> set ?p" by (rule last_in_set)
  then have "cut_at before (last ?p)" unfolding p using set_take_subset by fastforce
  then have "cut_at (Some (page_key (last ?p))) =
      (\<lambda>item. cut_at before item \<and> page_key item < page_key (last ?p))"
    by (auto simp: cut_at_def fun_eq_iff split: option.splits)
  then have "filter (cut_at (Some (page_key (last ?p)))) (ordered_of own s) = drop n ?xs"
    using sorted_wrt_drop_last [OF cut_sorted [OF inv], of n before own] page by (simp add: p)
  then show "list_conversations own before (n + m) s = ?p @ list_conversations own (Some (page_key (last ?p))) m s"
    by (simp add: list_conversations_cut take_add)
  show "sorted_wrt (\<lambda>a b. page_key b < page_key a) ?p"
    unfolding p by (rule sorted_wrt_take [OF cut_sorted [OF inv]])
  have d: "distinct (dkeys (conversations s))" using inv by (simp add: platform_inv_def convs_ok_def)
  have "length (ordered_of own s) \<le> length (conversations s)"
    by (simp add: ordered_of_def active_of_def)
  moreover have "filter (cut_at None) (ordered_of own s) = ordered_of own s" by (simp add: cut_at_def)
  ultimately have "list_conversations own None (length (conversations s)) s = ordered_of own s"
    by (simp add: list_conversations_cut)
  then show "set (list_conversations own None (length (conversations s)) s) =
      {c. \<exists>k. map_of (conversations s) k = Some c \<and> c_owner_id c = own \<and> c_lifecycle_state c = Active}"
    using dvalues_iff [OF d] by (auto simp: ordered_of_def active_of_def)
qed

theorem listing_pages_witness:
  "list_conversations [1] None 1 demo_open = [new_conversation [3] demo_actor 0] \<and>
   list_conversations [1] (Some (page_key (new_conversation [3] demo_actor 0))) 5 demo_open = []"
proof -
  have 1: "list_conversations [1] None 1 demo_open = [new_conversation [3] demo_actor 0]"
    "list_conversations [1] None (1 + 5) demo_open = [new_conversation [3] demo_actor 0]"
    by (simp_all add: list_conversations_def demo_open_def new_conversation_def demo_actor_def Let_def)
  then have "list_conversations [1] None 1 demo_open \<noteq> []" by simp
  from listing_pages [OF demo_inv(2) this, of 5] 1 show ?thesis by simp
qed

section \<open>Owners do not touch each other\<close>

text \<open>The owner on whose behalf an operation acts.\<close>

fun op_owner :: "platform_op \<Rightarrow> str option" where
  "op_owner (Create_conversation _ actor _) = Some (a_owner_id actor)"
| "op_owner (Rename_conversation own _ _ _) = Some own"
| "op_owner (Mark_conversation_deleting own _ _) = Some own"
| "op_owner (Remove_conversation own _) = Some own"
| "op_owner (Create_run _ _ _ actor _ _ _ _) = Some (a_owner_id actor)"
| "op_owner (Retry_run _ _ actor _ _ _) = Some (a_owner_id actor)"
| "op_owner (Request_cancel own _ _) = Some own"
| "op_owner (Cancel_waiting_approval own _ _) = Some own"
| "op_owner (Set_run_skill own _ _ _ _) = Some own"
| "op_owner _ = None"

definition foreign_kept :: "str \<Rightarrow> platform_state \<Rightarrow> platform_state \<Rightarrow> bool" where
  "foreign_kept own s t \<longleftrightarrow>
     (\<forall>k r. map_of (runs s) k = Some r \<longrightarrow> r_owner_id r \<noteq> own \<longrightarrow> map_of (runs t) k = Some r)
     \<and> (\<forall>k c. map_of (conversations s) k = Some c \<longrightarrow> c_owner_id c \<noteq> own \<longrightarrow>
          map_of (conversations t) k = Some c \<and> messages t k = messages s k)"

lemma foreign_kept_refl [simp]: "foreign_kept own s s"
  by (simp add: foreign_kept_def)

lemma foreign_kept_put_run:
  "map_of (runs s) k = Some r \<Longrightarrow> r_owner_id r = own \<Longrightarrow> foreign_kept own s (put_run k r' s)"
  by (auto simp: foreign_kept_def put_run_def)

lemma run_conversation_owner:
  assumes "platform_inv s" and "map_of (runs s) k = Some r"
    and "map_of (conversations s) (r_conversation_id r) = Some c"
  shows "r_owner_id r = c_owner_id c"
  using platform_inv_runD(1) [OF assms(1,2)] assms(3) by (auto simp: run_ok_def)

lemma foreign_kept_conversation:
  assumes inv: "platform_inv s" and c: "map_of (conversations s) cid = Some c" "c_owner_id c = own"
    and runs: "\<And>k r. map_of (runs s) k = Some r \<Longrightarrow> r_conversation_id r \<noteq> cid \<Longrightarrow> map_of (runs t) k = Some r"
    and convs: "\<And>k. k \<noteq> cid \<Longrightarrow> map_of (conversations t) k = map_of (conversations s) k \<and> messages t k = messages s k"
  shows "foreign_kept own s t"
  unfolding foreign_kept_def
proof (intro conjI allI impI)
  fix k r assume r: "map_of (runs s) k = Some r" "r_owner_id r \<noteq> own"
  then have "r_conversation_id r \<noteq> cid"
    using run_conversation_owner [OF inv r(1)] c by auto
  with r runs show "map_of (runs t) k = Some r" by blast
next
  fix k c' assume "map_of (conversations s) k = Some c'" "c_owner_id c' \<noteq> own"
  with c have "k \<noteq> cid" by auto
  with convs \<open>map_of (conversations s) k = Some c'\<close>
  show "map_of (conversations t) k = Some c'" "messages t k = messages s k" by simp_all
qed

text \<open>C9: An operation made on behalf of one owner leaves every run, every conversation and every
  message thread of the other owners exactly as they were.\<close>

theorem owner_isolation:
  assumes sys: "system_inv (s, used)" and fresh: "uuid_fresh op (s, used)"
    and own: "op_owner op = Some own"
  shows "foreign_kept own s (exec_op op s)"
proof -
  have inv: "platform_inv s" using sys by (simp add: system_inv_def)
  have new: "map_of (runs s) x = None" "map_of (conversations s) x = None"
    if "x \<in> set (op_uuids op)" for x
    using that fresh sys ids_fresh(3,4) [of x s] by (auto simp: uuid_fresh_def system_inv_def)
  from own show ?thesis
  proof (cases op)
    case (Create_conversation cid a now)
    with own new show ?thesis
      by (auto simp: create_conversation_def Let_def add_conversation_def new_conversation_def
          foreign_kept_def split: sum.splits)
  next
    case (Rename_conversation o' cid title now)
    with own show ?thesis
      by (auto simp: rename_conversation_def Let_def get_conversation_Some split: option.splits
          intro!: foreign_kept_conversation [OF inv])
  next
    case (Mark_conversation_deleting o' cid now)
    with own show ?thesis
      by (auto simp: mark_conversation_deleting_def get_conversation_Some live_run_of_def
          split: option.splits intro!: foreign_kept_conversation [OF inv])
  next
    case (Remove_conversation o' cid)
    show ?thesis
    proof (cases "\<exists>c. map_of (conversations s) cid = Some c \<and> c_owner_id c = o'")
      case True
      then obtain c where c: "map_of (conversations s) cid = Some c" "c_owner_id c = own"
        using own Remove_conversation by auto
      have "foreign_kept own s (remove_conversation own cid s)"
        using c remove_conversation_runs [OF inv c]
        by (intro foreign_kept_conversation [OF inv c]) (auto simp: remove_conversation_def Let_def)
      with own Remove_conversation show ?thesis by simp
    next
      case False
      with Remove_conversation show ?thesis
        by (auto simp: remove_conversation_def split: option.splits)
    qed
  next
    case (Create_run mid rid gid a cid msg req now)
    show ?thesis
    proof (cases rule: create_run_cases [of mid rid gid a cid msg req now s])
      case same
      with Create_run show ?thesis by simp
    next
      case (fresh c)
      have "foreign_kept own s (created_state mid rid gid a cid msg req now c s)"
        using new own Create_run fresh(1,2)
        by (intro foreign_kept_conversation [OF inv fresh(1)])
          (auto simp: created_state_def put_run_def Let_def)
      with fresh Create_run show ?thesis by simp
    qed
  next
    case (Retry_run rid gid a src req now)
    show ?thesis
    proof (cases "\<exists>source im. retry_allowed a src req s source im")
      case True
      with Retry_run new show ?thesis by (auto simp: retry_run_fresh foreign_kept_def)
    next
      case False
      with Retry_run show ?thesis using retry_run_refused by auto
    qed
  qed (auto simp: request_cancel_def cancel_waiting_approval_def set_run_skill_def Let_def
      split: option.splits intro: foreign_kept_put_run)
qed

theorem owner_isolation_witness:
  "foreign_kept [77] (demo_with demo_reclaimed) (exec_op (Remove_conversation [77] [3]) (demo_with demo_reclaimed))"
proof -
  have "system_inv (demo_with demo_reclaimed, demo_used)"
    using demo_steps(1) by (rule platform.reachable_inv)
  then show ?thesis by (rule owner_isolation) (simp_all add: uuid_fresh_def)
qed

section \<open>Deletion\<close>

text \<open>C10: Removing a conversation removes its record, its messages, its runs with their grants and its
  request records; all other conversations, threads, runs and request records, and the grants of the
  remaining runs, stay.\<close>

theorem remove_conversation_exact:
  assumes inv: "platform_inv s" and c: "map_of (conversations s) cid = Some c" "c_owner_id c = own"
  defines "t \<equiv> remove_conversation own cid s"
  shows "(\<forall>k. map_of (conversations t) k = (if k = cid then None else map_of (conversations s) k))
    \<and> (\<forall>k. messages t k = (if k = cid then [] else messages s k))
    \<and> (\<forall>k r. map_of (runs t) k = Some r \<longleftrightarrow> map_of (runs s) k = Some r \<and> r_conversation_id r \<noteq> cid)
    \<and> (\<forall>k req. requests t (k, req) = (if k = cid then None else requests s (k, req)))
    \<and> (\<forall>k r. map_of (runs s) k = Some r \<longrightarrow> grants t (r_grant_id r) =
         (if r_conversation_id r = cid then None else grants s (r_grant_id r)))"
proof (intro conjI)
  show "\<forall>k r. map_of (runs t) k = Some r \<longleftrightarrow> map_of (runs s) k = Some r \<and> r_conversation_id r \<noteq> cid"
    using remove_conversation_runs [OF inv c] by (auto simp: t_def split: option.splits)
  have gone: "q \<in> set (dvalues (runs s)) \<longleftrightarrow> map_of (runs s) (r_run_id q) = Some q" for q
    using run_values_iff [OF inv, of q] by simp
  show "\<forall>k r. map_of (runs s) k = Some r \<longrightarrow> grants t (r_grant_id r) =
         (if r_conversation_id r = cid then None else grants s (r_grant_id r))"
  proof (intro allI impI)
    fix k r assume r: "map_of (runs s) k = Some r"
    let ?G = "r_grant_id ` {q. map_of (runs s) (r_run_id q) = Some q \<and> r_conversation_id q = cid}"
    have "r_grant_id ` set (filter (\<lambda>run. r_conversation_id run = cid) (dvalues (runs s))) = ?G"
      unfolding set_filter gone by (rule refl)
    then have t: "grants t (r_grant_id r) = (if r_grant_id r \<in> ?G then None else grants s (r_grant_id r))"
      using c by (simp add: t_def remove_conversation_def Let_def)
    have "r_grant_id r \<in> ?G \<longleftrightarrow> r_conversation_id r = cid"
    proof
      assume "r_grant_id r \<in> ?G"
      then obtain q where q: "map_of (runs s) (r_run_id q) = Some q" "r_conversation_id q = cid"
        "r_grant_id r = r_grant_id q" by auto
      with platform_inv_runD(1) [OF inv q(1)] platform_inv_runD(1) [OF inv r]
      show "r_conversation_id r = cid" by (auto simp: run_ok_def)
    next
      assume "r_conversation_id r = cid"
      with r platform_inv_runD(3) [OF inv r] show "r_grant_id r \<in> ?G" by auto
    qed
    with t show "grants t (r_grant_id r) =
        (if r_conversation_id r = cid then None else grants s (r_grant_id r))" by simp
  qed
qed (use c in \<open>simp_all add: t_def remove_conversation_def Let_def\<close>)

theorem remove_conversation_exact_witness:
  "map_of (runs (remove_conversation [1] [3] (demo_with demo_reclaimed))) [5] = None"
proof -
  let ?c = "(new_conversation [3] demo_actor 0)\<lparr>c_updated_at := 1\<rparr>"
  have "map_of (conversations (demo_with demo_reclaimed)) [3] = Some ?c" "c_owner_id ?c = [1]"
    by (simp_all add: demo_with_def new_conversation_def demo_actor_def)
  from remove_conversation_exact [OF demo_inv(1) this]
  have "map_of (runs (remove_conversation [1] [3] (demo_with demo_reclaimed))) [5] \<noteq> Some r" for r
    by (auto simp: demo_run demo_reclaimed_def demo_claimed_def demo_queued_run_def claimed_run_def
        queued_run_def)
  then show ?thesis by auto
qed

section \<open>Guests\<close>

lemma sorted_dropWhile: "sorted xs \<Longrightarrow> dropWhile (\<lambda>t. t \<le> (c::int)) xs = filter (\<lambda>t. c < t) xs"
  by (induction xs) (auto intro!: filter_True [symmetric])

definition live_count :: "str \<Rightarrow> platform_state \<Rightarrow> nat" where
  "live_count own s = length (filter (\<lambda>item. c_owner_id item = own \<and> c_lifecycle_state item = Active)
     (dvalues (conversations s)))"

definition recent_creations :: "str \<Rightarrow> datetime \<Rightarrow> platform_state \<Rightarrow> nat" where
  "recent_creations own now s = length (filter (\<lambda>t. now - minutes 10 < t) (guest_creates s own))"

lemma require_active_cases:
  "require_active_owner_if_known own s = Inr () \<or> require_active_owner_if_known own s = Inl SessionInactive"
  by (simp add: require_active_owner_if_known_def split: option.split)

lemma create_guest_conversation:
  assumes guest: "a_kind actor \<noteq> User" and owner: "require_active_owner_if_known (a_owner_id actor) s = Inr ()"
    and clock: "sorted (guest_creates s (a_owner_id actor))"
  shows "create_conversation uuid actor now s =
    (let recent = filter (\<lambda>t. now - minutes 10 < t) (guest_creates s (a_owner_id actor)) in
     if live_count (a_owner_id actor) s \<ge> 10 \<or> recent_creations (a_owner_id actor) now s \<ge> 5
     then (Inl AnonymousLimitExceeded, s\<lparr>guest_creates := (guest_creates s)(a_owner_id actor := recent)\<rparr>)
     else (Inr (new_conversation uuid actor now), add_conversation (new_conversation uuid actor now)
            (s\<lparr>guest_creates := (guest_creates s)(a_owner_id actor := recent @ [now])\<rparr>)))"
  using guest owner sorted_dropWhile [OF clock, of "now - minutes 10"]
  by (simp add: create_conversation_def Let_def live_count_def recent_creations_def)

text \<open>C11: A guest whose creation times are in order (as they stay when the clock does not go back) is refused a conversation
  exactly when the owner is being deleted, or ten conversations are live, or five were created within the last ten
  minutes; a refusal changes no conversation, and a conversation that is created keeps both limits.\<close>

theorem guest_limits:
  assumes guest: "a_kind actor \<noteq> User"
    and clock: "sorted (guest_creates s (a_owner_id actor))" and fresh: "map_of (conversations s) uuid = None"
  shows "(case create_conversation uuid actor now s of
      (Inl e, t) \<Rightarrow> conversations t = conversations s
        \<and> (e = SessionInactive \<and> require_active_owner_if_known (a_owner_id actor) s = Inl SessionInactive \<and> t = s
         \<or> e = AnonymousLimitExceeded \<and> require_active_owner_if_known (a_owner_id actor) s = Inr ()
           \<and> (live_count (a_owner_id actor) s \<ge> 10 \<or> recent_creations (a_owner_id actor) now s \<ge> 5))
    | (Inr c, t) \<Rightarrow> require_active_owner_if_known (a_owner_id actor) s = Inr ()
        \<and> live_count (a_owner_id actor) s < 10 \<and> recent_creations (a_owner_id actor) now s < 5
        \<and> live_count (a_owner_id actor) t = live_count (a_owner_id actor) s + 1
        \<and> recent_creations (a_owner_id actor) now t = recent_creations (a_owner_id actor) now s + 1
        \<and> map_of (conversations t) uuid = Some c \<and> c_owner_id c = a_owner_id actor)
    \<and> ((\<forall>x \<in> set (guest_creates s (a_owner_id actor)). x \<le> now) \<longrightarrow>
         sorted (guest_creates (snd (create_conversation uuid actor now s)) (a_owner_id actor))
         \<and> (\<forall>x \<in> set (guest_creates (snd (create_conversation uuid actor now s)) (a_owner_id actor)). x \<le> now))"
proof (cases "require_active_owner_if_known (a_owner_id actor) s = Inr ()")
  case True
  have "conversations (add_conversation (new_conversation uuid actor now) t) =
      conversations s @ [(uuid, new_conversation uuid actor now)]"
    if "conversations t = conversations s" for t
    using update_fresh [OF fresh] that by (simp add: add_conversation_def new_conversation_def)
  moreover have "guest_creates (add_conversation c t) = guest_creates t" for c t
    by (simp add: add_conversation_def)
  moreover have "map_of (conversations s @ [(uuid, c)]) uuid = Some c" for c
    using fresh by (simp add: map_add_def)
  moreover have "sorted (filter P (guest_creates s (a_owner_id actor)))" for P using clock by (rule sorted_wrt_filter)
  ultimately show ?thesis
    unfolding create_guest_conversation [OF guest True clock]
    by (simp add: True Let_def live_count_def recent_creations_def new_conversation_def minutes_def seconds_def sorted_append)
next
  case False
  then have "require_active_owner_if_known (a_owner_id actor) s = Inl SessionInactive" using require_active_cases by blast
  then show ?thesis using clock by (simp add: create_conversation_def)
qed

theorem guest_limits_witness:
  "recent_creations [1] 0 (snd (create_conversation [9] demo_actor 0 demo_open)) = recent_creations [1] 0 demo_open + 1
   \<and> sorted (guest_creates (snd (create_conversation [9] demo_actor 0 demo_open)) [1])"
proof -
  have "a_kind demo_actor \<noteq> User" "sorted (guest_creates demo_open (a_owner_id demo_actor))" "map_of (conversations demo_open) [9] = None"
    by (simp_all add: demo_defs require_active_owner_if_known_def new_owner_def)
  from guest_limits [OF this, of 0]
  have "case create_conversation [9] demo_actor 0 demo_open of (Inl e, t) \<Rightarrow> conversations t = conversations demo_open
     | (Inr c, t) \<Rightarrow> recent_creations [1] 0 t = recent_creations [1] 0 demo_open + 1"
    and "(\<forall>x \<in> set (guest_creates demo_open [1]). x \<le> 0) \<longrightarrow> sorted (guest_creates (snd (create_conversation [9] demo_actor 0 demo_open)) [1])"
    by (auto simp: demo_actor_def split: prod.splits sum.splits)
  moreover have "\<forall>x \<in> set (guest_creates demo_open [1]). x \<le> 0" by (simp add: demo_defs)
  moreover have "fst (create_conversation [9] demo_actor 0 demo_open) = Inr (new_conversation [9] demo_actor 0)"
    by (simp add: create_conversation_def demo_defs require_active_owner_if_known_def new_owner_def Let_def
        minutes_def)
  ultimately show ?thesis by (cases "create_conversation [9] demo_actor 0 demo_open") simp
qed

end
