(* ===== verification/Ownership_Properties.thy ===== *)
theory Ownership_Properties
  imports Conversation_Properties
begin

text \<open>
  The contract of the ownership store: an owner being deleted never works again, passwords and
  refresh tokens rotate the way the service relies on, names are unique, and the clean-up of guests
  removes exactly the ones nobody can use.
\<close>

section \<open>Owners along a history\<close>

definition owner_kept :: "owner_record \<Rightarrow> owner_record \<Rightarrow> bool" where
  "owner_kept w w' \<longleftrightarrow> o_kind w' = o_kind w \<and> o_authorization_epoch w \<le> o_authorization_epoch w'
     \<and> (o_lifecycle_state w = Deleting \<longrightarrow> o_lifecycle_state w' = Deleting)"

definition owners_le :: "platform_system \<Rightarrow> platform_system \<Rightarrow> bool" where
  "owners_le = (\<lambda>(s, used) (t, used'). used \<subseteq> used' \<and>
     (\<forall>k w'. k \<in> used \<longrightarrow> map_of (owners t) k = Some w' \<longrightarrow>
        (\<exists>w. map_of (owners s) k = Some w \<and> owner_kept w w')))"

lemma revoke_if_active_owners [simp]: "owners (revoke_if_active sid now s) = owners s"
  by (simp add: revoke_if_active_def put_session_def split: option.split)

lemma exec_op_owners:
  assumes inv: "platform_inv s" "ownership_inv s" and w': "map_of (owners (exec_op op s)) k = Some w'"
    and old: "k \<notin> set (op_uuids op)"
  shows "\<exists>w. map_of (owners s) k = Some w \<and> owner_kept w w'"
proof (cases "ownership_op op")
  case False
  then show ?thesis
    using exec_op_ownership [OF inv(1)] w' by (auto simp: same_ownership_def owner_kept_def)
next
  case True
  have d: "distinct (dkeys (owners s))" using inv(2) by (simp add: ownership_inv_def)
  from True w' old show ?thesis
    by (cases op) (auto simp: owner_kept_def create_guest_def rotate_refresh_def revoke_session_def
        register_user_def create_account_session_def change_password_record_def
        mark_owner_deleting_def delete_owner_def delete_orphan_guests_def put_session_def Let_def
        map_of_ddrop [OF d] split: option.splits if_splits)
qed

interpretation owner_order: ordered_system exec_platform uuid_fresh init_platform system_inv owners_le
proof unfold_locales
  show "owners_le s s" for s by (auto simp: owners_le_def owner_kept_def)
  show "owners_le s u" if "owners_le s t" "owners_le t u" for s t u
    using that unfolding owners_le_def owner_kept_def by (fastforce split: prod.splits)
  show "owners_le su (exec_platform op su)" if "system_inv su" "uuid_fresh op su" for su op
    using that exec_op_owners [of "fst su" op]
    by (auto simp: owners_le_def exec_platform_def system_inv_def uuid_fresh_def split: prod.splits)
qed

text \<open>C12: From the moment an owner is marked for deletion, in every later state in which the owner
  still exists none of its runs is authorized, and neither a conversation, a run nor an account
  session can be created for it. A retry creates no run either: it raises, unless this very request was answered before, and
  then it only repeats the old answer.\<close>

theorem deleting_owner_locked_out:
  assumes reach: "steps exec_platform uuid_fresh init_platform (s, used)"
    and known: "map_of (owners s) own = Some w"
    and later: "steps exec_platform uuid_fresh (snd (mark_owner_deleting own now s), used) (t, used')"
    and still: "map_of (owners t) own = Some w'"
  shows "(\<forall>k r. map_of (runs t) k = Some r \<longrightarrow> r_owner_id r = own \<longrightarrow>
            authorize_run k now' t = Inl RunAuthorizationInvalid)
    \<and> (\<forall>uuid actor. a_owner_id actor = own \<longrightarrow>
            create_conversation uuid actor now' t = (Inl SessionInactive, t))
    \<and> (\<forall>mid rid gid actor cid msg req. a_owner_id actor = own \<longrightarrow>
            (\<exists>e. create_run mid rid gid actor cid msg req now' t = (Inl e, t)))
    \<and> (\<forall>rid gid actor src req. a_owner_id actor = own \<longrightarrow> snd (retry_run rid gid actor src req now' t) = t
          \<and> ((\<forall>source. map_of (runs t) src = Some source \<longrightarrow> requests t (r_conversation_id source, req) = None) \<longrightarrow>
               (\<exists>e. fst (retry_run rid gid actor src req now' t) = Inl e)))
    \<and> create_account_session sid own h until rs ra t = (Inl SessionInactive, t)"
proof -
  let ?s1 = "snd (mark_owner_deleting own now s)"
  have "uuid_fresh (Mark_owner_deleting own now) (s, used)" by (simp add: uuid_fresh_def)
  from platform.inv_step [OF platform.reachable_inv [OF reach] this]
  have inv1: "system_inv (?s1, used)" by (simp add: exec_platform_def)
  from known have w1: "map_of (owners ?s1) own =
      Some (w\<lparr>o_lifecycle_state := Deleting, o_authorization_epoch := o_authorization_epoch w + 1\<rparr>)"
    by (simp add: mark_owner_deleting_def)
  then have "own \<in> used"
    using inv1 by (auto simp: system_inv_def state_ids_def dest: in_dkeys)
  with owner_order.steps_le [OF later inv1] still w1
  have del: "o_lifecycle_state w' = Deleting" by (auto simp: owners_le_def owner_kept_def)
  then have guard: "require_active_owner_if_known own t = Inl SessionInactive"
    using still by (simp add: require_active_owner_if_known_def)
  have "authorize_run k now' t = Inl RunAuthorizationInvalid"
    if "map_of (runs t) k = Some r" "r_owner_id r = own" for k r
    using that still del by (simp add: authorize_run_def Let_def split: option.split)
  moreover have "\<exists>e. create_run mid rid gid actor cid msg req now' t = (Inl e, t)"
    if "a_owner_id actor = own" for mid rid gid actor cid msg req
    using that guard by (simp add: create_run_def split: sum.split)
  moreover have "snd (retry_run rid gid actor src req now' t) = t
      \<and> ((\<forall>source. map_of (runs t) src = Some source \<longrightarrow> requests t (r_conversation_id source, req) = None) \<longrightarrow>
           (\<exists>e. fst (retry_run rid gid actor src req now' t) = Inl e))"
    if "a_owner_id actor = own" for rid gid actor src req
    using that guard by (simp add: retry_run_def Let_def split: option.split sum.split)
  ultimately show ?thesis
    using guard still del by (simp add: create_conversation_def create_account_session_def)
qed

theorem deleting_owner_locked_out_witness:
  "authorize_run [5] 3 (snd (mark_owner_deleting [1] 2 (demo_with demo_reclaimed))) = Inl RunAuthorizationInvalid"
proof -
  let ?t = "snd (mark_owner_deleting [1] 2 (demo_with demo_reclaimed))"
  have "map_of (owners (demo_with demo_reclaimed)) [1] = Some (new_owner [1] Guest)"
    by (simp add: demo_with_def demo_guest_def)
  moreover from this have "map_of (owners ?t) [1] =
      Some (new_owner [1] Guest\<lparr>o_lifecycle_state := Deleting, o_authorization_epoch := 2\<rparr>)"
    by (simp add: mark_owner_deleting_def new_owner_def)
  moreover have "map_of (runs ?t) [5] = Some demo_reclaimed"
    using calculation(1) by (simp add: mark_owner_deleting_def demo_run)
  moreover have "r_owner_id demo_reclaimed = [1]"
    by (simp add: demo_reclaimed_def demo_claimed_def demo_queued_run_def claimed_run_def queued_run_def)
  ultimately show ?thesis
    using deleting_owner_locked_out [OF demo_steps(1), of "[1]" _ 2 ?t demo_used, OF _ steps_refl] by metis
qed

section \<open>Passwords and refresh tokens\<close>

text \<open>C13: A password change stores the new hash, rotates the current session, revokes exactly the
  other live sessions of the owner (and reports those), and leaves the sessions of other owners.\<close>

theorem change_password_sessions_exact:
  assumes inv: "ownership_inv s" and user: "users s own = Some user"
    and cur: "map_of (sessions s) cur = Some x" "s_owner_id x = own"
  shows "case change_password_record own cur pw h until now s of
      (Inl e, t) \<Rightarrow> False
    | (Inr (session, revoked), t) \<Rightarrow>
        users t own = Some (user\<lparr>u_password_hash := pw\<rparr>)
        \<and> session = rotate h until x \<and> map_of (sessions t) cur = Some session
        \<and> set revoked = {sid. sid \<noteq> cur \<and> (\<exists>y. map_of (sessions s) sid = Some y
             \<and> s_owner_id y = own \<and> s_revoked_at y = None)}
        \<and> (\<forall>sid y. sid \<noteq> cur \<longrightarrow> map_of (sessions s) sid = Some y \<longrightarrow>
             map_of (sessions t) sid = Some (if sid \<in> set revoked then revoke now y else y))"
proof -
  have d: "distinct (dkeys (sessions s))" using inv by (simp add: ownership_inv_def)
  let ?revoked = "dkeys (filter (\<lambda>(sid, session). s_owner_id session = own \<and> sid \<noteq> cur
      \<and> s_revoked_at session = None) (sessions s))"
  have "fst (change_password_record own cur pw h until now s) = Inr (rotate h until x, ?revoked)"
    using user cur by (simp add: change_password_record_def Let_def map_of_map_step)
  then obtain t where res: "change_password_record own cur pw h until now s = (Inr (rotate h until x, ?revoked), t)"
    by (metis prod.collapse)
  have rev: "set ?revoked = {sid. sid \<noteq> cur \<and> (\<exists>y. map_of (sessions s) sid = Some y
      \<and> s_owner_id y = own \<and> s_revoked_at y = None)}"
    unfolding dkeys_filter in_dict_iff [OF d] by auto
  have known: "users s own \<noteq> None" using user by simp
  note after = change_password_sessions [OF known, of cur pw h until now, unfolded res snd_conv]
  have "map_of (sessions t) cur = Some (rotate h until x)"
    using cur by (simp add: after(1) after_change_def)
  moreover have "map_of (sessions t) sid = Some (if sid \<in> set ?revoked then revoke now y else y)"
    if "sid \<noteq> cur" "map_of (sessions s) sid = Some y" for sid y
    using that unfolding after(1) rev by (simp add: after_change_def)
  moreover have "users t own = Some (user\<lparr>u_password_hash := pw\<rparr>)"
    using user by (simp add: after(5))
  ultimately show ?thesis unfolding res prod.case sum.case using rev by blast
qed

definition demo_account :: platform_state where
  "demo_account = snd (create_account_session [33] [31] [34] (days 30) None 0
     (snd (register_user [31] [32] (lit ''ann'') (lit ''Ann'') [35] [36] (days 30) None 0 empty_state)))"

lemma empty_ownership_inv: "ownership_inv empty_state"
  by (simp add: ownership_inv_def empty_state_def)

lemma demo_account_inv: "ownership_inv demo_account"
  unfolding demo_account_def
  by (intro create_account_session_inv register_user_inv)
    (simp_all add: empty_ownership_inv, simp_all add: fresh_owner_ids_def empty_state_def
      register_user_def Let_def revoke_if_active_def)

lemma demo_account_tables:
  "sessions demo_account = [([32], new_session [32] [31] User [36] (days 30)),
     ([33], new_session [33] [31] User [34] (days 30))]"
  "users demo_account [31] = Some \<lparr>u_owner_id = [31], u_username_normalized = lit ''ann'',
     u_username_display = lit ''Ann'', u_password_hash = [35]\<rparr>"
  by (simp_all add: demo_account_def create_account_session_def register_user_def Let_def
      revoke_if_active_def put_session_def new_owner_def empty_state_def)

theorem change_password_sessions_exact_witness:
  "\<exists>session t. change_password_record [31] [33] [37] [38] 5 4 demo_account = (Inr (session, [[32]]), t)
     \<and> users t [31] \<noteq> None"
proof -
  have "fst (change_password_record [31] [33] [37] [38] 5 4 demo_account) =
      Inr (rotate [38] 5 (new_session [33] [31] User [34] (days 30)), [[32]])"
    by (simp add: change_password_record_def demo_account_tables Let_def new_session_def)
  moreover have "map_of (sessions demo_account) [33] = Some (new_session [33] [31] User [34] (days 30))"
    "s_owner_id (new_session [33] [31] User [34] (days 30)) = [31]"
    by (simp_all add: demo_account_tables new_session_def)
  from change_password_sessions_exact [OF demo_account_inv demo_account_tables(2) this, of "[37]" "[38]" 5 4]
  have "case change_password_record [31] [33] [37] [38] 5 4 demo_account of (Inl e, t) \<Rightarrow> False
     | (Inr (session, revoked), t) \<Rightarrow> users t [31] \<noteq> None"
    by (auto split: prod.splits sum.splits)
  ultimately show ?thesis by (auto split: prod.splits sum.splits)
qed

text \<open>A refresh hash belongs to one session only.\<close>

definition hash_of :: "session_record \<Rightarrow> str set" where
  "hash_of x = insert (s_refresh_hash x) (set_option (s_previous_refresh_hash x))"

lemma find_session_None: "(\<And>z. z \<in> set xs \<Longrightarrow> h \<notin> hash_of z) \<Longrightarrow> find_session h now xs = None"
  by (induction xs) (auto simp: hash_of_def)

lemma find_session_unique:
  assumes "map_of d sid = Some x" and "distinct (dkeys d)"
    and "\<And>k y. map_of d k = Some y \<Longrightarrow> k \<noteq> sid \<Longrightarrow> h \<notin> hash_of y"
  shows "find_session h now (dvalues d) = find_session h now [x]"
  using assms
proof (induction d)
  case Nil
  then show ?case by simp
next
  case (Cons p d)
  obtain k y where p: "p = (k, y)" by force
  show ?case
  proof (cases "k = sid")
    case False
    then have "h \<notin> hash_of y" using Cons.prems(3) [of k y] p by simp
    moreover have "map_of d sid = Some x" using Cons.prems(1) False p by simp
    moreover have "h \<notin> hash_of z" if "map_of d j = Some z" "j \<noteq> sid" for j z
    proof -
      have "j \<noteq> k" using that(1) Cons.prems(2) p by (auto dest: in_dkeys)
      then show ?thesis using that Cons.prems(3) [of j z] p by simp
    qed
    ultimately show ?thesis using Cons p by (auto simp: hash_of_def)
  next
    case True
    then have x: "y = x" using Cons.prems(1) p by simp
    have "h \<notin> hash_of z" if "z \<in> set (dvalues d)" for z
    proof -
      from that obtain j where j: "(j, z) \<in> set d" by auto
      then have "j \<noteq> sid" using Cons.prems(2) p True by force
      moreover have "map_of (p # d) j = Some z"
        using j Cons.prems(2) p \<open>j \<noteq> sid\<close> True in_dict_iff [of d j z] by simp
      ultimately show ?thesis using Cons.prems(3) by blast
    qed
    then have "find_session h now (dvalues d) = None" by (rule find_session_None)
    then show ?thesis by (simp add: p x)
  qed
qed

text \<open>C14: A refresh token rotates once: after a rotation the new hash finds the session, the old hash
  still finds it, marked as previous, exactly until the end of the grace period, and another rotation
  that expects the old hash is refused.\<close>

theorem refresh_rotation:
  assumes inv: "ownership_inv s" and x: "map_of (sessions s) sid = Some x" and h: "s_refresh_hash x = h"
    and new: "h' \<noteq> h"
    and only: "\<forall>k y. map_of (sessions s) k = Some y \<longrightarrow> k \<noteq> sid \<longrightarrow> h \<notin> hash_of y \<and> h' \<notin> hash_of y"
  shows "case rotate_refresh sid h h' until s of
      (Inl e, t) \<Rightarrow> False
    | (Inr y, t) \<Rightarrow> y = rotate h' until x \<and> get_session sid t = Some y
        \<and> find_refresh h' now t = Some \<lparr>rl_session = y, rl_matched_previous = False\<rparr>
        \<and> find_refresh h now t = (if now < until then Some \<lparr>rl_session = y, rl_matched_previous = True\<rparr> else None)
        \<and> rotate_refresh sid h h'' until' t = (Inl SessionInactive, t)"
proof -
  let ?y = "rotate h' until x" and ?t = "put_session sid (rotate h' until x) s"
  have t: "sessions ?t = AList.update sid ?y (sessions s)" by (simp add: put_session_def)
  have d: "distinct (dkeys (sessions ?t))"
    using inv by (simp add: t ownership_inv_def distinct_update)
  have y: "map_of (sessions ?t) sid = Some ?y" by (simp add: t)
  have only': "g \<notin> hash_of z" if "g \<in> {h, h'}" "map_of (sessions ?t) k = Some z" "k \<noteq> sid" for g k z
    using that only [rule_format, of k z] by (auto simp: t)
  have "find_refresh h' now ?t = Some \<lparr>rl_session = ?y, rl_matched_previous = False\<rparr>"
    unfolding find_refresh_def
    by (subst find_session_unique [OF y d only']) (simp_all add: rotate_def)
  moreover have "find_refresh h now ?t =
      (if now < until then Some \<lparr>rl_session = ?y, rl_matched_previous = True\<rparr> else None)"
    unfolding find_refresh_def
    by (subst find_session_unique [OF y d only']) (use new h in \<open>simp_all add: rotate_def\<close>)
  moreover have "rotate_refresh sid h h'' until' ?t = (Inl SessionInactive, ?t)"
    using y new by (simp add: rotate_refresh_def rotate_def)
  ultimately show ?thesis
    using x h y by (simp add: rotate_refresh_def Let_def get_session_def)
qed

theorem refresh_rotation_witness:
  "find_refresh [36] 4 (snd (rotate_refresh [32] [36] [39] 5 demo_account)) \<noteq> None"
proof -
  have x: "map_of (sessions demo_account) [32] = Some (new_session [32] [31] User [36] (days 30))"
    "s_refresh_hash (new_session [32] [31] User [36] (days 30)) = [36]"
    by (simp_all add: demo_account_tables new_session_def)
  have "\<forall>k y. map_of (sessions demo_account) k = Some y \<longrightarrow> k \<noteq> [32] \<longrightarrow> [36] \<notin> hash_of y \<and> [39] \<notin> hash_of y"
    by (auto simp: demo_account_tables hash_of_def new_session_def split: if_splits)
  from refresh_rotation [where h' = "[39]" and h'' = "[40]" and until = 5 and until' = 6 and now = 4, OF demo_account_inv x _ this]
  show ?thesis by (cases "rotate_refresh [32] [36] [39] 5 demo_account") (auto split: sum.splits)
qed

section \<open>Accounts\<close>

text \<open>C15: A registered name finds its user and its owner, cannot be registered again, and is free again
  once the owner is deleted.\<close>

theorem username_lifecycle:
  assumes inv: "ownership_inv s" and ids: "fresh_owner_ids oid sid s"
    and reg: "register_user oid sid un ud pw h until rs ra s = (Inr (user, session), t)"
  shows "find_user_by_name un t = Some user \<and> u_owner_id user = oid \<and> get_user oid t = Some user
    \<and> (\<exists>w. get_owner oid t = Some w \<and> o_kind w = User \<and> o_lifecycle_state w = Active)
    \<and> register_user oid' sid' un ud' pw' h' until' rs' ra' t = (Inl UsernameTaken, t)
    \<and> (\<forall>name. find_user_by_name name (delete_owner oid t) = find_user_by_name name s)
    \<and> (\<exists>res u. register_user oid' sid' un ud' pw' h' until' rs' ra' (delete_owner oid t) = (Inr res, u))"
proof -
  have frame: "users (revoke_if_active rs ra z) = users z" "users_by_name (revoke_if_active rs ra z) = users_by_name z"
    for z by (simp_all add: revoke_if_active_def put_session_def split: option.split)
  have free: "users_by_name s un = None"
    using reg by (auto simp: register_user_def split: if_splits)
  have t: "users t = (users s)(oid \<mapsto> user)" "users_by_name t = (users_by_name s)(un \<mapsto> oid)"
    "owners t = AList.update oid (new_owner oid User) (owners s)"
    "u_owner_id user = oid" "u_username_normalized user = un"
    using reg free by (auto simp: register_user_def Let_def frame domIff)
  have no: "users s oid = None" using no_owner_no_user [OF inv] ids by (simp add: fresh_owner_ids_def)
  have "users_by_name s name \<noteq> Some oid" for name
    using ownership_invD(6) [OF inv, of name oid] no by auto
  then have "find_user_by_name name (delete_owner oid t) = find_user_by_name name s" for name
    using free by (auto simp: find_user_by_name_def delete_owner_def Let_def t split: option.split)
  moreover have "users_by_name (delete_owner oid t) un = None"
    by (simp add: delete_owner_def Let_def t)
  then have "\<exists>res u. register_user oid' sid' un ud' pw' h' until' rs' ra' (delete_owner oid t) = (Inr res, u)"
    by (simp add: register_user_def Let_def domIff)
  ultimately show ?thesis
    by (simp add: find_user_by_name_def get_user_def get_owner_def t new_owner_def register_user_def)
qed

theorem username_lifecycle_witness:
  "\<exists>user session t. register_user [31] [32] (lit ''ann'') (lit ''Ann'') [35] [36] (days 30) None 0 empty_state
      = (Inr (user, session), t) \<and> find_user_by_name (lit ''ann'') t = Some user"
proof -
  let ?u = "\<lparr>u_owner_id = [31], u_username_normalized = lit ''ann'', u_username_display = lit ''Ann'',
     u_password_hash = [35]\<rparr>"
  have "\<exists>t. register_user [31] [32] (lit ''ann'') (lit ''Ann'') [35] [36] (days 30) None 0 empty_state
      = (Inr (?u, new_session [32] [31] User [36] (days 30)), t)"
    by (simp add: register_user_def Let_def empty_state_def)
  then obtain t where t: "register_user [31] [32] (lit ''ann'') (lit ''Ann'') [35] [36] (days 30) None 0 empty_state
      = (Inr (?u, new_session [32] [31] User [36] (days 30)), t)" ..
  have "fresh_owner_ids [31] [32] empty_state" by (simp add: fresh_owner_ids_def empty_state_def)
  from username_lifecycle [OF empty_ownership_inv this t] t show ?thesis by blast
qed

text \<open>A guest nobody can use any more: no conversation, no session that is neither revoked nor expired.\<close>

definition orphaned :: "datetime \<Rightarrow> platform_state \<Rightarrow> str \<Rightarrow> bool" where
  "orphaned now s k \<longleftrightarrow> (\<exists>w. map_of (owners s) k = Some w \<and> o_kind w \<noteq> User)
     \<and> (\<forall>c \<in> set (dvalues (conversations s)). c_owner_id c \<noteq> k)
     \<and> (\<forall>sid x. map_of (sessions s) sid = Some x \<and> s_owner_id x = k \<longrightarrow>
          s_revoked_at x \<noteq> None \<or> s_expires_at x \<le> now)"

text \<open>C16: The clean-up deletes exactly the guests that own no conversation and have no live session,
  with all their sessions; every user, every other owner and every other session stays.\<close>

theorem orphan_guests_exact:
  assumes inv: "ownership_inv s"
  shows "(\<forall>k. map_of (owners (snd (delete_orphan_guests now s))) k =
        (if orphaned now s k then None else map_of (owners s) k))
    \<and> (\<forall>sid. map_of (sessions (snd (delete_orphan_guests now s))) sid =
        (case map_of (sessions s) sid of None \<Rightarrow> None
         | Some x \<Rightarrow> if orphaned now s (s_owner_id x) then None else Some x))
    \<and> users (snd (delete_orphan_guests now s)) = users s
    \<and> fst (delete_orphan_guests now s) = card {k. orphaned now s k}"
proof -
  note d = map_of_ddrop [OF ownership_invD(1) [OF inv]] map_of_ddrop [OF ownership_invD(2) [OF inv]]
  have o: "k \<in> set (orphan_guests now s) \<longleftrightarrow> orphaned now s k" for k
    unfolding orphaned_def by (rule orphan_guests_iff [OF inv])
  have "distinct (orphan_guests now s)"
    using ownership_invD(1) [OF inv] by (simp add: orphan_guests_def Let_def distinct_map_filter)
  moreover have "set (orphan_guests now s) = {k. orphaned now s k}" using o by auto
  ultimately have "length (orphan_guests now s) = card {k. orphaned now s k}"
    by (metis distinct_card)
  then show ?thesis
    by (simp add: delete_orphan_guests_def Let_def d o split: option.split)
qed

theorem orphan_guests_exact_witness:
  "map_of (owners (snd (delete_orphan_guests (days 31) demo_guest))) [1] = None"
proof -
  have "ownership_inv demo_guest"
    using create_guest_inv [OF empty_ownership_inv, of "[1]" "[2]" Guest "[100]" "days 30"] demo_create_guest
    by (simp add: fresh_owner_ids_def empty_state_def)
  moreover have "orphaned (days 31) demo_guest [1]"
    by (simp add: orphaned_def demo_guest_def empty_state_def new_owner_def new_session_def days_def
        seconds_def)
  ultimately show ?thesis using orphan_guests_exact [of demo_guest "days 31"] by simp
qed

end
