(* ===== verification/Rules_Properties.thy ===== *)
theory Rules_Properties
  imports Conversation_Rules
begin

text \<open>
  What the input rules of conversations guarantee: an identifier is accepted exactly when it is the
  canonical text of a 128-bit number, accepted messages and titles are trimmed and within their
  limits, and an automatic title is one short line of words.
\<close>

section \<open>Identifiers\<close>

lemma length_hex_format [simp]: "length (hex_format n x) = n"
  by (induction n arbitrary: x) auto

lemma hex_format_digits: "c \<in> set (hex_format n x) \<Longrightarrow> \<exists>d<16. c = hex_digit d"
  by (induction n arbitrary: x) (auto, metis mod_less_divisor zero_less_numeral)

lemma is_hex_digit: "d < 16 \<Longrightarrow> is_hex (hex_digit d)"
  by (auto simp: is_hex_def hex_digit_def)

lemma hex_val_digit: "d < 16 \<Longrightarrow> hex_val (hex_digit d) = d"
  by (auto simp: hex_val_def hex_digit_def)

lemma hex_parse_snoc: "hex_parse (s @ [c]) = 16 * hex_parse s + hex_val c"
  by (simp add: hex_parse_def)

lemma hex_parse_format: "hex_parse (hex_format n x) = x mod 16 ^ n"
proof (induction n arbitrary: x)
  case 0
  then show ?case by (simp add: hex_parse_def)
next
  case (Suc n)
  have "hex_parse (hex_format (Suc n) x) = 16 * (x div 16 mod 16 ^ n) + x mod 16"
    by (simp add: hex_parse_snoc Suc hex_val_digit)
  also have "\<dots> = x mod 16 ^ Suc n"
    by (simp add: mod_mult2_eq)
  finally show ?case .
qed

lemma hex_format_hex: "list_all is_hex (hex_format n x)"
  using hex_format_digits is_hex_digit by (fastforce simp: list_all_iff)

lemma uuid_str_chars: "c \<in> set (uuid_str x) \<Longrightarrow> is_hex c \<or> c = hyphen"
  using hex_format_hex [of 32 x]
  by (auto simp: uuid_str_def Let_def list_all_iff dest!: in_set_takeD in_set_dropD)

lemma remove_all_id:
  assumes "p \<noteq> []" and "hd p \<notin> set s"
  shows "remove_all p s = s"
  using assms
proof (induction s)
  case (Cons c s)
  have "take (length p) (c # s) \<noteq> p" using Cons.prems by (cases p) auto
  with Cons show ?case by simp
qed simp

lemma filter_hyphen_uuid: "filter (\<lambda>c. c \<noteq> hyphen) (uuid_str x) = hex_format 32 x"
proof -
  let ?h = "hex_format 32 x"
  have "c \<noteq> hyphen" if "c \<in> set ?h" for c
    using that hex_format_hex [of 32 x] by (auto simp: list_all_iff is_hex_def hyphen_def)
  then have keep: "filter (\<lambda>c. c \<noteq> hyphen) t = t" if "set t \<subseteq> set ?h" for t
    using that by (auto simp: filter_id_conv)
  have sub: "set (take a (drop b ?h)) \<subseteq> set ?h" "set (take a ?h) \<subseteq> set ?h" "set (drop b ?h) \<subseteq> set ?h" for a b
    by (auto dest: in_set_takeD in_set_dropD)
  have "take 8 ?h @ take 4 (drop 8 ?h) @ take 4 (drop 12 ?h) @ take 4 (drop 16 ?h) @ drop 20 ?h = ?h"
  proof -
    have "take a (drop b ?h) @ drop (b + a) ?h = drop b ?h" for a b
      by (metis append_take_drop_id drop_drop add.commute)
    from this [of 8 0] this [of 4 8] this [of 4 12] this [of 4 16] show ?thesis by simp
  qed
  then show ?thesis
    by (simp add: uuid_str_def Let_def keep [OF sub(1)] keep [OF sub(2)] keep [OF sub(3)])
qed

lemma UUID_uuid_str:
  assumes parse: "\<And>h. length h = 32 \<Longrightarrow> list_all is_hex h \<Longrightarrow> int16 h = Some (hex_parse h)"
    and x: "x < 2 ^ 128"
  shows "UUID int16 (uuid_str x) = Some x"
proof -
  have no: "c \<notin> set (uuid_str x)" if "\<not> is_hex c" "c \<noteq> hyphen" for c
    using that uuid_str_chars by blast
  have "remove_all (lit ''urn:'') (uuid_str x) = uuid_str x"
    "remove_all (lit ''uuid:'') (uuid_str x) = uuid_str x"
    by (rule remove_all_id; use no in \<open>simp add: lit_def is_hex_def hyphen_def\<close>)+
  moreover have brace: "dropWhile (\<lambda>c. c = 123 \<or> c = 125) t = t" if "set t = set (uuid_str x)" for t
  proof -
    have "123 \<notin> set t" "125 \<notin> set t" using no that by (simp_all add: is_hex_def hyphen_def)
    then show ?thesis by (cases t) auto
  qed
  moreover have "int16 (hex_format 32 x) = Some x"
    using parse [of "hex_format 32 x"] hex_format_hex x
    by (simp add: hex_parse_format power_mult [of 2 4 32, simplified])
  ultimately show ?thesis using x by (simp add: UUID_def Let_def filter_hyphen_uuid)
qed

text \<open>C17: When \<open>int(_, 16)\<close> reads 32 lower-case hexadecimal digits as the number they denote, an
  identifier is accepted exactly when it is the canonical text of a 128-bit number, and is returned
  unchanged.\<close>

theorem validate_uuid_canonical:
  assumes "\<forall>h. length h = 32 \<longrightarrow> list_all is_hex h \<longrightarrow> int16 h = Some (hex_parse h)"
  shows "validate_uuid err int16 value = (if \<exists>x<2 ^ 128. value = uuid_str x then Inr value else Inl err)"
proof (cases "\<exists>x<2 ^ 128. value = uuid_str x")
  case True
  with UUID_uuid_str [of int16] assms show ?thesis by (auto simp: validate_uuid_def)
next
  case False
  then show ?thesis
    by (auto simp: validate_uuid_def UUID_def Let_def split: option.splits if_splits)
qed

theorem validate_uuid_canonical_witness:
  "validate_uuid InvalidRunId (\<lambda>h. if list_all is_hex h then Some (hex_parse h) else None) (uuid_str 77)
     = Inr (uuid_str 77)
   \<and> length (uuid_str 77) = 36"
proof -
  have "\<forall>h. length h = 32 \<longrightarrow> list_all is_hex h \<longrightarrow>
      (\<lambda>h. if list_all is_hex h then Some (hex_parse h) else None) h = Some (hex_parse h)" by simp
  from validate_uuid_canonical [OF this, of InvalidRunId "uuid_str 77"] show ?thesis
    by (auto simp: uuid_str_def Let_def)
qed

section \<open>Messages and titles\<close>

lemma dropWhile_hd: "dropWhile P xs = y # ys \<Longrightarrow> \<not> P y"
  by (metis dropWhile_eq_Cons_conv)

definition trimmed :: "str \<Rightarrow> bool" where
  "trimmed t \<longleftrightarrow> t = [] \<or> \<not> is_space (hd t) \<and> \<not> is_space (last t)"

lemma strip_trimmed: "trimmed (strip s)"
proof -
  let ?a = "dropWhile is_space s"
  let ?b = "dropWhile is_space (rev ?a)"
  show ?thesis
  proof (cases ?b)
    case Nil
    then show ?thesis by (simp only: trimmed_def strip_def rev.simps simp_thms)
  next
    case (Cons y ys)
    then have y: "\<not> is_space y" by (rule dropWhile_hd)
    have strip: "strip s = rev ys @ [y]" by (simp only: strip_def Cons rev.simps)
    obtain zs where "rev ?a = zs @ y # ys" using Cons by (metis takeWhile_dropWhile_id)
    then have a: "?a = rev ys @ [y] @ rev zs"
      by (metis append.assoc append_Cons append_Nil rev.simps(2) rev_append rev_rev_ident)
    then obtain c t where c: "?a = c # t" "hd (strip s) = c"
      using strip by (cases "rev ys") auto
    then have "\<not> is_space c" using dropWhile_hd [of is_space s] by blast
    then show ?thesis using y c strip by (simp add: trimmed_def)
  qed
qed

lemma strip_id:
  assumes "trimmed t"
  shows "strip t = t"
proof (cases "t = []")
  case False
  then have "dropWhile is_space t = t" using assms by (cases t) (auto simp: trimmed_def)
  moreover have "dropWhile is_space (rev t) = rev t"
    using assms False by (cases t rule: rev_cases) (auto simp: trimmed_def)
  ultimately show ?thesis by (simp add: strip_def)
qed (simp add: strip_def)

lemma strip_empty: "strip s = [] \<longleftrightarrow> list_all is_space s"
proof (cases "dropWhile is_space s")
  case Nil
  then have "\<forall>x \<in> set s. is_space x" by (simp only: dropWhile_eq_Nil_conv)
  moreover have "strip s = []" by (simp only: strip_def Nil rev.simps dropWhile.simps)
  ultimately show ?thesis by (simp add: list_all_iff)
next
  case (Cons c t)
  then have c: "\<not> is_space c" by (rule dropWhile_hd)
  have "c \<in> set s" using Cons set_dropWhileD [of c is_space s] by simp
  with c have "\<not> list_all is_space s" by (auto simp: list_all_iff)
  moreover have "strip s \<noteq> []" using c by (simp add: strip_def Cons)
  ultimately show ?thesis by simp
qed

lemma strip_encodable: "list_all is_space s \<Longrightarrow> utf8_encodable (strip s)"
  using strip_empty [of s] by (simp add: utf8_encodable_def)

text \<open>C18: A message is refused as invalid exactly when it is blank or, its trimmed text having no lone surrogate, that
  text is longer than 32 KiB in UTF-8; with a lone surrogate in it the encoding raises, and that exception escapes. A title is
  refused exactly when it is blank or longer than 120 characters. What is accepted is the trimmed text, and accepting it
  again gives the same.\<close>

theorem message_and_title_rules:
  shows "(case validate_message m of
      Inl e \<Rightarrow> (e = InvalidMessage \<and> (list_all is_space m \<or> utf8_encodable (strip m) \<and> utf8_length (strip m) > 32768))
        \<or> (e = UnicodeEncodeError \<and> (\<exists>c \<in> set (strip m). surrogate c))
    | Inr t \<Rightarrow> t = strip m \<and> t \<noteq> [] \<and> trimmed t \<and> (\<forall>c \<in> set t. \<not> surrogate c) \<and> utf8_length t \<le> 32768
        \<and> validate_message t = Inr t)
   \<and> (case validate_title m of
      Inl e \<Rightarrow> e = InvalidTitle \<and> (list_all is_space m \<or> length (strip m) > 120)
    | Inr t \<Rightarrow> t = strip m \<and> t \<noteq> [] \<and> trimmed t \<and> length t \<le> 120 \<and> validate_title t = Inr t)"
  using strip_trimmed [of m] strip_id [OF strip_trimmed, of m] strip_encodable [of m]
  by (auto simp: validate_message_def validate_title_def Let_def MAX_MESSAGE_BYTES_def
      MAX_TITLE_CHARS_def strip_empty utf8_encodable_def list_all_iff)

theorem message_and_title_rules_witness:
  "validate_message [32, 104, 105, 10] = Inr [104, 105] \<and> validate_message [32, 0xD800] = Inl UnicodeEncodeError"
proof -
  have strips: "strip [32, 104, 105, 10] = [104, 105]" "strip [32, 0xD800] = [0xD800]" by (simp_all add: strip_def is_space_def)
  have plain: "\<not> list_all is_space [32, 104, 105, 10]" "\<not> list_all is_space [32, 0xD800]" "\<not> utf8_length [104, 105] > 32768"
      "\<forall>c \<in> set [104, 105]. \<not> surrogate c" "surrogate 0xD800"
      "\<not> utf8_encodable [0xD800]"
    by (simp_all add: is_space_def utf8_length_def utf8_len_def surrogate_def utf8_encodable_def)
  have "\<exists>t. validate_message [32, 104, 105, 10] = Inr t"
    using message_and_title_rules [of "[32, 104, 105, 10]"] plain unfolding strips by (auto split: sum.splits)
  moreover have "\<exists>e. validate_message [32, 0xD800] = Inl e"
    using message_and_title_rules [of "[32, 0xD800]"] plain unfolding strips by (auto split: sum.splits)
  ultimately show ?thesis
    using message_and_title_rules [of "[32, 104, 105, 10]"] message_and_title_rules [of "[32, 0xD800]"] plain
    unfolding strips by auto
qed

text \<open>The words of an automatic title.\<close>

lemma split_words_cases:
  obtains (blank) "dropWhile is_space s = []" and "split_words s = []"
  | (word) c t where "dropWhile is_space s = c # t" and "\<not> is_space c"
      and "split_words s = takeWhile (\<lambda>c. \<not> is_space c) (c # t)
             # split_words (dropWhile (\<lambda>c. \<not> is_space c) (c # t))"
proof (cases "dropWhile is_space s")
  case Nil
  show ?thesis by (rule blank [OF Nil]) (subst split_words.simps, simp only: Nil list.case)
next
  case (Cons c t)
  show ?thesis
    by (rule word [OF Cons dropWhile_hd [OF Cons]]) (subst split_words.simps, simp only: Cons list.case)
qed

lemma split_words_words: "\<forall>w \<in> set (split_words s). w \<noteq> [] \<and> list_all (\<lambda>c. \<not> is_space c) w"
proof (induction s rule: split_words.induct)
  case (1 s)
  show ?case
  proof (cases rule: split_words_cases [of s])
    case blank
    then show ?thesis by simp
  next
    case (word c t)
    have "list_all (\<lambda>c. \<not> is_space c) (takeWhile (\<lambda>c. \<not> is_space c) (c # t))"
      by (auto simp only: list_all_iff dest: set_takeWhileD)
    moreover have "takeWhile (\<lambda>c. \<not> is_space c) (c # t) \<noteq> []" using word(2) by simp
    ultimately show ?thesis unfolding word(3) using 1 [OF word(1)] by (simp only: list.set ball_simps simp_thms)
  qed
qed

lemma split_words_filter: "concat (split_words s) = filter (\<lambda>c. \<not> is_space c) s"
proof (induction s rule: split_words.induct)
  case (1 s)
  have skip: "filter (\<lambda>c. \<not> is_space c) (dropWhile is_space s) = filter (\<lambda>c. \<not> is_space c) s"
    by (induction s) auto
  show ?case
  proof (cases rule: split_words_cases [of s])
    case blank
    show ?thesis unfolding skip [symmetric] blank by simp
  next
    case (word c t)
    let ?u = "c # t"
    have "filter (\<lambda>c. \<not> is_space c) ?u = filter (\<lambda>c. \<not> is_space c) (takeWhile (\<lambda>c. \<not> is_space c) ?u)
        @ filter (\<lambda>c. \<not> is_space c) (dropWhile (\<lambda>c. \<not> is_space c) ?u)"
      by (metis filter_append takeWhile_dropWhile_id)
    moreover have "filter (\<lambda>c. \<not> is_space c) (takeWhile (\<lambda>c. \<not> is_space c) ?u) = takeWhile (\<lambda>c. \<not> is_space c) ?u"
      by (rule filter_True) (blast dest: set_takeWhileD)
    ultimately show ?thesis
      using 1 [OF word(1)] unfolding skip [symmetric] word(1,3) concat.simps by metis
  qed
qed

lemma join_strs_chars: "c \<in> set (join_strs sep ws) \<Longrightarrow> c \<in> set sep \<or> (\<exists>w\<in>set ws. c \<in> set w)"
  by (induction sep ws rule: join_strs.induct) auto

lemma join_strs_filter:
  "list_all is_space sep \<Longrightarrow> filter (\<lambda>c. \<not> is_space c) (join_strs sep ws) = filter (\<lambda>c. \<not> is_space c) (concat ws)"
  by (induction sep ws rule: join_strs.induct) (auto simp: list_all_iff filter_empty_conv)

text \<open>Splitting a line of words at its blanks gives the words back.\<close>

definition plain_word :: "str \<Rightarrow> bool" where
  "plain_word w \<longleftrightarrow> w \<noteq> [] \<and> list_all (\<lambda>c. \<not> is_space c) w"

lemma split_words_plain:
  assumes "plain_word w"
  shows "split_words w = [w]" and "split_words (w @ 32 # s) = w # split_words s"
proof -
  have all: "\<forall>c \<in> set w. \<not> is_space c" using assms by (simp add: plain_word_def list_all_iff)
  have here: "dropWhile is_space (w @ s') = w @ s'" for s'
    using assms by (cases w) (simp_all add: plain_word_def)
  have blank: "is_space 32" by (simp add: is_space_def)
  have skip: "split_words (32 # s) = split_words s"
    by (subst (1 2) split_words.simps) (simp add: blank)
  have word: "split_words (w @ s') = takeWhile (\<lambda>c. \<not> is_space c) (w @ s') # split_words (dropWhile (\<lambda>c. \<not> is_space c) (w @ s'))" for s'
    using assms by (subst split_words.simps) (simp add: here plain_word_def split: list.split)
  have nil: "split_words [] = []" by (subst split_words.simps) simp
  show "split_words w = [w]" using word [of "[]"] all nil
    by (simp add: takeWhile_eq_all_conv [THEN iffD2] dropWhile_eq_Nil_conv [THEN iffD2])
  show "split_words (w @ 32 # s) = w # split_words s"
    using word [of "32 # s"] all skip blank by simp
qed

lemma split_join: "\<forall>w \<in> set ws. plain_word w \<Longrightarrow> split_words (join_strs (lit '' '') ws) = ws"
proof (induction "lit '' ''" ws rule: join_strs.induct)
  case 1
  show ?case by (subst split_words.simps) simp
next
  case (2 w)
  then show ?case using split_words_plain(1) by simp
next
  case (3 w v ws)
  have "lit '' '' = [32]" by (simp add: lit_def)
  with 3 split_words_plain(2) [of w] show ?case by simp
qed

text \<open>C19: The automatic title of a content is its words with one blank between them when that line has at most 40
  characters: then the title has exactly the words of the content and is its own title. Otherwise it has 43 characters, the
  first 40 of that line, of which more follows, and three dots. It has no white space but blanks.\<close>

theorem automatic_title_shape:
  "(\<forall>c \<in> set (automatic_title content). is_space c \<longrightarrow> c = 32)
   \<and> (\<exists>line. split_words line = split_words content \<and> (\<forall>c \<in> set line. is_space c \<longrightarrow> c = 32)
        \<and> length line + 1 = length (concat (split_words content)) + max 1 (length (split_words content))
        \<and> (if length line \<le> 40 then automatic_title content = line \<and> automatic_title line = line
           else length (automatic_title content) = 43 \<and> automatic_title content = take 40 line @ lit ''...''))"
proof -
  let ?ws = "split_words content" and ?line = "join_strs (lit '' '') (split_words content)"
  have plain: "\<forall>w \<in> set ?ws. plain_word w" using split_words_words [of content] by (simp add: plain_word_def)
  have blanks: "c = 32" if "c \<in> set ?line" "is_space c" for c
    using join_strs_chars [OF that(1)] split_words_words that(2)
    by (fastforce simp: lit_def list_all_iff)
  have len: "length (join_strs (lit '' '') ws) + 1 = length (concat ws) + max 1 (length ws)" for ws
    by (induction "lit '' ''" ws rule: join_strs.induct) (simp_all add: lit_def)
  have dots: "\<forall>c \<in> set (lit ''...''). \<not> is_space c" by (simp add: lit_def is_space_def)
  have title: "automatic_title content = (if length ?line \<le> 40 then ?line else take 40 ?line @ lit ''...'')"
    by (simp add: automatic_title_def Let_def)
  have "\<forall>c \<in> set (automatic_title content). is_space c \<longrightarrow> c = 32"
    using blanks dots unfolding title by (auto dest: in_set_takeD)
  moreover have "automatic_title ?line = ?line" if "length ?line \<le> 40"
    using that split_join [OF plain] by (simp add: automatic_title_def Let_def)
  moreover have "length (take 40 ?line @ lit ''...'') = 43" if "\<not> length ?line \<le> 40"
    using that by (simp add: lit_def)
  ultimately show ?thesis
    using split_join [OF plain] blanks len [of ?ws] title by (intro conjI exI [of _ ?line]) auto
qed

theorem automatic_title_shape_witness:
  "split_words (automatic_title (lit '' hello   world'')) = [lit ''hello'', lit ''world'']"
proof -
  have words: "split_words (lit '' hello   world'') = [lit ''hello'', lit ''world'']"
    by (simp add: lit_def split_words.simps is_space_def)
  let ?c = "lit '' hello   world''"
  obtain line where line: "split_words line = split_words ?c"
    "length line + 1 = length (concat (split_words ?c)) + max 1 (length (split_words ?c))"
    "if length line \<le> 40 then automatic_title ?c = line \<and> automatic_title line = line
     else length (automatic_title ?c) = 43 \<and> automatic_title ?c = take 40 line @ lit ''...''"
    using automatic_title_shape [of ?c] by blast
  have "length line + 1 = 12" unfolding line(2) words by (simp add: lit_def)
  then have "length line \<le> 40" by simp
  with line(3) have "automatic_title ?c = line" by (simp only: if_True)
  with line(1) words show ?thesis by (simp only:)
qed

end
