(* ===== verification/Plan_State.thy ===== *)
theory Plan_State
  imports Prelude
begin

text \<open>
  \<open>src/src/agent/state.py\<close>: the values of one planned run (plan, nodes, outcomes, clarification) and
  the reducer \<open>merge_node_outcomes\<close>, which merges what a replayed graph node reports into the facts of
  the checkpoint and refuses two different facts for one logical attempt.

  Field prefixes: \<open>ti_\<close> TaskInput, \<open>n_\<close> PlanNode, \<open>p_\<close> Plan, \<open>no_\<close> NodeOutcome, \<open>rf_\<close> RunFailure,
  \<open>cr_\<close> ClarificationRequest, \<open>ca_\<close> ClarificationAnswer, \<open>rs_\<close> RunState (the keys the planning layer
  reads and writes; an absent key reads as \<open>None\<close> through \<open>state.get\<close>).
\<close>

section \<open>Values\<close>

record task_input =
  ti_input_message_id :: str
  ti_content :: str
  ti_attachment_refs :: "str list"
  ti_plan_mode :: bool

record plan_node =
  n_node_id :: str
  n_objective :: str
  n_node_type :: str
  n_tool :: "str option"
  n_agent_name :: "str option"
  n_arguments_json :: str
  n_depends_on :: "str list"
  n_race_group :: "str option"

record plan =
  p_revision :: int
  p_goal :: str
  p_nodes :: "plan_node list"

record node_outcome =
  no_plan_revision :: int
  no_node_id :: str
  no_logical_attempt :: int
  no_outcome :: str
  no_observation :: str
  no_retryable :: bool
  no_tool_call_id :: "str option"
  no_artifact_refs :: "str list"
  no_evidence_refs :: "str list"
  no_error_code :: "str option"

record run_failure =
  rf_code :: str
  rf_message :: str
  rf_retryable :: bool
  rf_failed_node_id :: "str option"
  rf_source_ref :: "str option"

record clarification_request =
  cr_question :: str
  cr_options :: "str list"
  cr_multi_select :: bool
  cr_allow_custom :: bool
  cr_allow_skip :: bool

record clarification_answer =
  ca_selected :: "str list"
  ca_custom :: "str option"
  ca_skipped :: bool

record run_state =
  rs_task_input :: "task_input option"
  rs_phase :: "str option"
  rs_plan :: "plan option"
  rs_plan_branch :: "str option"
  rs_replan_action :: "str option"
  rs_replans_used :: "int option"
  rs_node_outcomes :: "node_outcome list"
  rs_clarification_answer :: "clarification_answer option"
  rs_failure :: "run_failure option"

definition SUCCEEDED :: str where "SUCCEEDED = lit ''succeeded''"
definition FAILED :: str where "FAILED = lit ''failed''"
definition SKIPPED :: str where "SKIPPED = lit ''skipped''"

lemma outcomes_distinct [simp]:
  "SUCCEEDED \<noteq> FAILED" "SUCCEEDED \<noteq> SKIPPED" "FAILED \<noteq> SKIPPED"
  "FAILED \<noteq> SUCCEEDED" "SKIPPED \<noteq> SUCCEEDED" "SKIPPED \<noteq> FAILED"
  by (simp_all add: SUCCEEDED_def FAILED_def SKIPPED_def)

text \<open>\<open>ClarificationAnswer.as_text\<close>. The Chinese sentences are given by their code points.\<close>

definition skip_text :: str where
  "skip_text = [65288, 29992, 25143, 36873, 25321, 24573, 30053, 28548, 28165, 65292, 35831, 25353,
     20320, 30340, 21028, 26029, 32487, 32493, 20219, 21153, 12290, 65289]"

definition nothing_text :: str where
  "nothing_text = [65288, 29992, 25143, 26410, 25552, 20379, 34917, 20805, 20449, 24687, 65292, 35831,
     25353, 20320, 30340, 21028, 26029, 32487, 32493, 20219, 21153, 12290, 65289]"

definition chosen_text :: str where
  "chosen_text = [29992, 25143, 34917, 20805, 65306, 36873, 25321, 20102, 32]"

definition quote_item :: "str \<Rightarrow> str" where
  "quote_item item = [12300] @ item @ [12301]"

definition as_text :: "clarification_answer \<Rightarrow> str" where
  "as_text answer =
     (if ca_skipped answer then skip_text
      else let parts = map quote_item (ca_selected answer)
                 @ (case ca_custom answer of None \<Rightarrow> [] | Some c \<Rightarrow> if c = [] then [] else [quote_item c])
           in if parts = [] then nothing_text
              else chosen_text @ join_strs [12289] parts @ [12290])"

section \<open>Merging outcomes\<close>

type_synonym outcome_key = "int \<times> str \<times> int"

definition outcome_key :: "node_outcome \<Rightarrow> outcome_key" where
  "outcome_key item = (no_plan_revision item, no_node_id item, no_logical_attempt item)"

text \<open>\<open>StateConsistencyError\<close> carries the key of the conflicting outcome.\<close>

datatype state_error = StateConsistencyError outcome_key

definition by_key :: "node_outcome list \<Rightarrow> (outcome_key, node_outcome) dict" where
  "by_key items = fold (\<lambda>item. AList.update (outcome_key item) item) items []"

fun merge_into ::
  "node_outcome list \<Rightarrow> (outcome_key, node_outcome) dict
   \<Rightarrow> state_error + (outcome_key, node_outcome) dict" where
  "merge_into [] merged = Inr merged"
| "merge_into (item # update) merged =
     (case map_of merged (outcome_key item) of
        Some existing \<Rightarrow>
          if existing \<noteq> item then Inl (StateConsistencyError (outcome_key item))
          else merge_into update (AList.update (outcome_key item) item merged)
      | None \<Rightarrow> merge_into update (AList.update (outcome_key item) item merged))"

definition merge_node_outcomes ::
  "node_outcome list \<Rightarrow> node_outcome list \<Rightarrow> state_error + node_outcome list" where
  "merge_node_outcomes current update =
     (case merge_into update (by_key current) of
        Inl e \<Rightarrow> Inl e
      | Inr merged \<Rightarrow> Inr (map (\<lambda>key. the (map_of merged key)) (sort (dkeys merged))))"

text \<open>The facts a list of outcomes states: one outcome per key.\<close>

definition functional_outcomes :: "node_outcome set \<Rightarrow> bool" where
  "functional_outcomes S \<longleftrightarrow> (\<forall>x \<in> S. \<forall>y \<in> S. outcome_key x = outcome_key y \<longrightarrow> x = y)"

definition keyed :: "(outcome_key, node_outcome) dict \<Rightarrow> bool" where
  "keyed d \<longleftrightarrow> distinct (dkeys d) \<and> (\<forall>k x. map_of d k = Some x \<longrightarrow> outcome_key x = k)"

definition facts :: "(outcome_key, node_outcome) dict \<Rightarrow> node_outcome set" where
  "facts d = {x. map_of d (outcome_key x) = Some x}"

lemma keyedD: "keyed d \<Longrightarrow> map_of d k = Some x \<Longrightarrow> outcome_key x = k"
  unfolding keyed_def by blast

lemma keyedI:
  "distinct (dkeys d) \<Longrightarrow> (\<And>k x. map_of d k = Some x \<Longrightarrow> outcome_key x = k) \<Longrightarrow> keyed d"
  unfolding keyed_def by blast

lemma keyed_distinct: "keyed d \<Longrightarrow> distinct (dkeys d)"
  unfolding keyed_def by blast

lemma keyed_update:
  assumes "keyed d"
  shows "keyed (AList.update (outcome_key x) x d)"
proof (rule keyedI)
  show "distinct (dkeys (AList.update (outcome_key x) x d))"
    by (rule distinct_update [OF keyed_distinct [OF assms]])
  show "outcome_key y = k" if "map_of (AList.update (outcome_key x) x d) k = Some y" for k y
    using that keyedD [OF assms, of k y] unfolding map_of_update by (metis option.inject)
qed

lemma facts_update:
  assumes "map_of d (outcome_key x) = None \<or> map_of d (outcome_key x) = Some x"
  shows "facts (AList.update (outcome_key x) x d) = insert x (facts d)"
proof (intro set_eqI iffI)
  fix y
  show "y \<in> insert x (facts d)" if "y \<in> facts (AList.update (outcome_key x) x d)"
    using that by (simp add: facts_def split: if_splits)
  show "y \<in> facts (AList.update (outcome_key x) x d)" if "y \<in> insert x (facts d)"
  proof (cases "outcome_key y = outcome_key x")
    case True
    have "y = x"
    proof (rule ccontr)
      assume "y \<noteq> x"
      with that have "map_of d (outcome_key y) = Some y" by (simp add: facts_def)
      then have "map_of d (outcome_key x) = Some y" by (simp only: True)
      with assms \<open>y \<noteq> x\<close> show False by simp
    qed
    then show ?thesis by (simp add: facts_def)
  next
    case False
    with that have "map_of d (outcome_key y) = Some y" by (auto simp: facts_def)
    with False show ?thesis by (simp add: facts_def)
  qed
qed

lemma merge_into_Inr:
  assumes "keyed d" and "merge_into update d = Inr m"
  shows "keyed m \<and> facts m = facts d \<union> set update"
  using assms
proof (induction update arbitrary: d)
  case (Cons item update)
  then have old: "map_of d (outcome_key item) = None \<or> map_of d (outcome_key item) = Some item"
    and rest: "merge_into update (AList.update (outcome_key item) item d) = Inr m"
    by (auto split: option.splits if_splits)
  from Cons.IH [OF keyed_update [OF Cons.prems(1)] rest] facts_update [OF old] show ?case by simp
qed simp

lemma merge_into_Inl:
  assumes "keyed d" and "merge_into update d = Inl e"
  shows "\<not> functional_outcomes (facts d \<union> set update)"
  using assms
proof (induction update arbitrary: d)
  case (Cons item update)
  show ?case
  proof (cases "\<exists>y. map_of d (outcome_key item) = Some y \<and> y \<noteq> item")
    case True
    then obtain y where y: "map_of d (outcome_key item) = Some y" "y \<noteq> item" by blast
    then have "outcome_key y = outcome_key item" using keyedD [OF Cons.prems(1)] by blast
    with y show ?thesis by (auto simp: functional_outcomes_def facts_def)
  next
    case False
    then have old: "map_of d (outcome_key item) = None \<or> map_of d (outcome_key item) = Some item"
      by (cases "map_of d (outcome_key item)") auto
    then have "merge_into update (AList.update (outcome_key item) item d) = Inl e"
      using Cons.prems(2) by (auto split: option.splits if_splits)
    from Cons.IH [OF keyed_update [OF Cons.prems(1)] this] facts_update [OF old]
    show ?thesis by simp
  qed
qed simp

lemma by_key_facts:
  assumes "functional_outcomes (set items)"
  shows "keyed (by_key items) \<and> facts (by_key items) = set items"
proof -
  have "keyed (fold (\<lambda>item. AList.update (outcome_key item) item) items d)
      \<and> facts (fold (\<lambda>item. AList.update (outcome_key item) item) items d) = facts d \<union> set items"
    if "keyed d" "functional_outcomes (facts d \<union> set items)" for d
    using that
  proof (induction items arbitrary: d)
    case (Cons x items)
    have old: "map_of d (outcome_key x) = None \<or> map_of d (outcome_key x) = Some x"
    proof (cases "map_of d (outcome_key x)")
      case (Some y)
      then have "outcome_key y = outcome_key x" "y \<in> facts d"
        using keyedD [OF Cons.prems(1), of _ y] by (simp_all add: facts_def)
      then have "y = x" using Cons.prems(2) by (auto simp: functional_outcomes_def)
      with Some show ?thesis by simp
    qed simp
    have "functional_outcomes (facts (AList.update (outcome_key x) x d) \<union> set items)"
      using Cons.prems(2) by (simp add: facts_update [OF old])
    from Cons.IH [OF keyed_update [OF Cons.prems(1)] this] facts_update [OF old] show ?case by simp
  qed simp
  moreover have "keyed []" "facts [] = {}" by (simp_all add: keyed_def facts_def)
  ultimately show ?thesis using assms by (simp add: by_key_def)
qed

text \<open>A canonical list of outcomes: in the order of the keys, one per key.\<close>

definition canonical :: "node_outcome list \<Rightarrow> bool" where
  "canonical xs \<longleftrightarrow> sorted (map outcome_key xs) \<and> distinct (map outcome_key xs)"

lemma canonical_functional: "canonical xs \<Longrightarrow> functional_outcomes (set xs)"
  by (auto simp: canonical_def functional_outcomes_def distinct_map inj_on_def)

lemma canonical_unique:
  assumes "canonical xs" and "canonical ys" and "set xs = set ys"
  shows "xs = ys"
proof -
  have keys: "map outcome_key xs = map outcome_key ys"
    using assms by (intro sorted_distinct_set_unique) (auto simp: canonical_def)
  have "inj_on outcome_key (set xs \<union> set ys)"
    using assms by (simp add: canonical_def distinct_map)
  then show ?thesis using keys by (simp add: inj_on_map_eq_map)
qed

lemma listed_facts:
  assumes "keyed m"
  shows "canonical (map (\<lambda>key. the (map_of m key)) (sort (dkeys m)))
    \<and> set (map (\<lambda>key. the (map_of m key)) (sort (dkeys m))) = facts m"
proof -
  have key: "outcome_key (the (map_of m k)) = k" if "k \<in> set (dkeys m)" for k
    using that keyedD [OF assms, of k] unfolding dkeys_iff by (cases "map_of m k") simp_all
  then have "map (outcome_key \<circ> (\<lambda>key. the (map_of m key))) (sort (dkeys m)) = sort (dkeys m)"
    by (intro map_idI) simp
  then have "canonical (map (\<lambda>key. the (map_of m key)) (sort (dkeys m)))"
    using keyed_distinct [OF assms] by (simp add: canonical_def)
  moreover have "(\<lambda>key. the (map_of m key)) ` set (dkeys m) = facts m"
  proof (intro set_eqI iffI)
    fix x assume "x \<in> (\<lambda>key. the (map_of m key)) ` set (dkeys m)"
    then obtain k y where "map_of m k = Some y" "x = y"
      unfolding image_iff Bex_def dkeys_iff by force
    then show "x \<in> facts m" using keyedD [OF assms, of k y] by (simp add: facts_def)
  next
    fix x assume "x \<in> facts m"
    then have "outcome_key x \<in> set (dkeys m)" "x = the (map_of m (outcome_key x))"
      unfolding dkeys_iff by (auto simp: facts_def)
    then show "x \<in> (\<lambda>key. the (map_of m key)) ` set (dkeys m)" by blast
  qed
  ultimately show ?thesis by simp
qed

text \<open>What the reducer computes: the canonical list of the union, or an error on a fork.\<close>

lemma merge_spec:
  assumes "functional_outcomes (set current)"
  shows "case merge_node_outcomes current update of
      Inl e \<Rightarrow> \<not> functional_outcomes (set current \<union> set update)
    | Inr m \<Rightarrow> canonical m \<and> set m = set current \<union> set update"
proof -
  note start = by_key_facts [OF assms]
  show ?thesis
  proof (cases "merge_into update (by_key current)")
    case (Inl e)
    with merge_into_Inl [of "by_key current" update e] start show ?thesis
      by (simp add: merge_node_outcomes_def)
  next
    case (Inr m)
    with merge_into_Inr [of "by_key current" update m] start have "keyed m" "facts m = set current \<union> set update"
      by auto
    with listed_facts [of m] Inr show ?thesis by (simp add: merge_node_outcomes_def)
  qed
qed

lemma merge_functional:
  assumes "functional_outcomes (set current \<union> set update)"
  obtains m where "merge_node_outcomes current update = Inr m" and "canonical m"
    and "set m = set current \<union> set update"
proof -
  have "functional_outcomes (set current)" using assms by (auto simp: functional_outcomes_def)
  from merge_spec [OF this, of update] assms that show thesis
    by (cases "merge_node_outcomes current update") auto
qed

text \<open>C20: Merging outcomes keeps every fact and adds the new ones, in the order of revision, node and
  attempt and without repetition, or refuses exactly when two different facts share a key; merging
  the same update again (a replayed checkpoint) changes nothing, and two updates give the same facts
  in either order.\<close>

theorem merge_outcomes_replay:
  assumes "canonical current"
  shows "case merge_node_outcomes current a of
      Inl e \<Rightarrow> \<not> functional_outcomes (set current \<union> set a)
    | Inr m \<Rightarrow> canonical m \<and> set m = set current \<union> set a \<and> merge_node_outcomes m a = Inr m
        \<and> (\<forall>n. merge_node_outcomes m b = Inr n \<longrightarrow>
             (\<exists>k. merge_node_outcomes current b = Inr k \<and> merge_node_outcomes k a = Inr n))"
proof (cases "merge_node_outcomes current a")
  case (Inl e)
  with merge_spec [OF canonical_functional [OF assms], of a] show ?thesis by simp
next
  case (Inr m)
  with merge_spec [OF canonical_functional [OF assms], of a]
  have m: "canonical m" "set m = set current \<union> set a" by simp_all
  have again: "merge_node_outcomes m a = Inr m"
  proof -
    have "set m \<union> set a = set m" using m(2) by blast
    then have "functional_outcomes (set m \<union> set a)" using canonical_functional [OF m(1)] by simp
    then obtain n where n: "merge_node_outcomes m a = Inr n" "canonical n" "set n = set m \<union> set a"
      by (rule merge_functional)
    moreover have "n = m" using n m \<open>set m \<union> set a = set m\<close> canonical_unique by metis
    ultimately show ?thesis by simp
  qed
  have "\<exists>k. merge_node_outcomes current b = Inr k \<and> merge_node_outcomes k a = Inr n"
    if n: "merge_node_outcomes m b = Inr n" for n
  proof -
    from merge_spec [OF canonical_functional [OF m(1)], of b] n
    have n': "canonical n" "set n = set current \<union> set a \<union> set b" using m(2) by auto
    then have fun_n: "functional_outcomes (set current \<union> set a \<union> set b)" using canonical_functional by metis
    then have "functional_outcomes (set current \<union> set b)" by (auto simp: functional_outcomes_def)
    then obtain k where k: "merge_node_outcomes current b = Inr k" "set k = set current \<union> set b"
      by (rule merge_functional)
    have sets: "set k \<union> set a = set current \<union> set a \<union> set b" using k(2) by auto
    then obtain l where l: "merge_node_outcomes k a = Inr l" "canonical l" "set l = set k \<union> set a"
      using merge_functional [of k a] fun_n by auto
    then have "l = n" using n' sets canonical_unique by metis
    with k l show ?thesis by blast
  qed
  with Inr m again show ?thesis by simp
qed

definition demo_outcome :: "str \<Rightarrow> str \<Rightarrow> node_outcome" where
  "demo_outcome node_id outcome = \<lparr>no_plan_revision = 1, no_node_id = node_id, no_logical_attempt = 0,
     no_outcome = outcome, no_observation = [], no_retryable = False, no_tool_call_id = None,
     no_artifact_refs = [], no_evidence_refs = [], no_error_code = None\<rparr>"

theorem merge_outcomes_replay_witness:
  "merge_node_outcomes [] [demo_outcome [2] SUCCEEDED, demo_outcome [1] FAILED]
     = Inr [demo_outcome [1] FAILED, demo_outcome [2] SUCCEEDED]
   \<and> merge_node_outcomes [demo_outcome [1] FAILED, demo_outcome [2] SUCCEEDED]
       [demo_outcome [2] SUCCEEDED, demo_outcome [1] FAILED]
     = Inr [demo_outcome [1] FAILED, demo_outcome [2] SUCCEEDED]"
proof -
  have 1: "merge_node_outcomes [] [demo_outcome [2] SUCCEEDED, demo_outcome [1] FAILED]
     = Inr [demo_outcome [1] FAILED, demo_outcome [2] SUCCEEDED]"
    by (simp add: merge_node_outcomes_def by_key_def outcome_key_def demo_outcome_def)
  have "canonical []" by (simp add: canonical_def)
  from merge_outcomes_replay [OF this, of "[demo_outcome [2] SUCCEEDED, demo_outcome [1] FAILED]" "[]"] 1
  show ?thesis by simp
qed

end
