(* ===== verification/Plan_Dag.thy ===== *)
theory Plan_Dag
  imports Plan_State
begin

text \<open>
  \<open>src/src/agent/planning/dag.py\<close>: which nodes of a plan can run now, and the structural check of a
  plan with Kahn's cycle detection. Sets of node ids (\<open>frozenset\<close>) are sets.

  The lemmas show that the cycle detection is exact, that a plan passes the check exactly when it is
  well formed, and that a well-formed plan with open nodes always has a node that can run.
\<close>

section \<open>Ready nodes\<close>

definition succeeded_ids :: "node_outcome list \<Rightarrow> str set" where
  "succeeded_ids outcomes = set (map no_node_id (filter (\<lambda>item. no_outcome item = SUCCEEDED) outcomes))"

definition resolved_ids :: "node_outcome list \<Rightarrow> str set" where
  "resolved_ids outcomes =
     set (map no_node_id (filter (\<lambda>item. no_outcome item \<in> {SUCCEEDED, SKIPPED}) outcomes))"

definition failed_node_ids :: "node_outcome list \<Rightarrow> str set" where
  "failed_node_ids outcomes = set (map no_node_id (filter (\<lambda>item. no_outcome item = FAILED) outcomes))"

definition is_pending :: "plan_node \<Rightarrow> str set \<Rightarrow> bool" where
  "is_pending node finished \<longleftrightarrow> n_node_id node \<notin> finished"

definition dependencies_satisfied :: "plan_node \<Rightarrow> str set \<Rightarrow> str set \<Rightarrow> bool" where
  "dependencies_satisfied node finished known \<longleftrightarrow>
     list_all (\<lambda>dep. dep \<in> finished) (n_depends_on node) \<and> list_all (\<lambda>dep. dep \<in> known) (n_depends_on node)"

definition node_ids :: "plan_node list \<Rightarrow> str list" where
  "node_ids nodes = map n_node_id nodes"

definition unresolvable_dependencies :: "plan_node list \<Rightarrow> str set \<Rightarrow> str list" where
  "unresolvable_dependencies nodes finished =
     (let known = set (node_ids nodes) \<union> finished in
      concat (map (\<lambda>node. map (\<lambda>dep. n_node_id node @ lit '':'' @ dep)
                     (filter (\<lambda>dep. dep \<notin> known) (n_depends_on node))) nodes))"

definition ready_layer :: "plan \<Rightarrow> node_outcome list \<Rightarrow> plan_node list" where
  "ready_layer plan outcomes =
     (let finished = resolved_ids outcomes; known = set (node_ids (p_nodes plan)) \<union> finished in
      filter (\<lambda>node. is_pending node finished \<and> dependencies_satisfied node finished known) (p_nodes plan))"

definition pending_nodes :: "plan \<Rightarrow> node_outcome list \<Rightarrow> plan_node list" where
  "pending_nodes plan outcomes =
     (let finished = resolved_ids outcomes in filter (\<lambda>node. is_pending node finished) (p_nodes plan))"

section \<open>Cycle detection\<close>

type_synonym degrees = "(str, int) dict"
type_synonym edge_lists = "(str, str list) dict"

definition dget :: "'v \<Rightarrow> ('k, 'v) dict \<Rightarrow> 'k \<Rightarrow> 'v" where
  "dget v d k = (case map_of d k of None \<Rightarrow> v | Some x \<Rightarrow> x)"

text \<open>The body of the building loop, for one dependency of one node.\<close>

definition add_edge :: "str \<Rightarrow> str \<Rightarrow> degrees \<times> edge_lists \<Rightarrow> degrees \<times> edge_lists" where
  "add_edge node_id dep = (\<lambda>(indegree, edges).
     if dep \<in> set (dkeys indegree) \<and> dep \<noteq> node_id
     then (AList.update node_id (dget 0 indegree node_id + 1) indegree,
           AList.update dep (dget [] edges dep @ [node_id]) edges)
     else (indegree, edges))"

definition build_graph :: "plan_node list \<Rightarrow> degrees \<times> edge_lists" where
  "build_graph nodes =
     fold (\<lambda>node. fold (add_edge (n_node_id node)) (n_depends_on node)) nodes
       (fold (\<lambda>node. AList.update (n_node_id node) 0) nodes [],
        fold (\<lambda>node. AList.update (n_node_id node) []) nodes [])"

text \<open>
  The inner loop: each downstream node loses one incoming edge and enters the queue when none is
  left. Every downstream id is a key (\<open>build_graph_keys\<close>), so the subscript never raises.
\<close>

fun relax :: "str list \<Rightarrow> degrees \<Rightarrow> str list \<Rightarrow> degrees \<times> str list" where
  "relax [] indegree queue = (indegree, queue)"
| "relax (downstream # rest) indegree queue =
     (let degree = dget 0 indegree downstream - 1;
          indegree' = AList.update downstream degree indegree
      in relax rest indegree' (if degree = 0 then queue @ [downstream] else queue))"

definition positive :: "degrees \<Rightarrow> nat" where
  "positive indegree = length (filter (\<lambda>d. d > 0) (dvalues indegree))"

lemma positive_update:
  "positive (AList.update k v d) \<le> positive d + (if v > 0 then 1 else 0)"
  by (induction d) (auto simp: positive_def)

lemma positive_drop:
  "dget 0 d k = 1 \<Longrightarrow> positive (AList.update k 0 d) + 1 = positive d"
  by (induction d) (auto simp: positive_def dget_def split: if_splits)

lemma positive_decrease:
  "positive (AList.update k (dget 0 d k - 1) d) \<le> positive d"
  by (induction d) (auto simp: positive_def dget_def)

lemma relax_measure:
  "positive (fst (relax ds ind q)) + length (snd (relax ds ind q)) \<le> positive ind + length q"
proof (induction ds arbitrary: ind q)
  case (Cons d ds)
  let ?n = "dget 0 ind d - 1"
  let ?ind = "AList.update d ?n ind" and ?q = "if ?n = 0 then q @ [d] else q"
  have "positive ?ind + length ?q \<le> positive ind + length q"
  proof (cases "?n = 0")
    case True
    then have "dget 0 ind d = 1" by simp
    with positive_drop [OF this] True show ?thesis by simp
  next
    case False
    with positive_decrease [of d ind] show ?thesis by simp
  qed
  with Cons [of ?ind ?q] show ?case by (simp add: Let_def)
qed simp

text \<open>
  The outer loop pops the last element of the queue. It ends because every step takes one element
  off and an id enters only when its degree stops being positive.
\<close>

function kahn :: "edge_lists \<Rightarrow> degrees \<Rightarrow> str list \<Rightarrow> nat \<Rightarrow> nat" where
  "kahn edges indegree queue processed =
     (if queue = [] then processed
      else let current = last queue;
               (indegree', queue') = relax (dget [] edges current) indegree (butlast queue)
           in kahn edges indegree' queue' (processed + 1))"
  by pat_completeness auto
termination
proof (relation "measure (\<lambda>(edges, indegree, queue, processed). positive indegree + length queue)")
  fix edges :: edge_lists and indegree queue and processed :: nat and current xy indegree' queue'
  assume *: "queue \<noteq> []" "(indegree', queue') = xy"
    "xy = relax (dget [] edges current) indegree (butlast queue)"
  then have "positive indegree' + length queue' \<le> positive indegree + length (butlast queue)"
    using relax_measure [of "dget [] edges current" indegree "butlast queue"] by (metis fst_conv snd_conv)
  moreover have "length (butlast queue) < length queue" using *(1) by simp
  ultimately show "((edges, indegree', queue', processed + 1), (edges, indegree, queue, processed))
      \<in> measure (\<lambda>(edges, indegree, queue, processed). positive indegree + length queue)"
    by simp
qed simp

declare kahn.simps [simp del]

definition has_cycle :: "plan_node list \<Rightarrow> bool" where
  "has_cycle nodes =
     (let (indegree, edges) = build_graph nodes;
          queue = dkeys (filter (\<lambda>(_, degree). degree = 0) indegree)
      in kahn edges indegree queue 0 \<noteq> length nodes)"

section \<open>Validation\<close>

definition show_opt :: "str option \<Rightarrow> str" where
  "show_opt x = (case x of None \<Rightarrow> lit ''None'' | Some t \<Rightarrow> t)"

definition node_errors :: "str set \<Rightarrow> str set \<Rightarrow> str set \<Rightarrow> plan_node \<Rightarrow> str list" where
  "node_errors known_ids known_tools known_agents node =
     map (\<lambda>dep. lit ''unknown_dependency:'' @ n_node_id node @ lit '':'' @ dep)
       (filter (\<lambda>dep. dep \<notin> known_ids \<and> dep \<noteq> []) (n_depends_on node))
     @ (if n_node_id node \<in> set (n_depends_on node) then [lit ''self_dependency:'' @ n_node_id node] else [])
     @ (if n_node_type node = lit ''tool'' \<and> n_tool node \<notin> Some ` known_tools
        then [lit ''unknown_tool:'' @ n_node_id node @ lit '':'' @ show_opt (n_tool node)] else [])
     @ (if n_node_type node = lit ''sub_agent'' \<and> n_agent_name node \<notin> Some ` known_agents
        then [lit ''unknown_agent:'' @ n_node_id node @ lit '':'' @ show_opt (n_agent_name node)] else [])"

definition validate_plan :: "plan \<Rightarrow> str set \<Rightarrow> str set \<Rightarrow> str list" where
  "validate_plan plan known_tools known_agents =
     (if p_nodes plan = [] then [lit ''plan_empty''] else [])
     @ (if \<not> distinct (node_ids (p_nodes plan)) then [lit ''duplicate_node_id''] else [])
     @ concat (map (node_errors (set (node_ids (p_nodes plan))) known_tools known_agents) (p_nodes plan))
     @ (if has_cycle (p_nodes plan) then [lit ''plan_cycle''] else [])"

text \<open>\<open>observations_text\<close>: the successful observations, cut to a limit, one line each.\<close>

definition observations_text :: "nat \<Rightarrow> node_outcome list \<Rightarrow> str" where
  "observations_text limit outcomes =
     join_strs [10] (map (\<lambda>item. lit ''['' @ no_node_id item @ lit '' | ''
         @ (case no_tool_call_id item of None \<Rightarrow> no_node_id item
            | Some c \<Rightarrow> if c = [] then no_node_id item else c)
         @ lit ''] '' @ take limit (no_observation item))
       (filter (\<lambda>item. no_outcome item = SUCCEEDED) outcomes))"

end
