(* ===== verification/Plan_Cycle.thy ===== *)
theory Plan_Cycle
  imports Plan_Dag
begin

text \<open>
  Kahn's algorithm in \<open>_has_cycle\<close> is exact: it answers no exactly when the node ids are distinct
  and the dependency relation between different nodes is acyclic. The code skips the dependency of a node on itself,
  which \<open>validate_plan\<close> reports on its own.
\<close>

section \<open>The graph the loops build\<close>

definition dep_rel :: "plan_node list \<Rightarrow> (str \<times> str) set" where
  "dep_rel nodes = {(dep, n_node_id node) | dep node. node \<in> set nodes \<and> dep \<in> set (n_depends_on node)
     \<and> dep \<in> set (node_ids nodes) \<and> dep \<noteq> n_node_id node}"

text \<open>The dictionaries \<open>indegree\<close> and \<open>edges\<close> represent the relation \<open>R\<close> on \<open>ids\<close>.\<close>

definition represents :: "str set \<Rightarrow> (str \<times> str) set \<Rightarrow> degrees \<times> edge_lists \<Rightarrow> bool" where
  "represents ids R g \<longleftrightarrow> finite ids \<and> R \<subseteq> ids \<times> ids
     \<and> set (dkeys (fst g)) = ids \<and> distinct (dkeys (fst g))
     \<and> (\<forall>d. set (dget [] (snd g) d) = R `` {d})
     \<and> (\<forall>x \<in> ids. dget 0 (fst g) x = (\<Sum>d\<in>ids. int (count_list (dget [] (snd g) d) x)))"

lemma representsD:
  assumes "represents ids R (ind, edges)"
  shows "finite ids" and "R \<subseteq> ids \<times> ids" and "set (dkeys ind) = ids" and "distinct (dkeys ind)"
    and "set (dget [] edges d) = R `` {d}"
    and "x \<in> ids \<Longrightarrow> dget 0 ind x = (\<Sum>d\<in>ids. int (count_list (dget [] edges d) x))"
  using assms by (auto simp: represents_def)

lemma dget_Nil [simp]: "dget v [] k = v"
  by (simp add: dget_def)

lemma dget_update [simp]: "dget v (AList.update k x d) k' = (if k' = k then x else dget v d k')"
  by (simp add: dget_def)

lemma represents_add_edge:
  assumes g: "represents ids R g" and x: "x \<in> ids"
  shows "represents ids (if dep \<in> ids \<and> dep \<noteq> x then insert (dep, x) R else R) (add_edge x dep g)"
proof -
  obtain ind edges where gg: "g = (ind, edges)" by force
  note r = representsD [OF g [unfolded gg]]
  show ?thesis
  proof (cases "dep \<in> ids \<and> dep \<noteq> x")
    case False
    then show ?thesis using g r(3) by (auto simp: add_edge_def gg simp del: set_map)
  next
    case True
    let ?ind = "AList.update x (dget 0 ind x + 1) ind"
    let ?edges = "AList.update dep (dget [] edges dep @ [x]) edges"
    have keys: "set (dkeys ?ind) = ids" using r(3) x by auto
    have "int (count_list (dget [] ?edges d) y) =
        int (count_list (dget [] edges d) y) + (if d = dep then if x = y then 1 else 0 else 0)" for d y
      by simp
    then have "(\<Sum>d\<in>ids. int (count_list (dget [] ?edges d) y)) =
        (\<Sum>d\<in>ids. int (count_list (dget [] edges d) y)) + (\<Sum>d\<in>ids. if d = dep then if x = y then 1 else 0 else 0)" for y
      by (simp only: sum.distrib)
    moreover have "(\<Sum>d\<in>ids. if d = dep then if x = y then 1 else 0 else (0::int)) = (if x = y then 1 else 0)" for y
      using True r(1) by (simp add: sum.delta)
    ultimately have "dget 0 ?ind y = (\<Sum>d\<in>ids. int (count_list (dget [] ?edges d) y))" if "y \<in> ids" for y
      using r(6) [OF that] by (cases "y = x") auto
    moreover have "set (dget [] ?edges d) = insert (dep, x) R `` {d}" for d
      using r(5) [of d] r(5) [of dep] by auto
    ultimately have "represents ids (insert (dep, x) R) (?ind, ?edges)"
      using r(1,2,4) keys True x by (simp add: represents_def distinct_update del: set_map)
    moreover have "add_edge x dep g = (?ind, ?edges)"
      using True r(3) by (simp add: add_edge_def gg del: set_map)
    ultimately show ?thesis using True by simp
  qed
qed

lemma represents_node:
  assumes "represents ids R g" and "x \<in> ids"
  shows "represents ids (R \<union> {(dep, x) | dep. dep \<in> set deps \<and> dep \<in> ids \<and> dep \<noteq> x})
     (fold (add_edge x) deps g)"
  using assms
proof (induction deps arbitrary: R g)
  case (Cons dep deps)
  let ?R = "if dep \<in> ids \<and> dep \<noteq> x then insert (dep, x) R else R"
  from Cons.IH [OF represents_add_edge [OF Cons.prems(1,2)] Cons.prems(2), of dep]
  have "represents ids (?R \<union> {(d, x) | d. d \<in> set deps \<and> d \<in> ids \<and> d \<noteq> x})
      (fold (add_edge x) (dep # deps) g)" by simp
  moreover have "?R \<union> {(d, x) | d. d \<in> set deps \<and> d \<in> ids \<and> d \<noteq> x}
      = R \<union> {(d, x) | d. d \<in> set (dep # deps) \<and> d \<in> ids \<and> d \<noteq> x}"
    by auto
  ultimately show ?case by simp
qed simp

lemma represents_nodes:
  assumes "represents ids R g" and "set (node_ids ns) \<subseteq> ids"
  shows "represents ids (R \<union> {(dep, n_node_id node) | dep node. node \<in> set ns \<and> dep \<in> set (n_depends_on node)
        \<and> dep \<in> ids \<and> dep \<noteq> n_node_id node})
     (fold (\<lambda>node. fold (add_edge (n_node_id node)) (n_depends_on node)) ns g)"
  using assms
proof (induction ns arbitrary: R g)
  case (Cons node ns)
  let ?R = "R \<union> {(dep, n_node_id node) | dep. dep \<in> set (n_depends_on node) \<and> dep \<in> ids \<and> dep \<noteq> n_node_id node}"
  let ?rest = "\<lambda>ns. {(dep, n_node_id node) | dep node. node \<in> set ns \<and> dep \<in> set (n_depends_on node)
        \<and> dep \<in> ids \<and> dep \<noteq> n_node_id node}"
  have "n_node_id node \<in> ids" "set (node_ids ns) \<subseteq> ids" using Cons.prems(2) by (auto simp: node_ids_def)
  from Cons.IH [OF represents_node [OF Cons.prems(1) this(1)] this(2), of "n_depends_on node"]
  have "represents ids (?R \<union> ?rest ns)
      (fold (\<lambda>node. fold (add_edge (n_node_id node)) (n_depends_on node)) (node # ns) g)" by simp
  moreover have "?R \<union> ?rest ns = R \<union> ?rest (node # ns)" by auto
  ultimately show ?case by simp
qed simp

lemma init_dict:
  "set (dkeys (fold (\<lambda>node. AList.update (n_node_id node) v) nodes d)) = set (dkeys d) \<union> set (node_ids nodes)"
  "distinct (dkeys d) \<Longrightarrow> distinct (dkeys (fold (\<lambda>node. AList.update (n_node_id node) v) nodes d))"
  "(\<And>k. dget v d k = v) \<Longrightarrow> dget v (fold (\<lambda>node. AList.update (n_node_id node) v) nodes d) k = v"
  by (induction nodes arbitrary: d) (auto simp: node_ids_def distinct_update)

lemma build_graph_represents: "represents (set (node_ids nodes)) (dep_rel nodes) (build_graph nodes)"
proof -
  let ?ids = "set (node_ids nodes)"
  let ?g = "(fold (\<lambda>node. AList.update (n_node_id node) 0) nodes [],
        fold (\<lambda>node. AList.update (n_node_id node) []) nodes [])"
  have "represents ?ids {} ?g"
    using init_dict(1) [of "0::int" nodes "[]"] init_dict(2) [of "[]" "0::int" nodes]
    by (simp add: represents_def init_dict(3) del: set_map)
  from represents_nodes [OF this, of nodes]
  show ?thesis by (simp add: dep_rel_def build_graph_def)
qed


section \<open>The loop\<close>

lemma relax_degrees:
  "dget 0 (fst (relax ds ind q)) x = dget 0 ind x - int (count_list ds x)"
  by (induction ds arbitrary: ind q) (auto simp: Let_def)

lemma relax_queue:
  fixes ind :: degrees
  assumes "\<forall>x. int (count_list ds x) \<le> dget 0 ind x"
  shows "\<exists>new. snd (relax ds ind q) = q @ new \<and> distinct new
           \<and> set new = {x \<in> set ds. dget 0 ind x = int (count_list ds x)}"
  using assms
proof (induction ds arbitrary: ind q)
  case (Cons d ds)
  let ?n = "dget 0 ind d - 1"
  let ?ind = "AList.update d ?n ind" and ?q = "if ?n = 0 then q @ [d] else q"
  have le: "\<forall>y. int (count_list ds y) \<le> dget 0 ?ind y"
  proof
    fix y show "int (count_list ds y) \<le> dget 0 ?ind y"
      using Cons.prems [rule_format, of y] by (cases "d = y") simp_all
  qed
  from Cons.IH [OF le, of ?q] obtain new where
    new: "snd (relax ds ?ind ?q) = ?q @ new" "distinct new"
      "set new = {x \<in> set ds. dget 0 ?ind x = int (count_list ds x)}" by blast
  have eq: "dget 0 ?ind x = int (count_list ds x) \<longleftrightarrow> dget 0 ind x = int (count_list (d # ds) x)" for x
    by auto
  show ?case
  proof (cases "?n = 0")
    case True
    then have zero: "count_list ds d = 0" using le [rule_format, of d] by simp
    then have fresh: "d \<notin> set ds" by (simp add: count_list_0_iff)
    with new True have "snd (relax (d # ds) ind q) = q @ (d # new)" "distinct (d # new)"
      by (auto simp: Let_def)
    moreover have "set (d # new) = {x \<in> set (d # ds). dget 0 ind x = int (count_list (d # ds) x)}"
      unfolding list.set new(3) eq using True zero by auto
    ultimately show ?thesis by blast
  next
    case False
    have "d \<in> set ds" if "dget 0 ind d = int (count_list (d # ds) d)"
      using that False by (cases "d \<in> set ds") (simp_all add: count_list_0_iff [THEN iffD2])
    then have "set new = {x \<in> set (d # ds). dget 0 ind x = int (count_list (d # ds) x)}"
      unfolding list.set new(3) eq by blast
    with new False show ?thesis by (auto simp: Let_def)
  qed
qed simp

text \<open>The invariant of the outer loop; \<open>P\<close> lists the processed ids.\<close>

definition kahn_inv :: "str set \<Rightarrow> edge_lists \<Rightarrow> (str \<times> str) set \<Rightarrow> degrees \<Rightarrow> str list \<Rightarrow> str list \<Rightarrow> bool" where
  "kahn_inv ids edges R ind q P \<longleftrightarrow> finite ids \<and> R \<subseteq> ids \<times> ids
     \<and> (\<forall>d. set (dget [] edges d) = R `` {d})
     \<and> distinct (q @ P) \<and> set (q @ P) = {x \<in> ids. dget 0 ind x = 0}
     \<and> (\<forall>x \<in> ids. dget 0 ind x = (\<Sum>d\<in>ids - set P. int (count_list (dget [] edges d) x)))
     \<and> (\<forall>x. x \<notin> ids \<longrightarrow> dget 0 ind x = 0)
     \<and> acyclic {(a, b) \<in> R. b \<in> set P} \<and> (\<forall>(a, b) \<in> R. b \<in> set P \<longrightarrow> a \<in> set P)"

lemma acyclic_target:
  assumes "acyclic R" and "c \<notin> Domain R" and "c \<notin> A"
  shows "acyclic (R \<union> A \<times> {c})"
proof -
  let ?S = "R \<union> A \<times> {c}"
  have "(x, y) \<in> R\<^sup>+ \<or> y = c" if "(x, y) \<in> ?S\<^sup>+" for x y
    using that
  proof (induction rule: trancl_induct)
    case (base y)
    then show ?case by auto
  next
    case (step y z)
    then have "y \<noteq> c" using assms(2,3) by auto
    with step have "(x, y) \<in> R\<^sup>+" by blast
    with step(2) show ?case by (auto intro: trancl_into_trancl)
  qed
  moreover have "(c, y) \<notin> ?S\<^sup>+" for y
  proof
    assume "(c, y) \<in> ?S\<^sup>+"
    then obtain z where "(c, z) \<in> ?S" by (blast dest: tranclD)
    with assms(2,3) show False by auto
  qed
  ultimately show ?thesis using assms(1) unfolding acyclic_def by metis
qed

lemma kahn_inv_zero:
  assumes "kahn_inv ids edges R ind q P" and "(a, b) \<in> R" and "b \<in> set (q @ P)"
  shows "a \<in> set P"
proof (rule ccontr)
  assume a: "a \<notin> set P"
  have fin: "finite (ids - set P)" and ids: "a \<in> ids" "b \<in> ids"
    using assms(1,2) by (auto simp: kahn_inv_def)
  have "dget 0 ind b = 0" using assms(1,3) by (auto simp: kahn_inv_def)
  then have "(\<Sum>d\<in>ids - set P. int (count_list (dget [] edges d) b)) = 0"
    using assms(1) ids by (simp add: kahn_inv_def)
  then have "int (count_list (dget [] edges a) b) = 0"
    using a ids by (simp add: sum_nonneg_eq_0_iff [OF fin])
  moreover have "b \<in> set (dget [] edges a)" using assms(1,2) by (simp add: kahn_inv_def)
  ultimately show False by (simp add: count_list_0_iff)
qed

lemma kahn_invD:
  assumes "kahn_inv ids edges R ind q P"
  shows "finite ids" and "R \<subseteq> ids \<times> ids" and "set (dget [] edges d) = R `` {d}"
    and "distinct (q @ P)" and "x \<in> set (q @ P) \<longleftrightarrow> x \<in> ids \<and> dget 0 ind x = 0"
    and "x \<in> ids \<Longrightarrow> dget 0 ind x = (\<Sum>d\<in>ids - set P. int (count_list (dget [] edges d) x))"
    and "x \<notin> ids \<Longrightarrow> dget 0 ind x = 0"
    and "acyclic {(a, b) \<in> R. b \<in> set P}" and "(a, b) \<in> R \<Longrightarrow> b \<in> set P \<Longrightarrow> a \<in> set P"
  using assms unfolding kahn_inv_def by auto

lemma kahn_degrees:
  assumes inv: "kahn_inv ids edges R ind (q @ [c]) P"
  shows "c \<in> ids - set P"
    and "int (count_list (dget [] edges c) x) \<le> dget 0 ind x"
    and "x \<in> ids \<Longrightarrow> dget 0 ind x - int (count_list (dget [] edges c) x) =
      (\<Sum>d\<in>ids - set (c # P). int (count_list (dget [] edges d) x))"
proof -
  note d = kahn_invD [OF inv]
  show c: "c \<in> ids - set P" using d(5) [of c] d(4) by auto
  have split: "dget 0 ind x = int (count_list (dget [] edges c) x)
      + (\<Sum>d\<in>ids - set (c # P). int (count_list (dget [] edges d) x))" if "x \<in> ids" for x
  proof -
    have "ids - set (c # P) = (ids - set P) - {c}" by auto
    then show ?thesis using d(6) [OF that] c sum.remove [of "ids - set P" c] d(1) by simp
  qed
  then show "x \<in> ids \<Longrightarrow> dget 0 ind x - int (count_list (dget [] edges c) x) =
      (\<Sum>d\<in>ids - set (c # P). int (count_list (dget [] edges d) x))" by simp
  show "int (count_list (dget [] edges c) x) \<le> dget 0 ind x"
  proof (cases "x \<in> ids")
    case True
    then show ?thesis using split [OF True] by (simp add: sum_nonneg)
  next
    case False
    then have "x \<notin> set (dget [] edges c)" using d(2) d(3) [of c] by auto
    then show ?thesis using d(7) [OF False] by (simp add: count_list_0_iff)
  qed
qed

lemma kahn_inv_order:
  assumes inv: "kahn_inv ids edges R ind (q @ [c]) P"
  shows "acyclic {(a, b) \<in> R. b \<in> set (c # P)}"
    and "(a, b) \<in> R \<Longrightarrow> b \<in> set (c # P) \<Longrightarrow> a \<in> set P"
proof -
  note d = kahn_invD [OF inv]
  have c: "c \<notin> set P" using d(4) by auto
  have pred: "a \<in> set P" if "(a, b) \<in> R" "b \<in> set (c # P)" for a b
    using kahn_inv_zero [OF inv that(1)] that(2) by auto
  then show "(a, b) \<in> R \<Longrightarrow> b \<in> set (c # P) \<Longrightarrow> a \<in> set P" .
  let ?A = "{a. (a, c) \<in> R}"
  have "{(a, b) \<in> R. b \<in> set (c # P)} = {(a, b) \<in> R. b \<in> set P} \<union> ?A \<times> {c}" by auto
  moreover have "acyclic ({(a, b) \<in> R. b \<in> set P} \<union> ?A \<times> {c})"
    using c pred by (intro acyclic_target d(8)) auto
  ultimately show "acyclic {(a, b) \<in> R. b \<in> set (c # P)}" by simp
qed

lemma kahn_inv_step:
  assumes inv: "kahn_inv ids edges R ind (q @ [c]) P"
    and relax: "relax (dget [] edges c) ind q = (ind', q')"
  shows "kahn_inv ids edges R ind' q' (c # P)"
proof -
  note d = kahn_invD [OF inv] and deg = kahn_degrees [OF inv]
  let ?ds = "dget [] edges c"
  have ind': "dget 0 ind' x = dget 0 ind x - int (count_list ?ds x)" for x
    using relax_degrees [of ?ds ind q x] relax by simp
  obtain new where new: "q' = q @ new" "distinct new"
    "set new = {x \<in> set ?ds. dget 0 ind x = int (count_list ?ds x)}"
    using relax_queue [of ?ds ind q] deg(2) relax by auto
  have pos: "int (count_list ?ds x) > 0 \<longleftrightarrow> x \<in> set ?ds" for x
    using count_list_0_iff [of ?ds x] by auto
  have old: "dget 0 ind x > 0" if "x \<in> set new" for x
    using that new(3) pos [of x] by auto
  have sub: "set ?ds \<subseteq> ids" using d(2) d(3) [of c] by auto
  have "x \<notin> set ((q @ [c]) @ P)" if "x \<in> set new" for x
    using old [OF that] d(5) [of x] by simp
  then have "distinct (q' @ c # P)" using d(4) new(1,2) by auto
  moreover have "x \<in> set (q' @ c # P) \<longleftrightarrow> x \<in> ids \<and> dget 0 ind' x = 0" for x
  proof -
    have "x \<in> set (q' @ c # P) \<longleftrightarrow> x \<in> ids \<and> dget 0 ind x = 0 \<or> x \<in> set new"
      using d(5) [of x] new(1) by auto
    also have "\<dots> \<longleftrightarrow> x \<in> ids \<and> dget 0 ind' x = 0"
      using new(3) sub deg(2) [of x] pos [of x] ind' [of x] by auto
    finally show ?thesis .
  qed
  moreover have "dget 0 ind' x = (\<Sum>d\<in>ids - set (c # P). int (count_list (dget [] edges d) x))"
    if "x \<in> ids" for x
    using deg(3) [OF that] ind' by simp
  moreover have "dget 0 ind' x = 0" if "x \<notin> ids" for x
    using that sub d(7) ind' pos [of x] deg(2) [of x] by (auto simp: subset_iff)
  ultimately show ?thesis
    unfolding kahn_inv_def using d(1-3) kahn_inv_order [OF inv] by auto
qed

lemma kahn_result:
  "kahn_inv ids edges R ind q P \<Longrightarrow>
     \<exists>ind' P'. kahn_inv ids edges R ind' [] P' \<and> kahn edges ind q (length P) = length P'"
proof (induction edges ind q "length P" arbitrary: P rule: kahn.induct)
  case (1 edges ind q)
  show ?case
  proof (cases "q = []")
    case True
    with 1(2) show ?thesis by (auto simp: kahn.simps [of edges ind "[]"])
  next
    case False
    obtain ind' q' where r: "relax (dget [] edges (last q)) ind (butlast q) = (ind', q')" by force
    have inv: "kahn_inv ids edges R ind' q' (last q # P)"
      using kahn_inv_step [OF _ r, of ids R P] 1(2) False by simp
    have "kahn edges ind q (length P) = kahn edges ind' q' (length (last q # P))"
      using False by (simp add: kahn.simps [of edges ind q] r)
    with 1(1) [OF False refl r [symmetric] refl _ inv] show ?thesis by simp
  qed
qed

lemma kahn_inv_init:
  assumes "represents ids R (ind, edges)" and "\<And>x. x \<notin> ids \<Longrightarrow> dget 0 ind x = 0"
  shows "kahn_inv ids edges R ind (dkeys (filter (\<lambda>(_, degree). degree = 0) ind)) []"
proof -
  note r = representsD [OF assms(1)]
  have "x \<in> set (dkeys (filter (\<lambda>(_, degree). degree = 0) ind)) \<longleftrightarrow> x \<in> ids \<and> dget 0 ind x = 0" for x
    unfolding dkeys_filter in_dict_iff [OF r(4)] r(3) [symmetric] dkeys_iff dget_def
    by (auto split: option.splits)
  moreover have "distinct (dkeys (filter (\<lambda>(_, degree). degree = 0) ind))"
    using r(4) by (rule distinct_map_filter)
  ultimately show ?thesis
    using r assms(2) unfolding kahn_inv_def by (auto simp: acyclic_def simp del: set_map)
qed

lemma no_source_cycle:
  fixes S :: "'a set"
  assumes "finite S" and "S \<noteq> {}" and pred: "\<And>x. x \<in> S \<Longrightarrow> \<exists>y \<in> S. (y, x) \<in> R"
  shows "\<not> acyclic R"
proof
  assume "acyclic R"
  then have "acyclic (R \<inter> S \<times> S)" by (rule acyclic_subset) blast
  moreover have "finite (R \<inter> S \<times> S)" using assms(1) by simp
  ultimately have "wf (R \<inter> S \<times> S)" by (simp add: finite_acyclic_wf)
  then obtain x where "x \<in> S" and min: "\<And>y. (y, x) \<in> R \<inter> S \<times> S \<Longrightarrow> y \<notin> S"
    using assms(2) by (metis wfE_min ex_in_conv)
  with pred show False by blast
qed

lemma has_cycle_iff:
  "has_cycle nodes \<longleftrightarrow> \<not> (distinct (node_ids nodes) \<and> acyclic (dep_rel nodes))"
proof -
  let ?ids = "set (node_ids nodes)" and ?R = "dep_rel nodes"
  obtain ind edges where g: "build_graph nodes = (ind, edges)" by force
  have rep: "represents ?ids ?R (ind, edges)" using build_graph_represents [of nodes] g by simp
  have "dget 0 ind x = 0" if "x \<notin> ?ids" for x
    using that representsD(3) [OF rep] dkeys_iff [of x ind] by (auto simp: dget_def split: option.split)
  from kahn_result [OF kahn_inv_init [OF rep this]] obtain ind' P where
    inv: "kahn_inv ?ids edges ?R ind' [] P"
    and res: "kahn edges ind (dkeys (filter (\<lambda>(_, degree). degree = 0) ind)) 0 = length P" by auto
  note d = kahn_invD [OF inv]
  have cyc: "has_cycle nodes \<longleftrightarrow> length P \<noteq> length nodes" by (simp add: has_cycle_def g res)
  have len: "length P = card (set P)" and sub: "set P \<subseteq> ?ids"
    using d(4,5) by (auto simp: distinct_card)
  have card: "card ?ids \<le> length nodes" "card ?ids = length nodes \<longleftrightarrow> distinct (node_ids nodes)"
    using card_length [of "node_ids nodes"] card_distinct [of "node_ids nodes"] distinct_card [of "node_ids nodes"]
    by (auto simp: node_ids_def)
  have all: "length P = length nodes \<longleftrightarrow> set P = ?ids \<and> distinct (node_ids nodes)"
    using card_mono [OF d(1) sub] card_subset_eq [OF d(1) sub] card len by auto
  have "acyclic ?R" if "set P = ?ids"
  proof -
    have "{(a, b) \<in> ?R. b \<in> set P} = ?R" using d(2) that by auto
    with d(8) show ?thesis by simp
  qed
  moreover have "\<not> acyclic ?R" if "set P \<noteq> ?ids"
  proof (rule no_source_cycle)
    show "finite (?ids - set P)" "?ids - set P \<noteq> {}" using that sub by auto
    fix x assume x: "x \<in> ?ids - set P"
    then have "dget 0 ind' x \<noteq> 0" using d(5) [of x] by auto
    then have "(\<Sum>a\<in>?ids - set P. int (count_list (dget [] edges a) x)) \<noteq> 0" using d(6) x by simp
    then obtain a where "a \<in> ?ids - set P" "count_list (dget [] edges a) x \<noteq> 0"
      by (metis (mono_tags, lifting) of_nat_0 sum.neutral)
    with d(3) [of a] show "\<exists>y \<in> ?ids - set P. (y, x) \<in> ?R"
      by (auto simp: count_list_0_iff)
  qed
  ultimately show ?thesis using cyc all by blast
qed

text \<open>All dependencies between nodes of the plan, also of a node on itself.\<close>

definition all_deps :: "plan_node list \<Rightarrow> (str \<times> str) set" where
  "all_deps nodes = {(dep, n_node_id node) | dep node. node \<in> set nodes \<and> dep \<in> set (n_depends_on node)
     \<and> dep \<in> set (node_ids nodes)}"

lemma dep_rel_all: "dep_rel nodes = all_deps nodes - Id"
  by (auto simp: dep_rel_def all_deps_def)

lemma acyclic_all_deps:
  "acyclic (all_deps nodes) \<longleftrightarrow> acyclic (dep_rel nodes) \<and> (\<forall>node \<in> set nodes. n_node_id node \<notin> set (n_depends_on node))"
proof -
  have self: "(\<forall>node \<in> set nodes. n_node_id node \<notin> set (n_depends_on node)) \<longleftrightarrow> all_deps nodes \<inter> Id = {}"
    by (auto simp: all_deps_def node_ids_def)
  show ?thesis
  proof
    assume a: "acyclic (all_deps nodes)"
    then have "all_deps nodes \<inter> Id = {}" by (auto simp: acyclic_def)
    moreover have "acyclic (dep_rel nodes)" unfolding dep_rel_all by (rule acyclic_subset [OF a]) blast
    ultimately show "acyclic (dep_rel nodes) \<and> (\<forall>node \<in> set nodes. n_node_id node \<notin> set (n_depends_on node))"
      using self by blast
  next
    assume a: "acyclic (dep_rel nodes) \<and> (\<forall>node \<in> set nodes. n_node_id node \<notin> set (n_depends_on node))"
    then have "all_deps nodes - Id = all_deps nodes" using self by blast
    with a show "acyclic (all_deps nodes)" by (simp add: dep_rel_all)
  qed
qed

text \<open>C21: The cycle detection of plans ends and is exact: it answers no exactly when the node ids are
  distinct and there is no cycle of two or more nodes of the plan, each depending on the one before it. A node that depends
  on itself is not a cycle to it: no dependency leads back in any way exactly when the ids are distinct, the detection
  answers no and no node names itself.\<close>

theorem has_cycle_exact:
  "(has_cycle nodes \<longleftrightarrow> \<not> (distinct (node_ids nodes) \<and> acyclic (all_deps nodes - Id)))
   \<and> (distinct (node_ids nodes) \<and> acyclic (all_deps nodes) \<longleftrightarrow>
        \<not> has_cycle nodes \<and> (\<forall>node \<in> set nodes. n_node_id node \<notin> set (n_depends_on node)))"
  unfolding has_cycle_iff acyclic_all_deps dep_rel_all by blast

theorem has_cycle_exact_witness:
  "\<not> has_cycle [\<lparr>n_node_id = [1], n_objective = [], n_node_type = [], n_tool = None, n_agent_name = None,
      n_arguments_json = [], n_depends_on = [[1]], n_race_group = None\<rparr>]"
proof -
  let ?node = "\<lparr>n_node_id = [1], n_objective = [], n_node_type = [], n_tool = None, n_agent_name = None,
      n_arguments_json = [], n_depends_on = [[1]], n_race_group = None\<rparr>"
  have none: "all_deps [?node] - Id = {}" by (auto simp: all_deps_def)
  have "acyclic (all_deps [?node] - Id)" unfolding none by (simp add: acyclic_def)
  moreover have "distinct (node_ids [?node])" by (simp add: node_ids_def)
  ultimately show ?thesis using has_cycle_exact [of "[?node]"] by blast
qed

end
