(* ===== verification/Plan_Valid.thy ===== *)
theory Plan_Valid
  imports Plan_Cycle
begin

text \<open>
  What \<open>validate_plan\<close> accepts, and why a plan it accepts does not get stuck: as long as nodes are
  open, some node is ready.
\<close>

section \<open>Well-formed plans\<close>

definition wf_node :: "str set \<Rightarrow> str set \<Rightarrow> str set \<Rightarrow> plan_node \<Rightarrow> bool" where
  "wf_node ids tools agents node \<longleftrightarrow>
     (\<forall>dep \<in> set (n_depends_on node). dep \<in> ids \<or> dep = [])
     \<and> n_node_id node \<notin> set (n_depends_on node)
     \<and> (n_node_type node = lit ''tool'' \<longrightarrow> n_tool node \<in> Some ` tools)
     \<and> (n_node_type node = lit ''sub_agent'' \<longrightarrow> n_agent_name node \<in> Some ` agents)"

definition wf_plan :: "str set \<Rightarrow> str set \<Rightarrow> plan \<Rightarrow> bool" where
  "wf_plan tools agents plan \<longleftrightarrow> p_nodes plan \<noteq> [] \<and> distinct (node_ids (p_nodes plan))
     \<and> (\<forall>node \<in> set (p_nodes plan). wf_node (set (node_ids (p_nodes plan))) tools agents node)
     \<and> acyclic (dep_rel (p_nodes plan))"

lemma node_errors_Nil: "node_errors ids tools agents node = [] \<longleftrightarrow> wf_node ids tools agents node"
  by (auto simp: node_errors_def wf_node_def filter_empty_conv)

lemma validate_plan_iff:
  "validate_plan plan tools agents = [] \<longleftrightarrow> wf_plan tools agents plan"
  by (auto simp: validate_plan_def wf_plan_def has_cycle_iff node_errors_Nil)

text \<open>C22: The structural check accepts exactly the plans that have nodes, distinct ids, only known
  (or empty) dependencies, no self-dependency, whitelisted tools and agents, and no cycle.\<close>

theorem validate_plan_exact:
  "validate_plan plan tools agents = [] \<longleftrightarrow> wf_plan tools agents plan"
  by (rule validate_plan_iff)

section \<open>Progress\<close>

lemma resolved_ids_iff:
  "x \<in> resolved_ids outcomes \<longleftrightarrow>
     (\<exists>item \<in> set outcomes. no_node_id item = x \<and> (no_outcome item = SUCCEEDED \<or> no_outcome item = SKIPPED))"
  by (auto simp: resolved_ids_def)

lemma ready_layer_iff:
  "node \<in> set (ready_layer plan outcomes) \<longleftrightarrow> node \<in> set (p_nodes plan)
     \<and> n_node_id node \<notin> resolved_ids outcomes
     \<and> (\<forall>dep \<in> set (n_depends_on node). dep \<in> resolved_ids outcomes)"
  by (auto simp: ready_layer_def Let_def is_pending_def dependencies_satisfied_def list_all_iff)

lemma pending_nodes_iff:
  "node \<in> set (pending_nodes plan outcomes) \<longleftrightarrow>
     node \<in> set (p_nodes plan) \<and> n_node_id node \<notin> resolved_ids outcomes"
  by (simp add: pending_nodes_def Let_def is_pending_def)

lemma ready_layer_nonempty:
  assumes valid: "validate_plan plan tools agents = []"
    and nonempty: "\<forall>node \<in> set (p_nodes plan). [] \<notin> set (n_depends_on node)"
    and open_nodes: "pending_nodes plan outcomes \<noteq> []"
  shows "ready_layer plan outcomes \<noteq> [] \<and> set (ready_layer plan outcomes) \<subseteq> set (pending_nodes plan outcomes)"
proof
  have wf: "wf_plan tools agents plan" using valid by (simp add: validate_plan_iff)
  let ?ids = "set (node_ids (p_nodes plan))" and ?R = "dep_rel (p_nodes plan)"
  let ?S = "n_node_id ` set (pending_nodes plan outcomes)"
  show "ready_layer plan outcomes \<noteq> []"
  proof
    assume none: "ready_layer plan outcomes = []"
    have "\<exists>y \<in> ?S. (y, x) \<in> ?R" if "x \<in> ?S" for x
    proof -
      from that obtain node where node: "node \<in> set (p_nodes plan)" "n_node_id node = x"
        "x \<notin> resolved_ids outcomes" by (auto simp: pending_nodes_iff)
      with none obtain dep where dep: "dep \<in> set (n_depends_on node)" "dep \<notin> resolved_ids outcomes"
        using ready_layer_iff [of node plan outcomes] by auto
      have "dep \<in> ?ids" "dep \<noteq> x"
        using wf node(1,2) dep(1) nonempty by (fastforce simp: wf_plan_def wf_node_def)+
      then have "(dep, x) \<in> ?R" using node(1,2) dep(1) by (auto simp: dep_rel_def)
      moreover obtain m where "m \<in> set (p_nodes plan)" "n_node_id m = dep"
        using \<open>dep \<in> ?ids\<close> by (auto simp: node_ids_def)
      then have "dep \<in> ?S" using dep(2) by (auto simp: pending_nodes_iff intro!: image_eqI)
      ultimately show ?thesis by blast
    qed
    then have "\<not> acyclic ?R" using open_nodes by (intro no_source_cycle [of ?S]) auto
    with wf show False by (simp add: wf_plan_def)
  qed
  show "set (ready_layer plan outcomes) \<subseteq> set (pending_nodes plan outcomes)"
    by (auto simp: ready_layer_iff pending_nodes_iff)
qed

text \<open>C23: In a plan that passes the check and names no empty dependency, as long as some node is open
  there is a ready one: the executor never finds an empty layer while nodes remain.\<close>

theorem ready_layer_progress:
  assumes valid: "validate_plan plan tools agents = []"
    and nonempty: "\<forall>node \<in> set (p_nodes plan). [] \<notin> set (n_depends_on node)"
    and open_nodes: "pending_nodes plan outcomes \<noteq> []"
  shows "ready_layer plan outcomes \<noteq> [] \<and> set (ready_layer plan outcomes) \<subseteq> set (pending_nodes plan outcomes)"
  by (rule ready_layer_nonempty [OF valid nonempty open_nodes])

definition demo_node :: "str \<Rightarrow> str list \<Rightarrow> plan_node" where
  "demo_node node_id deps = \<lparr>n_node_id = node_id, n_objective = lit ''step'', n_node_type = lit ''tool'',
     n_tool = Some (lit ''search''), n_agent_name = None, n_arguments_json = lit ''{}'',
     n_depends_on = deps, n_race_group = None\<rparr>"

definition demo_plan :: plan where
  "demo_plan = \<lparr>p_revision = 1, p_goal = lit ''goal'', p_nodes = [demo_node [1] [], demo_node [2] [[1]]]\<rparr>"

lemma demo_plan_valid: "validate_plan demo_plan {lit ''search''} {} = []"
proof -
  have "dep_rel (p_nodes demo_plan) \<subseteq> {([1], [2])}"
    by (auto simp: dep_rel_def demo_plan_def demo_node_def node_ids_def)
  moreover have "acyclic {([1 :: nat], [2 :: nat])}"
    using acyclic_target [of "{}" "[2 :: nat]" "{[1 :: nat]}"] by (simp add: acyclic_def)
  ultimately have "acyclic (dep_rel (p_nodes demo_plan))" by (rule acyclic_subset [rotated])
  then show ?thesis
    by (simp add: validate_plan_iff wf_plan_def wf_node_def)
      (simp add: demo_plan_def demo_node_def node_ids_def)
qed

theorem ready_layer_progress_witness:
  "ready_layer demo_plan [demo_outcome [1] SUCCEEDED] = [demo_node [2] [[1]]]
   \<and> ready_layer demo_plan [demo_outcome [1] SUCCEEDED] \<noteq> []"
proof -
  have "pending_nodes demo_plan [demo_outcome [1] SUCCEEDED] \<noteq> []"
    by (simp add: pending_nodes_def is_pending_def demo_plan_def resolved_ids_def demo_outcome_def demo_node_def)
  moreover have "\<forall>node \<in> set (p_nodes demo_plan). [] \<notin> set (n_depends_on node)"
    by (simp add: demo_plan_def demo_node_def)
  ultimately show ?thesis
    using ready_layer_progress [OF demo_plan_valid]
    by (simp add: ready_layer_def is_pending_def demo_plan_def resolved_ids_def demo_outcome_def
        demo_node_def dependencies_satisfied_def node_ids_def)
qed

end
