(* ===== verification/Planner.thy ===== *)
theory Planner
  imports Plan_Valid Conversation_Rules
begin

text \<open>
  \<open>src/src/agent/planning/planner.py\<close>: reading the model's answer, turning it into a plan of
  whitelisted nodes, the clarification request, and the planner node of the graph.

  Parameters stand for what is not under \<open>src/\<close> or needs the Unicode database: \<open>loads\<close> is
  \<open>json.loads\<close> (\<open>None\<close> is a decode error), \<open>dumps\<close> is \<open>json.dumps(_, ensure_ascii=False)\<close>,
  \<open>pystr\<close> is \<open>str\<close> on values that are not strings, and the language model is a function of the
  prompt. \<open>ValueError\<close> is an \<open>Inl\<close> with its message.
\<close>

section \<open>Reading the model's answer\<close>

definition str_of :: "(json \<Rightarrow> str) \<Rightarrow> json \<Rightarrow> str" where
  "str_of pystr v = (case v of JStr s \<Rightarrow> s | _ \<Rightarrow> pystr v)"

text \<open>\<open>a or b\<close> on decoded values.\<close>

definition jor :: "json \<Rightarrow> json \<Rightarrow> json" where
  "jor a b = (if truthy a then a else b)"

text \<open>\<open>re.search(r"\{.*\}", raw, re.DOTALL)\<close>: from the first opening brace to the last closing one.\<close>

definition braced :: "str \<Rightarrow> str option" where
  "braced raw = (let t = dropWhile (\<lambda>c. c \<noteq> 123) raw;
                     u = rev (dropWhile (\<lambda>c. c \<noteq> 125) (rev t))
                 in if u = [] then None else Some u)"

definition parse_planner_output :: "(str \<Rightarrow> json option) \<Rightarrow> str \<Rightarrow> str + (str, json) dict" where
  "parse_planner_output loads raw =
     (case braced raw of
        None \<Rightarrow> Inl (lit ''planner output contains no json object'')
      | Some text \<Rightarrow>
          (case loads text of
             None \<Rightarrow> Inl (lit ''JSONDecodeError'')
           | Some (JObj data) \<Rightarrow> Inr data
           | Some _ \<Rightarrow> Inl (lit ''planner output is not an object'')))"

section \<open>Plans\<close>

definition MAX_GOAL_LENGTH :: nat where "MAX_GOAL_LENGTH = 300"
definition MAX_CLARIFICATION_OPTIONS :: nat where "MAX_CLARIFICATION_OPTIONS = 6"
definition MAX_OPTION_LENGTH :: nat where "MAX_OPTION_LENGTH = 120"

text \<open>The variables of the loop of \<open>sanitize_plan\<close>; \<open>goal\<close> is one of them, because the body assigns it.\<close>

record sanitize_loop =
  l_goal :: str
  l_dropped :: "str list"
  l_seen :: "str set"
  l_nodes :: "plan_node list"

definition drop_node :: "str \<Rightarrow> sanitize_loop \<Rightarrow> sanitize_loop" where
  "drop_node reason l = l\<lparr>l_dropped := l_dropped l @ [reason]\<rparr>"

definition node_name :: "(json \<Rightarrow> str) \<Rightarrow> (str, json) dict \<Rightarrow> nat \<Rightarrow> str" where
  "node_name pystr raw count =
     (let fallback = lit ''n'' @ show_nat (count + 1);
          name = strip (str_of pystr (jor (jget raw (lit ''id'')) (JStr fallback)))
      in if name = [] then fallback else name)"

definition string_items :: "json \<Rightarrow> str list" where
  "string_items v = (case v of
     JList xs \<Rightarrow> concat (map (\<lambda>x. case x of JStr s \<Rightarrow> if s = [] then [] else [s] | _ \<Rightarrow> []) xs)
   | _ \<Rightarrow> [])"

definition obj_items :: "json \<Rightarrow> (str, json) dict" where
  "obj_items v = (case v of JObj kvs \<Rightarrow> kvs | _ \<Rightarrow> [])"

definition accept_node ::
  "(json \<Rightarrow> str) \<Rightarrow> ((str, json) dict \<Rightarrow> str) \<Rightarrow> str \<Rightarrow> str \<Rightarrow> str option \<Rightarrow> str option
   \<Rightarrow> (str, json) dict \<Rightarrow> sanitize_loop \<Rightarrow> sanitize_loop" where
  "accept_node pystr dumps node_id node_type tool agent raw l =
     (let goal = take MAX_GOAL_LENGTH (str_of pystr
            (jor (jor (jget raw (lit ''goal'')) (jget raw (lit ''objective''))) (JStr node_type)));
          params = obj_items (jor (jor (jget raw (lit ''params'')) (jget raw (lit ''arguments''))) (JObj []));
          node = \<lparr>n_node_id = node_id, n_objective = goal, n_node_type = node_type, n_tool = tool,
                  n_agent_name = agent, n_arguments_json = dumps params,
                  n_depends_on = string_items (jor (jget raw (lit ''depends_on'')) (JList [])),
                  n_race_group = (case jget raw (lit ''race_group'') of JStr g \<Rightarrow> Some g | _ \<Rightarrow> None)\<rparr>
      in l\<lparr>l_goal := goal, l_seen := insert node_id (l_seen l), l_nodes := l_nodes l @ [node]\<rparr>)"

definition sanitize_step ::
  "(json \<Rightarrow> str) \<Rightarrow> ((str, json) dict \<Rightarrow> str) \<Rightarrow> str set \<Rightarrow> str set \<Rightarrow> nat
   \<Rightarrow> nat \<times> json \<Rightarrow> sanitize_loop \<Rightarrow> sanitize_loop" where
  "sanitize_step pystr dumps known_tools known_agents max_nodes = (\<lambda>(index, item) l.
     (case item of
        JObj raw \<Rightarrow>
          if length (l_nodes l) \<ge> max_nodes
          then drop_node (lit ''n'' @ show_nat (index + 1) @ lit '':over_limit_or_invalid'') l
          else
          let node_id = node_name pystr raw (length (l_nodes l)) in
          if node_id \<in> l_seen l then drop_node (node_id @ lit '':duplicate_id'') l
          else
          let node_type = strip (str_of pystr (jor (jget raw (lit ''type'')) (JStr (lit ''tool'')))) in
          if node_type = lit ''sub_agent'' then
            (case jget raw (lit ''agent'') of
               JStr agent \<Rightarrow>
                 if agent \<notin> known_agents then drop_node (node_id @ lit '':unknown_agent'') l
                 else accept_node pystr dumps node_id node_type None (Some agent) raw l
             | _ \<Rightarrow> drop_node (node_id @ lit '':unknown_agent'') l)
          else
            (case jget raw (lit ''tool'') of
               JStr tool \<Rightarrow>
                 if tool \<notin> known_tools then drop_node (node_id @ lit '':unknown_tool:'' @ tool) l
                 else accept_node pystr dumps node_id (lit ''tool'') (Some tool) None raw l
             | v \<Rightarrow> drop_node (node_id @ lit '':unknown_tool:'' @ pystr v) l)
      | _ \<Rightarrow> drop_node (lit ''n'' @ show_nat (index + 1) @ lit '':over_limit_or_invalid'') l))"

definition sanitize_nodes ::
  "(json \<Rightarrow> str) \<Rightarrow> ((str, json) dict \<Rightarrow> str) \<Rightarrow> str set \<Rightarrow> str set \<Rightarrow> nat \<Rightarrow> str \<Rightarrow> json list
   \<Rightarrow> sanitize_loop" where
  "sanitize_nodes pystr dumps known_tools known_agents max_nodes goal raw_nodes =
     fold (sanitize_step pystr dumps known_tools known_agents max_nodes)
       (List.enumerate 0 (take (max_nodes * 2) raw_nodes))
       \<lparr>l_goal = goal, l_dropped = [], l_seen = {}, l_nodes = []\<rparr>"

definition sanitize_plan ::
  "(json \<Rightarrow> str) \<Rightarrow> ((str, json) dict \<Rightarrow> str) \<Rightarrow> (str, json) dict \<Rightarrow> str \<Rightarrow> str set \<Rightarrow> str set \<Rightarrow> nat
   \<Rightarrow> int \<Rightarrow> bool \<Rightarrow> str + plan \<times> str list" where
  "sanitize_plan pystr dumps data goal known_tools known_agents max_nodes revision allow_external_deps =
     (case jget data (lit ''nodes'') of
        JList raw_nodes \<Rightarrow>
          let l = sanitize_nodes pystr dumps known_tools known_agents max_nodes goal raw_nodes;
              plan = \<lparr>p_revision = revision, p_goal = take MAX_GOAL_LENGTH (l_goal l), p_nodes = l_nodes l\<rparr>
          in if allow_external_deps then
               if has_cycle (p_nodes plan) then Inl (lit ''plan invalid: plan_cycle'')
               else if l_nodes l = [] then Inl (lit ''plan invalid: plan_empty'')
               else Inr (plan, l_dropped l)
             else
               let errors = validate_plan plan known_tools known_agents in
               if errors \<noteq> [] \<or> l_nodes l = []
               then Inl (lit ''plan invalid: '' @ join_strs (lit '','') errors)
               else Inr (plan, l_dropped l)
      | _ \<Rightarrow> Inl (lit ''planner output missing nodes''))"

section \<open>Clarification\<close>

text \<open>The options kept: strings, integers (a \<open>bool\<close> is one) and floats whose text is not blank.\<close>

definition option_text :: "(json \<Rightarrow> str) \<Rightarrow> json \<Rightarrow> str list" where
  "option_text pystr item =
     (let ok = (case item of JStr _ \<Rightarrow> True | JInt _ \<Rightarrow> True | JBool _ \<Rightarrow> True | JFloat _ _ \<Rightarrow> True | _ \<Rightarrow> False)
      in if ok \<and> strip (str_of pystr item) \<noteq> [] then [take MAX_OPTION_LENGTH (str_of pystr item)] else [])"

definition sanitize_clarification ::
  "(json \<Rightarrow> str) \<Rightarrow> (str, json) dict \<Rightarrow> clarification_request option" where
  "sanitize_clarification pystr data =
     (case jget data (lit ''clarification'') of
        JObj raw \<Rightarrow>
          let question = strip (str_of pystr (jor (jget raw (lit ''question'')) (JStr []))) in
          if question = [] then None
          else let options_raw = (case jor (jget raw (lit ''options'')) (JList []) of JList xs \<Rightarrow> xs | _ \<Rightarrow> []);
                   options = take MAX_CLARIFICATION_OPTIONS (concat (map (option_text pystr) options_raw))
               in Some \<lparr>cr_question = take 500 question, cr_options = options,
                        cr_multi_select = truthy (jget raw (lit ''multi_select'')),
                        cr_allow_custom = True, cr_allow_skip = True\<rparr>
      | _ \<Rightarrow> None)"

text \<open>
  \<open>interrupt_clarification\<close>: what the graph hands back on resume is an answer object, a decoded
  object or anything else. A truthy \<open>selected\<close> that is no list, string or object cannot be iterated
  (\<open>TypeError\<close>, here \<open>None\<close>).
\<close>

datatype resume_value = Resume_answer clarification_answer | Resume_json json

definition selected_items :: "(json \<Rightarrow> str) \<Rightarrow> json \<Rightarrow> str list option" where
  "selected_items pystr v =
     (if \<not> truthy v then Some []
      else case v of
        JList xs \<Rightarrow> Some (map (str_of pystr) xs)
      | JStr s \<Rightarrow> Some (map (\<lambda>c. [c]) s)
      | JObj kvs \<Rightarrow> Some (dkeys kvs)
      | _ \<Rightarrow> None)"

definition interrupt_clarification :: "(json \<Rightarrow> str) \<Rightarrow> resume_value \<Rightarrow> clarification_answer option" where
  "interrupt_clarification pystr value =
     (case value of
        Resume_answer answer \<Rightarrow> Some answer
      | Resume_json (JObj d) \<Rightarrow>
          map_option (\<lambda>selected. \<lparr>ca_selected = selected,
              ca_custom = (case jget d (lit ''custom'') of JStr c \<Rightarrow> Some c | _ \<Rightarrow> None),
              ca_skipped = truthy (jget d (lit ''skipped''))\<rparr>)
            (selected_items pystr (jget d (lit ''selected'')))
      | Resume_json _ \<Rightarrow> Some \<lparr>ca_selected = [], ca_custom = None, ca_skipped = True\<rparr>)"

section \<open>The planner node\<close>

record tool_info =
  t_name :: str
  t_description :: str
  t_parameters_json :: str

record agent_info =
  ai_name :: str
  ai_description :: str

text \<open>The two catalogues in the prompt; the Chinese fragments are given by their code points.\<close>

definition no_tools_text :: str where
  "no_tools_text = [65288, 24403, 21069, 26080, 21487, 29992, 24037, 20855, 65289]"

definition no_agents_text :: str where
  "no_agents_text = [65288, 26080, 23376, 32, 65, 103, 101, 110, 116, 32, 21487, 29992, 65307, 116, 121, 112, 101,
     32, 21482, 33021, 26159, 32, 116, 111, 111, 108, 65289]"

definition tool_catalog_text :: "tool_info list \<Rightarrow> str" where
  "tool_catalog_text tools =
     (if tools = [] then no_tools_text
      else join_strs [10] (map (\<lambda>item. lit ''- '' @ t_name item @ [65306] @ t_description item
             @ [32, 21442, 25968, 65306] @ t_parameters_json item) tools))"

definition agent_catalog_text :: "agent_info list \<Rightarrow> str" where
  "agent_catalog_text agents =
     (if agents = [] then no_agents_text
      else join_strs [10] (map (\<lambda>item. lit ''- '' @ ai_name item @ [65306] @ ai_description item) agents))"

definition clarification_supplement :: "clarification_answer option \<Rightarrow> str" where
  "clarification_supplement answer = (case answer of None \<Rightarrow> [] | Some a \<Rightarrow> [10, 10] @ as_text a)"

definition plan_prompt :: "str \<Rightarrow> tool_info list \<Rightarrow> agent_info list \<Rightarrow> str \<Rightarrow> str" where
  "plan_prompt system_prompt tools agents task_text =
     system_prompt @ [10, 10, 21487, 29992, 24037, 20855, 65306, 10] @ tool_catalog_text tools
     @ [10, 10, 21487, 29992, 23376, 32, 65, 103, 101, 110, 116, 65306, 10] @ agent_catalog_text agents
     @ [10, 10, 20219, 21153, 65306] @ task_text"

definition retry_prompt :: "str \<Rightarrow> str \<Rightarrow> str" where
  "retry_prompt prompt raw =
     prompt @ [10, 10, 20320, 19978, 19968, 27425, 30340, 36755, 20986, 19981, 26159, 21512, 27861, 32, 74, 83, 79, 78,
       65288, 29255, 27573, 65306] @ take 200 raw
     @ [65289, 12290, 35831, 37325, 26032, 21482, 36755, 20986, 19968, 20010, 21512, 27861, 32, 74, 83, 79, 78, 32,
        23545, 35937, 12290]"

text \<open>\<open>_invoke\<close>: the memory prefix, when there is one, goes before the fixed system message.\<close>

definition invoke_model :: "(str \<Rightarrow> str \<Rightarrow> 'a) \<Rightarrow> str \<Rightarrow> str \<Rightarrow> 'a" where
  "invoke_model model mem_prefix prompt =
     model ((if mem_prefix = [] then [] else mem_prefix @ [10, 10])
            @ [20320, 21482, 36755, 20986, 32, 74, 83, 79, 78, 12290]) prompt"

definition plan_once ::
  "(str \<Rightarrow> json option) \<Rightarrow> (str \<Rightarrow> str \<Rightarrow> str) \<Rightarrow> str \<Rightarrow> tool_info list \<Rightarrow> agent_info list \<Rightarrow> str \<Rightarrow> str
   \<Rightarrow> str + (str, json) dict" where
  "plan_once loads model system_prompt tools agents mem_prefix task_text =
     (let prompt = plan_prompt system_prompt tools agents task_text;
          raw = invoke_model model mem_prefix prompt
      in case parse_planner_output loads raw of
           Inr data \<Rightarrow> Inr data
         | Inl _ \<Rightarrow> parse_planner_output loads (invoke_model model mem_prefix (retry_prompt prompt raw)))"

text \<open>The events the node publishes, and how it ends: with a new state, paused on an interrupt, or
  with an exception.\<close>

datatype plan_event =
    Planning_started nat
  | Clarification_requested clarification_request
  | Plan_degraded str
  | Nodes_dropped "str list"
  | Plan_created plan

datatype planner_result =
    Planner_done "plan_event list" run_state
  | Planner_paused "plan_event list" clarification_request
  | Planner_raised "plan_event list" str

record planner_config =
  pc_pystr :: "json \<Rightarrow> str"
  pc_dumps :: "(str, json) dict \<Rightarrow> str"
  pc_loads :: "str \<Rightarrow> json option"
  pc_model :: "str \<Rightarrow> str \<Rightarrow> str"
  pc_system_prompt :: str
  pc_mem_prefix :: str
  pc_tools :: "tool_info list"
  pc_agents :: "agent_info list"
  pc_max_nodes :: nat

definition ask_model :: "planner_config \<Rightarrow> str \<Rightarrow> str + (str, json) dict" where
  "ask_model cfg = plan_once (pc_loads cfg) (pc_model cfg) (pc_system_prompt cfg) (pc_tools cfg)
     (pc_agents cfg) (pc_mem_prefix cfg)"

definition action_of :: "(json \<Rightarrow> str) \<Rightarrow> str \<Rightarrow> (str, json) dict \<Rightarrow> str" where
  "action_of pystr otherwise data = str_of pystr (jor (jget data (lit ''action'')) (JStr otherwise))"

definition fall_back :: "run_state \<Rightarrow> run_state" where
  "fall_back state = state\<lparr>rs_phase := Some (lit ''selecting_tools''), rs_plan := None\<rparr>"

text \<open>The last part of the node: the answer's action decides.\<close>

definition conclude_plan ::
  "planner_config \<Rightarrow> plan_event list \<Rightarrow> str \<Rightarrow> (str, json) dict \<Rightarrow> run_state \<Rightarrow> planner_result" where
  "conclude_plan cfg events task_text data state =
     (if action_of (pc_pystr cfg) (lit ''direct'') data = lit ''plan'' then
        (case sanitize_plan (pc_pystr cfg) (pc_dumps cfg) data task_text (set (map t_name (pc_tools cfg)))
                (set (map ai_name (pc_agents cfg))) (pc_max_nodes cfg) 1 False of
           Inl message \<Rightarrow> Planner_done (events @ [Plan_degraded (take 200 message)]) (fall_back state)
         | Inr (plan, dropped) \<Rightarrow>
             Planner_done (events @ (if dropped = [] then [] else [Nodes_dropped dropped]) @ [Plan_created plan])
               (state\<lparr>rs_phase := Some (lit ''planning''), rs_plan := Some plan\<rparr>))
      else Planner_done events (fall_back state))"

definition planner :: "planner_config \<Rightarrow> resume_value option \<Rightarrow> run_state \<Rightarrow> planner_result" where
  "planner cfg resume state =
     (case rs_task_input state of
        None \<Rightarrow> Planner_raised [] (lit ''run is missing task input'')
      | Some task_input \<Rightarrow>
          let answer = rs_clarification_answer state;
              task_text = ti_content task_input @ clarification_supplement answer;
              events = [Planning_started (length task_text)]
          in (case ask_model cfg task_text of
                Inl message \<Rightarrow> Planner_raised events message
              | Inr data \<Rightarrow>
                  (case (if action_of (pc_pystr cfg) (lit ''direct'') data = lit ''clarify'' \<and> answer = None
                         then sanitize_clarification (pc_pystr cfg) data else None) of
                     None \<Rightarrow> conclude_plan cfg events task_text data state
                   | Some request \<Rightarrow>
                       let asked = events @ [Clarification_requested request] in
                       (case resume of
                          None \<Rightarrow> Planner_paused asked request
                        | Some value \<Rightarrow>
                            (case interrupt_clarification (pc_pystr cfg) value of
                               None \<Rightarrow> Planner_raised asked (lit ''TypeError'')
                             | Some user_answer \<Rightarrow>
                                 (case ask_model cfg (task_text @ clarification_supplement (Some user_answer)) of
                                    Inl message \<Rightarrow> Planner_raised asked message
                                  | Inr revised \<Rightarrow> conclude_plan cfg asked task_text revised state))))))"

section \<open>What a sanitized plan satisfies\<close>

definition allowed_node :: "str set \<Rightarrow> str set \<Rightarrow> plan_node \<Rightarrow> bool" where
  "allowed_node tools agents node \<longleftrightarrow>
     (n_node_type node = lit ''tool'' \<and> (\<exists>t \<in> tools. n_tool node = Some t) \<and> n_agent_name node = None
      \<or> n_node_type node = lit ''sub_agent'' \<and> n_tool node = None \<and> (\<exists>a \<in> agents. n_agent_name node = Some a))
     \<and> n_node_id node \<noteq> [] \<and> [] \<notin> set (n_depends_on node) \<and> length (n_objective node) \<le> MAX_GOAL_LENGTH"

definition loop_inv :: "str set \<Rightarrow> str set \<Rightarrow> nat \<Rightarrow> str \<Rightarrow> sanitize_loop \<Rightarrow> bool" where
  "loop_inv tools agents max_nodes goal l \<longleftrightarrow> length (l_nodes l) \<le> max_nodes
     \<and> l_seen l = set (node_ids (l_nodes l)) \<and> distinct (node_ids (l_nodes l))
     \<and> (\<forall>node \<in> set (l_nodes l). allowed_node tools agents node)
     \<and> l_goal l = (if l_nodes l = [] then goal else n_objective (last (l_nodes l)))"

lemma show_nat_nonempty [simp]: "show_nat n \<noteq> []"
  by (subst show_nat.simps) simp

lemma node_name_nonempty: "node_name pystr raw count \<noteq> []"
  by (simp add: node_name_def Let_def)

lemma string_items_nonempty: "[] \<notin> set (string_items v)"
  by (auto simp: string_items_def split: json.splits if_splits)

lemma drop_node_inv: "loop_inv tools agents m g l \<Longrightarrow> loop_inv tools agents m g (drop_node reason l)"
  by (simp add: loop_inv_def drop_node_def)

lemma accept_node_inv:
  assumes "loop_inv tools agents m g l" and "length (l_nodes l) < m" and "node_id \<notin> l_seen l" and "node_id \<noteq> []"
    and "node_type = lit ''tool'' \<and> (\<exists>t \<in> tools. tool = Some t) \<and> agent = None
       \<or> node_type = lit ''sub_agent'' \<and> tool = None \<and> (\<exists>a \<in> agents. agent = Some a)"
  shows "loop_inv tools agents m g (accept_node pystr dumps node_id node_type tool agent raw l)"
  using assms string_items_nonempty
  by (auto simp: loop_inv_def accept_node_def Let_def allowed_node_def node_ids_def)

lemma sanitize_step_inv:
  assumes "loop_inv tools agents m g l"
  shows "loop_inv tools agents m g (sanitize_step pystr dumps tools agents m p l)"
proof -
  obtain index item where p: "p = (index, item)" by force
  show ?thesis
    unfolding p sanitize_step_def
    by (auto simp: Let_def assms node_name_nonempty not_le split: json.split
        intro!: drop_node_inv accept_node_inv)
qed

lemma sanitize_nodes_inv:
  "loop_inv tools agents m g (sanitize_nodes pystr dumps tools agents m g raw_nodes)"
proof -
  have "loop_inv tools agents m g (fold (sanitize_step pystr dumps tools agents m) ps l)"
    if "loop_inv tools agents m g l" for ps l
    using that by (induction ps arbitrary: l) (simp_all add: sanitize_step_inv)
  moreover have "loop_inv tools agents m g \<lparr>l_goal = g, l_dropped = [], l_seen = {}, l_nodes = []\<rparr>"
    by (simp add: loop_inv_def node_ids_def)
  ultimately show ?thesis unfolding sanitize_nodes_def by blast
qed

lemma sanitize_plan_Inr:
  assumes "sanitize_plan pystr dumps data goal tools agents m n ext = Inr (plan, dropped)"
  shows "p_revision plan = n" and "p_nodes plan \<noteq> []" and "length (p_nodes plan) \<le> m"
    and "distinct (node_ids (p_nodes plan))" and "\<forall>node \<in> set (p_nodes plan). allowed_node tools agents node"
    and "acyclic (dep_rel (p_nodes plan))" and "\<not> ext \<Longrightarrow> validate_plan plan tools agents = []"
    and "p_goal plan = n_objective (last (p_nodes plan))"
proof -
  from assms obtain raw_nodes where raw: "jget data (lit ''nodes'') = JList raw_nodes"
    by (auto simp: sanitize_plan_def split: json.splits)
  define l where "l = sanitize_nodes pystr dumps tools agents m goal raw_nodes"
  have inv: "loop_inv tools agents m goal l" unfolding l_def by (rule sanitize_nodes_inv)
  from assms raw have plan: "plan = \<lparr>p_revision = n, p_goal = take MAX_GOAL_LENGTH (l_goal l), p_nodes = l_nodes l\<rparr>"
    and ne: "l_nodes l \<noteq> []" and ext: "ext \<Longrightarrow> \<not> has_cycle (l_nodes l)"
    and valid: "\<not> ext \<Longrightarrow> validate_plan plan tools agents = []"
    by (auto simp: sanitize_plan_def Let_def l_def split: if_splits)
  show "p_revision plan = n" "p_nodes plan \<noteq> []" "length (p_nodes plan) \<le> m"
    "distinct (node_ids (p_nodes plan))" "\<forall>node \<in> set (p_nodes plan). allowed_node tools agents node"
    using inv ne by (auto simp: plan loop_inv_def)
  show "\<not> ext \<Longrightarrow> validate_plan plan tools agents = []" by (rule valid)
  show "acyclic (dep_rel (p_nodes plan))"
    using ext valid by (cases ext) (auto simp: plan has_cycle_iff validate_plan_iff wf_plan_def)
  have "n_objective (last (l_nodes l)) = take MAX_GOAL_LENGTH (n_objective (last (l_nodes l)))"
    using inv ne by (auto simp: loop_inv_def allowed_node_def)
  then show "p_goal plan = n_objective (last (p_nodes plan))"
    using inv ne by (simp add: plan loop_inv_def)
qed

text \<open>C24: A plan made from a model answer has between one and the maximal number of nodes, with distinct
  non-empty ids, each a whitelisted tool or a registered agent, no empty dependency and a short
  objective, and without a cycle of two or more nodes. Without external dependencies it passes the structural check, and
  then no node depends on itself either, directly or through others; with them a node that names itself is let through.
  The goal of the plan is the objective of its last node.\<close>

theorem sanitize_plan_sound:
  assumes "sanitize_plan pystr dumps data goal tools agents max_nodes revision ext = Inr (plan, dropped)"
  shows "p_revision plan = revision \<and> 1 \<le> length (p_nodes plan) \<and> length (p_nodes plan) \<le> max_nodes
    \<and> distinct (node_ids (p_nodes plan)) \<and> (\<forall>node \<in> set (p_nodes plan). allowed_node tools agents node)
    \<and> acyclic (all_deps (p_nodes plan) - Id)
    \<and> (\<not> ext \<longrightarrow> validate_plan plan tools agents = [] \<and> acyclic (all_deps (p_nodes plan)))
    \<and> p_goal plan = n_objective (last (p_nodes plan))"
proof -
  note s = sanitize_plan_Inr [OF assms]
  have "1 \<le> length (p_nodes plan)" using s(2) by (cases "p_nodes plan") auto
  moreover have "acyclic (all_deps (p_nodes plan))" if "\<not> ext"
    using s(7) [OF that] by (auto simp: validate_plan_iff wf_plan_def wf_node_def acyclic_all_deps)
  ultimately show ?thesis using s(1,3-8) by (simp add: dep_rel_all)
qed

definition demo_data :: "(str, json) dict" where
  "demo_data = [(lit ''action'', JStr (lit ''plan'')),
     (lit ''nodes'', JList [JObj [(lit ''id'', JStr (lit ''a'')), (lit ''tool'', JStr (lit ''search'')),
                               (lit ''goal'', JStr (lit ''find''))]])]"

lemma demo_sanitized:
  "sanitize_plan (\<lambda>_. []) (\<lambda>_. lit ''{}'') demo_data (lit ''task'') {lit ''search''} {} 8 1 True =
     Inr (\<lparr>p_revision = 1, p_goal = lit ''find'', p_nodes =
       [\<lparr>n_node_id = lit ''a'', n_objective = lit ''find'', n_node_type = lit ''tool'',
         n_tool = Some (lit ''search''), n_agent_name = None, n_arguments_json = lit ''{}'',
         n_depends_on = [], n_race_group = None\<rparr>]\<rparr>, [])"
proof -
  have lits: "strip (lit ''a'') = lit ''a''" "strip (lit ''tool'') = lit ''tool''"
    by (simp_all add: strip_def lit_def is_space_def)
  have "\<not> has_cycle [\<lparr>n_node_id = lit ''a'', n_objective = lit ''find'', n_node_type = lit ''tool'',
         n_tool = Some (lit ''search''), n_agent_name = None, n_arguments_json = lit ''{}'',
         n_depends_on = [], n_race_group = None\<rparr>]"
    by (simp add: has_cycle_iff node_ids_def dep_rel_def acyclic_def)
  then show ?thesis
    by (simp add: sanitize_plan_def demo_data_def jget_def sanitize_nodes_def sanitize_step_def
        accept_node_def node_name_def jor_def str_of_def Let_def lits string_items_def obj_items_def
        MAX_GOAL_LENGTH_def enumerate_Suc_eq) (simp add: lit_def)
qed

theorem sanitize_plan_sound_witness:
  "p_goal (fst (projr (sanitize_plan (\<lambda>_. []) (\<lambda>_. lit ''{}'') demo_data (lit ''task'') {lit ''search''} {} 8 1 True)))
     = lit ''find''"
  using sanitize_plan_sound [OF demo_sanitized] demo_sanitized by simp

section \<open>How the planner node ends\<close>

text \<open>The state the node may leave behind.\<close>

definition planned_state :: "planner_config \<Rightarrow> run_state \<Rightarrow> run_state \<Rightarrow> bool" where
  "planned_state cfg state state' \<longleftrightarrow>
     rs_task_input state' = rs_task_input state \<and> rs_node_outcomes state' = rs_node_outcomes state
     \<and> (case rs_plan state' of
          None \<Rightarrow> rs_phase state' = Some (lit ''selecting_tools'')
        | Some plan \<Rightarrow> rs_phase state' = Some (lit ''planning'')
            \<and> validate_plan plan (set (map t_name (pc_tools cfg))) (set (map ai_name (pc_agents cfg))) = []
            \<and> length (p_nodes plan) \<le> pc_max_nodes cfg \<and> p_revision plan = 1
            \<and> (\<forall>node \<in> set (p_nodes plan). [] \<notin> set (n_depends_on node)))"

lemma conclude_plan_done:
  "\<exists>events' state'. conclude_plan cfg events task_text data state = Planner_done events' state'
     \<and> planned_state cfg state state'"
proof (cases "sanitize_plan (pc_pystr cfg) (pc_dumps cfg) data task_text (set (map t_name (pc_tools cfg)))
                (set (map ai_name (pc_agents cfg))) (pc_max_nodes cfg) 1 False")
  case (Inl e)
  then show ?thesis by (simp add: conclude_plan_def fall_back_def planned_state_def)
next
  case (Inr p)
  obtain plan dropped where p: "p = (plan, dropped)" by force
  from sanitize_plan_Inr [OF Inr [unfolded p]]
  have "validate_plan plan (set (map t_name (pc_tools cfg))) (set (map ai_name (pc_agents cfg))) = []"
    "length (p_nodes plan) \<le> pc_max_nodes cfg" "p_revision plan = 1"
    "\<forall>node \<in> set (p_nodes plan). [] \<notin> set (n_depends_on node)"
    by (auto simp: allowed_node_def)
  then show ?thesis
    using Inr p by (simp add: conclude_plan_def fall_back_def planned_state_def)
qed

definition bounded_request :: "clarification_request \<Rightarrow> bool" where
  "bounded_request request \<longleftrightarrow> length (cr_options request) \<le> 6
     \<and> (\<forall>item \<in> set (cr_options request). length item \<le> 120)
     \<and> cr_question request \<noteq> [] \<and> length (cr_question request) \<le> 500"

lemma sanitize_clarification_bounded:
  assumes "sanitize_clarification pystr data = Some request"
  shows "bounded_request request"
proof -
  have "length item \<le> 120" if "item \<in> set (take 6 (concat (map (option_text pystr) xs)))" for item xs
    using in_set_takeD [OF that] by (auto simp: option_text_def Let_def MAX_OPTION_LENGTH_def split: if_splits)
  with assms show ?thesis
    by (auto simp: sanitize_clarification_def bounded_request_def Let_def MAX_CLARIFICATION_OPTIONS_def
        split: json.splits if_splits)
qed

lemma planner_cases:
  obtains (raised) events message where "planner cfg resume state = Planner_raised events message"
  | (paused) events data request where "planner cfg resume state = Planner_paused events request"
      and "resume = None" and "rs_clarification_answer state = None"
      and "sanitize_clarification (pc_pystr cfg) data = Some request"
  | (concluded) events task_text data where
      "planner cfg resume state = conclude_plan cfg events task_text data state"
proof (cases "rs_task_input state")
  case None
  then show ?thesis using raised by (simp add: planner_def)
next
  case (Some ti)
  define task where "task = ti_content ti @ clarification_supplement (rs_clarification_answer state)"
  define events where "events = [Planning_started (length task)]"
  note start = planner_def [of cfg resume state] Some task_def [symmetric] events_def [symmetric] Let_def
  show ?thesis
  proof (cases "ask_model cfg task")
    case (Inl e)
    then show ?thesis using raised by (simp add: start)
  next
    case (Inr data)
    define ask where "ask = (if action_of (pc_pystr cfg) (lit ''direct'') data = lit ''clarify''
        \<and> rs_clarification_answer state = None then sanitize_clarification (pc_pystr cfg) data else None)"
    show ?thesis
    proof (cases ask)
      case None
      with Inr show ?thesis using concluded by (simp add: start ask_def [symmetric])
    next
      case asked: (Some request)
      then have r: "rs_clarification_answer state = None" "sanitize_clarification (pc_pystr cfg) data = Some request"
        by (auto simp: ask_def split: if_splits)
      define asks where "asks = events @ [Clarification_requested request]"
      have eq: "planner cfg resume state = (case resume of None \<Rightarrow> Planner_paused asks request
          | Some value \<Rightarrow> (case interrupt_clarification (pc_pystr cfg) value of
              None \<Rightarrow> Planner_raised asks (lit ''TypeError'')
            | Some user_answer \<Rightarrow>
               (case ask_model cfg (task @ clarification_supplement (Some user_answer)) of
                  Inl message \<Rightarrow> Planner_raised asks message
                | Inr revised \<Rightarrow> conclude_plan cfg asks task revised state)))"
        unfolding start option.case Inr sum.case ask_def [symmetric] asked asks_def [symmetric] ..
      show ?thesis
      proof (cases resume)
        case None
        with eq r show ?thesis using paused by simp
      next
        case given: (Some v)
        show ?thesis
        proof (cases "interrupt_clarification (pc_pystr cfg) v")
          case None
          with eq given show ?thesis using raised by simp
        next
          case (Some user_answer)
          with eq given show ?thesis
            using raised concluded
            by (cases "ask_model cfg (task @ clarification_supplement (Some user_answer))") simp_all
        qed
      qed
    qed
  qed
qed

text \<open>C25: The planner node, whatever the model answers, either raises, pauses on one clarification of
  bounded size that the user has not answered yet, or ends in the planning phase with a plan that
  passes the structural check within the node limit, or in the tool-selection phase without a plan;
  it leaves the task and the outcomes alone.\<close>

theorem planner_result_sound:
  "case planner cfg resume state of
     Planner_raised events message \<Rightarrow> True
   | Planner_paused events request \<Rightarrow>
       resume = None \<and> rs_clarification_answer state = None \<and> bounded_request request
   | Planner_done events state' \<Rightarrow> planned_state cfg state state'"
proof (cases rule: planner_cases [of cfg resume state])
  case (concluded events task_text data)
  then show ?thesis using conclude_plan_done [of cfg events task_text data state] by force
qed (simp_all add: sanitize_clarification_bounded)

end
