(* ===== verification/Tool_Models.thy ===== *)
theory Tool_Models
  imports Prelude
begin

text \<open>
  \<open>src/src/tools/models.py\<close> and \<open>src/src/tools/errors.py\<close>: the values of the tool domain. The string
  literals of the source are constructors; an \<open>Operation\<close> is a mutable object there, and each
  assignment to it is followed by \<open>OperationStore.update\<close>, so here it is a value that is stored
  again.
\<close>

datatype risk_level = Safe | Warn | Block
datatype tool_source = Native | Mcp

datatype operation_status =
  Op_queued | Op_running | Op_awaiting_approval | Op_succeeded | Op_failed | Op_cancelled

datatype tool_result_status = Res_success | Res_error | Res_blocked | Res_cancelled | Res_awaiting_approval

datatype approval_status = Ap_pending | Ap_approved | Ap_rejected | Ap_expired | Ap_cancelled

record artifact_ref =
  ar_artifact_id :: str
  ar_source :: str
  ar_size_bytes :: nat
  ar_content_type :: str
  ar_checksum_sha256 :: "str option"

record model_tool_call =
  mc_id :: str
  mc_name :: str
  mc_arguments :: "(str, json) dict"

record staged_tool_call =
  st_tool_call_id :: str
  st_operation_key :: str
  st_tool_id :: str

record tool_descriptor =
  td_tool_id :: str
  td_public_name :: str
  td_source :: tool_source
  td_description :: str
  td_input_schema :: json
  td_server_id :: "str option"
  td_risk :: risk_level
  td_version :: str
  td_exposed :: bool
  td_unavailable_reason :: "str option"
  td_metadata :: "(str \<times> str) list"

record tool_catalog_snapshot =
  ts_snapshot_id :: str
  ts_created_at :: datetime
  ts_policy_version :: str
  ts_catalog_revision :: int
  ts_sandbox_state :: str
  ts_tools :: "tool_descriptor list"
  ts_run_id :: "str option"

record operation =
  op_operation_id :: str
  op_run_id :: str
  op_owner_id :: str
  op_tool_call_id :: str
  op_operation_key :: str
  op_tool_id :: str
  op_status :: operation_status
  op_risk :: risk_level
  op_created_at :: datetime
  op_updated_at :: datetime
  op_approval_id :: "str option"
  op_error_code :: "str option"
  op_result_summary :: "str option"
  op_source :: tool_source
  op_server_id :: "str option"
  op_arguments_summary :: str
  op_risk_reason :: "str option"
  op_timing_ms :: int
  op_artifacts :: "artifact_ref list"
  op_sandbox_generation_id :: "str option"
  op_sandbox_state :: str

record tool_result =
  tr_tool_call_id :: str
  tr_operation_id :: str
  tr_status :: tool_result_status
  tr_summary :: str
  tr_content :: str
  tr_artifacts :: "artifact_ref list"
  tr_error :: "str option"
  tr_timing_ms :: int
  tr_approval_id :: "str option"

record approval_item =
  ap_approval_id :: str
  ap_run_id :: str
  ap_owner_id :: str
  ap_operation_id :: str
  ap_tool_id :: str
  ap_tool_call_id :: str
  ap_risk :: risk_level
  ap_reason :: str
  ap_created_at :: datetime
  ap_expires_at :: datetime
  ap_status :: approval_status
  ap_decided_at :: "datetime option"
  ap_rejected_reason :: "str option"

definition exposed_tools :: "tool_catalog_snapshot \<Rightarrow> tool_descriptor list" where
  "exposed_tools snapshot = filter td_exposed (ts_tools snapshot)"

definition by_id :: "tool_catalog_snapshot \<Rightarrow> str \<Rightarrow> tool_descriptor option" where
  "by_id snapshot tool_id = List.find (\<lambda>item. td_tool_id item = tool_id) (ts_tools snapshot)"

section \<open>Errors\<close>

datatype tool_error =
    ToolError | ToolNotFound | ToolNotExposed | ToolBlocked | ToolUnavailable | ToolSchemaInvalid
  | OperationNotFound | OperationDuplicate | ApprovalRequired | ApprovalExpired | ApprovalRejected
  | SandboxUnavailable | ToolTimeout | ToolCancelled | RunGrantInvalid

primrec error_code :: "tool_error \<Rightarrow> str" where
  "error_code ToolError = lit ''tool_error''"
| "error_code ToolNotFound = lit ''tool_not_found''"
| "error_code ToolNotExposed = lit ''tool_not_exposed''"
| "error_code ToolBlocked = lit ''tool_blocked''"
| "error_code ToolUnavailable = lit ''tool_unavailable''"
| "error_code ToolSchemaInvalid = lit ''tool_schema_invalid''"
| "error_code OperationNotFound = lit ''operation_not_found''"
| "error_code OperationDuplicate = lit ''operation_duplicate''"
| "error_code ApprovalRequired = lit ''approval_required''"
| "error_code ApprovalExpired = lit ''approval_expired''"
| "error_code ApprovalRejected = lit ''approval_rejected''"
| "error_code SandboxUnavailable = lit ''sandbox_unavailable''"
| "error_code ToolTimeout = lit ''tool_timeout''"
| "error_code ToolCancelled = lit ''tool_cancelled''"
| "error_code RunGrantInvalid = lit ''run_grant_invalid''"

end
