(* ===== verification/Executor.thy ===== *)
theory Executor
  imports Planner Tool_Models
begin

text \<open>
  \<open>src/src/agent/planning/executor.py\<close>: one layer of a plan, with its concurrent nodes, its races
  and the references between nodes; and the contexts of \<open>subagents/base.py\<close>.

  What the node calls is a field of \<open>executor_deps\<close>: \<open>json.loads\<close> (\<open>Inl\<close> is \<open>str\<close> of the decode
  error), the two methods of the tool control and the registered sub-agents. A coroutine ends with a
  value, with an exception (its \<open>str\<close>), or with the pause signal \<open>GraphBubbleUp\<close>, which the
  code lets through. \<open>resume_tool\<close> is called again after each approval that has an answer; the
  answers a call has are counted, and one more wait pauses the graph.

  The event loop decides in which order the tasks of a race finish. Its choices are an argument:
  for each \<open>asyncio.wait\<close>, the tasks it reports, in the order the loop over them takes, and whether
  the clock has then passed the deadline. Whatever they are, the end of a task is the end of its
  node, because tasks share no state of the executor. Events are listed per task: those of
  different tasks interleave, and of a race only its own are listed.
\<close>

section \<open>What the executor is given\<close>

datatype 'a body = Result 'a | Raised str | Interrupted

record upstream_item =
  u_node_id :: str
  u_executor :: str
  u_observation :: str

record sub_agent_context =
  sc_run_id :: str
  sc_owner_id :: str
  sc_plan_revision :: int
  sc_node_id :: str
  sc_attempt :: int
  sc_goal :: str
  sc_upstream :: "upstream_item list"

record sub_agent_result =
  sr_success :: bool
  sr_content :: str
  sr_error_code :: "str option"

record executor_deps =
  d_run_id :: str
  d_owner_id :: str
  d_loads :: "str \<Rightarrow> str + json"
  d_stage :: "model_tool_call \<Rightarrow> staged_tool_call body"
  d_resume :: "staged_tool_call \<Rightarrow> nat \<Rightarrow> tool_result body"
  d_answers :: "staged_tool_call \<Rightarrow> nat"
  d_registry :: "(str, sub_agent_context \<Rightarrow> sub_agent_result body) dict"
  d_race_timeout_ms :: int

datatype exec_event =
    Layer_started int "str list"
  | Node_started int str str "str option" str
  | Node_completed int str str str "str option"
  | Node_failed int str str str "str option"
  | Race_won_event str str
  | Node_skipped int str str str

definition OBSERVATION_LIMIT :: nat where "OBSERVATION_LIMIT = 4000"

definition attempt_of :: "str \<Rightarrow> node_outcome list \<Rightarrow> int" where
  "attempt_of node_id outcomes = int (length (filter (\<lambda>item. no_node_id item = node_id) outcomes))"

text \<open>The constructor of \<open>NodeOutcome\<close> with its defaults.\<close>

definition outcome_of :: "plan \<Rightarrow> str \<Rightarrow> int \<Rightarrow> str \<Rightarrow> str \<Rightarrow> node_outcome" where
  "outcome_of plan node_id attempt outcome observation =
     \<lparr>no_plan_revision = p_revision plan, no_node_id = node_id, no_logical_attempt = attempt,
      no_outcome = outcome, no_observation = observation, no_retryable = False, no_tool_call_id = None,
      no_artifact_refs = [], no_evidence_refs = [], no_error_code = None\<rparr>"

text \<open>\<open>x or y\<close> on strings that may be \<open>None\<close>.\<close>

definition sor :: "str option \<Rightarrow> str \<Rightarrow> str" where
  "sor x y = (case x of None \<Rightarrow> y | Some s \<Rightarrow> if s = [] then y else s)"

section \<open>References to earlier nodes\<close>

text \<open>The entry of the dictionary of successful outcomes: the last one with this id.\<close>

definition latest_success :: "node_outcome list \<Rightarrow> str \<Rightarrow> node_outcome option" where
  "latest_success outcomes node_id =
     List.find (\<lambda>item. no_outcome item = SUCCEEDED \<and> no_node_id item = node_id) (rev outcomes)"

definition upstream_results :: "plan_node \<Rightarrow> node_outcome list \<Rightarrow> upstream_item list" where
  "upstream_results node outcomes = concat (map (\<lambda>dep.
     case latest_success outcomes dep of
       None \<Rightarrow> []
     | Some item \<Rightarrow> [\<lparr>u_node_id = dep, u_executor = sor (no_tool_call_id item) dep,
                    u_observation = take 2000 (no_observation item)\<rparr>]) (n_depends_on node))"

definition upstream_text :: "sub_agent_context \<Rightarrow> str" where
  "upstream_text context = join_strs [10] (map (\<lambda>item.
     lit ''['' @ u_node_id item @ lit '' | '' @ u_executor item @ lit ''] '' @ u_observation item) (sc_upstream context))"

definition is_word :: "nat \<Rightarrow> bool" where
  "is_word c \<longleftrightarrow> 65 \<le> c \<and> c \<le> 90 \<or> 97 \<le> c \<and> c \<le> 122 \<or> 48 \<le> c \<and> c \<le> 57 \<or> c = 95 \<or> c = 45"

text \<open>\<open>_PARAM_REF_PATTERN\<close> on a stripped value: two braces, a name, perhaps a dot and a field, two
  braces. The classes of the pattern are disjoint, so the greedy reading is the only one.\<close>

definition param_ref :: "str \<Rightarrow> (str \<times> str option) option" where
  "param_ref value =
     (if take 2 value \<noteq> [123, 123] then None
      else
      let body = dropWhile is_space (drop 2 value);
          name = takeWhile is_word body;
          after = dropWhile is_word body;
          closes = (\<lambda>rest. dropWhile is_space rest = [125, 125])
      in if name = [] then None
         else if take 1 after = [46]
         then let field = takeWhile is_word (drop 1 after) in
              if field \<noteq> [] \<and> closes (dropWhile is_word (drop 1 after)) then Some (name, Some field) else None
         else if closes after then Some (name, None) else None)"

definition upstream_missing_text :: "str \<Rightarrow> str" where
  "upstream_missing_text node_id = [21442, 25968, 21344, 20301, 31526, 30340, 19978, 28216, 33410, 28857, 32] @ node_id
     @ [32, 23578, 26410, 25104, 21151, 25191, 34892]"

definition field_missing_text :: "str \<Rightarrow> str \<Rightarrow> str" where
  "field_missing_text node_id field = [19978, 28216, 33410, 28857, 32] @ node_id
     @ [32, 30340, 35266, 23519, 32570, 23569, 23383, 27573, 32] @ field"

definition resolve_value :: "(str \<Rightarrow> str + json) \<Rightarrow> node_outcome list \<Rightarrow> json \<Rightarrow> str + json" where
  "resolve_value loads outcomes v =
     (case v of
        JStr s \<Rightarrow>
          (case param_ref (strip s) of
             None \<Rightarrow> Inr v
           | Some (node_id, field) \<Rightarrow>
               (case latest_success outcomes node_id of
                  None \<Rightarrow> Inl (upstream_missing_text node_id)
                | Some item \<Rightarrow>
                    (case loads (no_observation item) of
                       Inr (JObj payload) \<Rightarrow>
                         (case field of
                            None \<Rightarrow> Inr (JStr (no_observation item))
                          | Some f \<Rightarrow>
                              (case map_of payload f of
                                 None \<Rightarrow> Inl (field_missing_text node_id f)
                               | Some x \<Rightarrow> Inr x))
                     | _ \<Rightarrow> Inr (JStr (no_observation item)))))
      | _ \<Rightarrow> Inr v)"

fun resolve_params ::
  "(str \<Rightarrow> str + json) \<Rightarrow> node_outcome list \<Rightarrow> (str, json) dict \<Rightarrow> str + (str, json) dict" where
  "resolve_params loads outcomes [] = Inr []"
| "resolve_params loads outcomes ((key, v) # arguments) =
     (case resolve_value loads outcomes v of
        Inl message \<Rightarrow> Inl message
      | Inr x \<Rightarrow>
          (case resolve_params loads outcomes arguments of
             Inl message \<Rightarrow> Inl message
           | Inr resolved \<Rightarrow> Inr ((key, x) # resolved)))"

section \<open>One node\<close>

text \<open>The loop around \<open>resume_tool\<close>: as long as the call waits for an approval, ask for the decision.\<close>

fun await_approval :: "(nat \<Rightarrow> tool_result body) \<Rightarrow> nat \<Rightarrow> nat \<Rightarrow> tool_result body" where
  "await_approval resume calls 0 =
     (case resume calls of
        Result result \<Rightarrow> if tr_status result = Res_awaiting_approval then Interrupted else Result result
      | e \<Rightarrow> e)"
| "await_approval resume calls (Suc answers) =
     (case resume calls of
        Result result \<Rightarrow>
          if tr_status result = Res_awaiting_approval then await_approval resume (calls + 1) answers
          else Result result
      | e \<Rightarrow> e)"

definition tool_failed_text :: str where
  "tool_failed_text = [24037, 20855, 25191, 34892, 22833, 36133]"

definition tool_call_of :: "plan \<Rightarrow> plan_node \<Rightarrow> int \<Rightarrow> str \<Rightarrow> (str, json) dict \<Rightarrow> model_tool_call" where
  "tool_call_of plan node attempt tool arguments =
     \<lparr>mc_id = lit ''plan-r'' @ show_int (p_revision plan) @ lit ''-'' @ n_node_id node @ lit ''-a'' @ show_int attempt,
      mc_name = tool, mc_arguments = arguments\<rparr>"

definition tool_outcome :: "plan \<Rightarrow> plan_node \<Rightarrow> int \<Rightarrow> str \<Rightarrow> tool_result \<Rightarrow> node_outcome" where
  "tool_outcome plan node attempt call_id result =
     (if tr_status result = Res_success
      then (outcome_of plan (n_node_id node) attempt SUCCEEDED
             (take OBSERVATION_LIMIT (if tr_content result = [] then tr_summary result else tr_content result)))
             \<lparr>no_tool_call_id := Some call_id\<rparr>
      else (outcome_of plan (n_node_id node) attempt FAILED
             (if tr_summary result = [] then tool_failed_text else tr_summary result))
             \<lparr>no_tool_call_id := Some call_id,
              no_error_code := Some (sor (tr_error result) (lit ''tool_execution_failed''))\<rparr>)"

definition run_tool_node ::
  "plan \<Rightarrow> plan_node \<Rightarrow> int \<Rightarrow> node_outcome list \<Rightarrow> executor_deps \<Rightarrow> node_outcome body" where
  "run_tool_node plan node attempt outcomes deps =
     (case n_tool node of
        None \<Rightarrow> Raised []
      | Some tool \<Rightarrow>
          (case d_loads deps (if n_arguments_json node = [] then lit ''{}'' else n_arguments_json node) of
             Inl message \<Rightarrow> Raised message
           | Inr v \<Rightarrow>
               (case resolve_params (d_loads deps) outcomes (obj_items v) of
                  Inl message \<Rightarrow> Raised message
                | Inr arguments \<Rightarrow>
                    let call = tool_call_of plan node attempt tool arguments in
                    (case d_stage deps call of
                       Raised message \<Rightarrow> Raised message
                     | Interrupted \<Rightarrow> Interrupted
                     | Result staged \<Rightarrow>
                         (case await_approval (d_resume deps staged) 0 (d_answers deps staged) of
                            Raised message \<Rightarrow> Raised message
                          | Interrupted \<Rightarrow> Interrupted
                          | Result result \<Rightarrow> Result (tool_outcome plan node attempt (mc_id call) result))))))"

definition sub_agent_context_of ::
  "plan \<Rightarrow> plan_node \<Rightarrow> int \<Rightarrow> node_outcome list \<Rightarrow> executor_deps \<Rightarrow> sub_agent_context" where
  "sub_agent_context_of plan node attempt outcomes deps =
     \<lparr>sc_run_id = d_run_id deps, sc_owner_id = d_owner_id deps, sc_plan_revision = p_revision plan,
      sc_node_id = n_node_id node, sc_attempt = attempt, sc_goal = n_objective node,
      sc_upstream = upstream_results node outcomes\<rparr>"

definition run_sub_agent ::
  "plan \<Rightarrow> plan_node \<Rightarrow> int \<Rightarrow> node_outcome list \<Rightarrow> executor_deps \<Rightarrow> node_outcome body" where
  "run_sub_agent plan node attempt outcomes deps =
     (case map_of (d_registry deps) (case n_agent_name node of None \<Rightarrow> [] | Some name \<Rightarrow> name) of
        None \<Rightarrow> Raised (lit ''sub agent not registered: '' @ show_opt (n_agent_name node))
      | Some agent \<Rightarrow>
          (case agent (sub_agent_context_of plan node attempt outcomes deps) of
             Raised message \<Rightarrow> Raised message
           | Interrupted \<Rightarrow> Interrupted
           | Result result \<Rightarrow>
               Result ((outcome_of plan (n_node_id node) attempt (if sr_success result then SUCCEEDED else FAILED)
                  (take OBSERVATION_LIMIT (sr_content result)))
                  \<lparr>no_tool_call_id := n_agent_name node, no_error_code := sr_error_code result\<rparr>)))"

definition run_node ::
  "plan \<Rightarrow> plan_node \<Rightarrow> node_outcome list \<Rightarrow> executor_deps \<Rightarrow> node_outcome body" where
  "run_node plan node outcomes deps =
     (let attempt = attempt_of (n_node_id node) outcomes in
      if n_node_type node = lit ''sub_agent'' then run_sub_agent plan node attempt outcomes deps
      else run_tool_node plan node attempt outcomes deps)"

definition finished_event :: "plan \<Rightarrow> node_outcome \<Rightarrow> exec_event" where
  "finished_event plan outcome =
     (if no_outcome outcome = SUCCEEDED then Node_completed else Node_failed) (p_revision plan) (no_node_id outcome)
       (no_outcome outcome) (take 300 (no_observation outcome)) (no_error_code outcome)"

text \<open>\<open>_run_single\<close>: an exception is a failed outcome; \<open>None\<close> is the pause signal going up.\<close>

definition run_single ::
  "plan \<Rightarrow> plan_node \<Rightarrow> node_outcome list \<Rightarrow> executor_deps \<Rightarrow> exec_event list \<times> node_outcome option" where
  "run_single plan node outcomes deps =
     (let started = Node_started (p_revision plan) (n_node_id node) (n_node_type node)
            (case n_tool node of Some t \<Rightarrow> if t = [] then n_agent_name node else Some t | None \<Rightarrow> n_agent_name node)
            (n_objective node)
      in case run_node plan node outcomes deps of
           Interrupted \<Rightarrow> ([started], None)
         | Result outcome \<Rightarrow> ([started, finished_event plan outcome], Some outcome)
         | Raised message \<Rightarrow>
             let outcome = (outcome_of plan (n_node_id node) (attempt_of (n_node_id node) outcomes) FAILED
                   (take OBSERVATION_LIMIT message))\<lparr>no_error_code := Some (lit ''node_execution_failed'')\<rparr>
             in ([started, finished_event plan outcome], Some outcome))"

section \<open>Races\<close>

text \<open>A dictionary built by assignments, later ones overwriting earlier ones.\<close>

definition dict_of :: "('k \<times> 'v) list \<Rightarrow> ('k, 'v) dict" where
  "dict_of kvs = fold (\<lambda>(k, v). AList.update k v) kvs []"

text \<open>The end of a race or of a layer: still waiting, paused, or finished.\<close>

datatype 'a ending = Waiting | Bubbled | Ended 'a

text \<open>The loop over the tasks one wait reports: \<open>None\<close> when \<open>task.result()\<close> raises the pause signal,
  else the first success, if any.\<close>

fun race_scan :: "(str, node_outcome option) dict \<Rightarrow> str list \<Rightarrow> node_outcome option option" where
  "race_scan tasks [] = Some None"
| "race_scan tasks (node_id # finished) =
     (case map_of tasks node_id of
        Some (Some outcome) \<Rightarrow>
          if no_outcome outcome = SUCCEEDED then Some (Some outcome) else race_scan tasks finished
      | _ \<Rightarrow> None)"

fun race_loop ::
  "bool \<Rightarrow> (str, node_outcome option) dict \<Rightarrow> (str list \<times> bool) list \<Rightarrow> str list \<Rightarrow> str list
   \<Rightarrow> (node_outcome option \<times> str list) ending" where
  "race_loop deadline tasks waits [] completed = Ended (None, completed)"
| "race_loop deadline tasks [] (p # pending) completed = Waiting"
| "race_loop deadline tasks ((reported, late) # waits) (p # pending) completed =
     (let finished = filter (\<lambda>i. i \<in> set (p # pending)) reported in
      case race_scan tasks finished of
        None \<Rightarrow> Bubbled
      | Some (Some winner) \<Rightarrow> Ended (Some winner, completed @ finished)
      | Some None \<Rightarrow>
          if deadline \<and> late then Ended (None, completed @ finished)
          else race_loop deadline tasks waits (filter (\<lambda>i. i \<notin> set finished) (p # pending)) (completed @ finished))"

definition race_lost_text :: str where
  "race_lost_text = [31454, 36895, 33853, 36133, 65292, 32467, 26524, 24323, 29992, 12290]"

definition race_timeout_text :: str where
  "race_timeout_text = [31454, 36895, 32452, 36229, 26102, 25110, 20840, 37096, 22833, 36133, 12290]"

definition run_race ::
  "plan \<Rightarrow> str \<Rightarrow> plan_node list \<Rightarrow> node_outcome list \<Rightarrow> executor_deps \<Rightarrow> (str list \<times> bool) list
   \<Rightarrow> exec_event list \<times> node_outcome list ending" where
  "run_race plan group_name members outcomes deps waits =
     (let tasks = dict_of (map (\<lambda>node. (n_node_id node, snd (run_single plan node outcomes deps))) members)
      in case race_loop (d_race_timeout_ms deps > 0) tasks waits (dkeys tasks) [] of
           Waiting \<Rightarrow> ([], Waiting)
         | Bubbled \<Rightarrow> ([], Bubbled)
         | Ended (Some winner, _) \<Rightarrow>
             let loser_ids = filter (\<lambda>node_id. node_id \<noteq> no_node_id winner) (dkeys tasks) in
             (Race_won_event group_name (no_node_id winner)
                # map (\<lambda>node_id. Node_skipped (p_revision plan) node_id group_name (no_node_id winner)) loser_ids,
              Ended (winner # map (\<lambda>node_id.
                outcome_of plan node_id (attempt_of node_id outcomes) SKIPPED race_lost_text) loser_ids))
         | Ended (None, completed) \<Rightarrow>
             ([], case those (map (\<lambda>(node_id, task).
                     if node_id \<in> set completed then task
                     else Some ((outcome_of plan node_id (attempt_of node_id outcomes) FAILED race_timeout_text)
                                 \<lparr>no_error_code := Some (lit ''race_timeout'')\<rparr>)) tasks) of
                    None \<Rightarrow> Bubbled
                  | Some results \<Rightarrow> Ended results))"

section \<open>One layer\<close>

definition in_race :: "plan_node \<Rightarrow> bool" where
  "in_race node \<longleftrightarrow> (case n_race_group node of None \<Rightarrow> False | Some g \<Rightarrow> g \<noteq> [])"

definition group_of :: "plan_node \<Rightarrow> str" where
  "group_of node = (case n_race_group node of None \<Rightarrow> [] | Some g \<Rightarrow> g)"

definition race_groups :: "plan_node list \<Rightarrow> (str, plan_node list) dict" where
  "race_groups layer = fold (\<lambda>node groups.
     AList.update (group_of node) (dget [] groups (group_of node) @ [node]) groups) (filter in_race layer) []"

definition race_key :: "str \<Rightarrow> str" where
  "race_key group_name = lit ''race:'' @ group_name"

definition single_task ::
  "plan \<Rightarrow> node_outcome list \<Rightarrow> executor_deps \<Rightarrow> plan_node \<Rightarrow> exec_event list \<times> node_outcome list ending" where
  "single_task plan outcomes deps node =
     map_prod id (\<lambda>r. case r of None \<Rightarrow> Bubbled | Some outcome \<Rightarrow> Ended [outcome]) (run_single plan node outcomes deps)"

definition layer_tasks ::
  "plan \<Rightarrow> plan_node list \<Rightarrow> node_outcome list \<Rightarrow> executor_deps \<Rightarrow> (str \<Rightarrow> (str list \<times> bool) list)
   \<Rightarrow> (str, exec_event list \<times> node_outcome list ending) dict" where
  "layer_tasks plan layer outcomes deps waits = dict_of
     (map (\<lambda>node. (n_node_id node, single_task plan outcomes deps node)) (filter (\<lambda>node. \<not> in_race node) layer)
      @ map (\<lambda>(group_name, members).
          (race_key group_name, run_race plan group_name members outcomes deps (waits group_name))) (race_groups layer))"

text \<open>\<open>asyncio.gather\<close> waits for every task; then the first exception is raised again.\<close>

fun gather :: "'a list ending list \<Rightarrow> 'a list ending" where
  "gather [] = Ended []"
| "gather (Waiting # rest) = Waiting"
| "gather (Bubbled # rest) = (if gather rest = Waiting then Waiting else Bubbled)"
| "gather (Ended xs # rest) =
     (case gather rest of Waiting \<Rightarrow> Waiting | Bubbled \<Rightarrow> Bubbled | Ended ys \<Rightarrow> Ended (xs @ ys))"

definition run_layer ::
  "plan \<Rightarrow> plan_node list \<Rightarrow> node_outcome list \<Rightarrow> executor_deps \<Rightarrow> (str \<Rightarrow> (str list \<times> bool) list)
   \<Rightarrow> exec_event list \<times> node_outcome list ending" where
  "run_layer plan layer outcomes deps waits =
     (let tasks = dvalues (layer_tasks plan layer outcomes deps waits)
      in (concat (map fst tasks), gather (map snd tasks)))"

section \<open>The executor node\<close>

datatype executor_result =
    Executor_done "exec_event list" run_state
  | Executor_waiting
  | Executor_paused
  | Executor_raised str
  | Executor_conflict state_error

definition executor ::
  "executor_deps \<Rightarrow> (str \<Rightarrow> (str list \<times> bool) list) \<Rightarrow> run_state \<Rightarrow> executor_result" where
  "executor deps waits state =
     (case rs_plan state of
        None \<Rightarrow> Executor_raised (lit ''executor requires plan in state'')
      | Some plan \<Rightarrow>
          let outcomes = rs_node_outcomes state;
              layer = ready_layer plan outcomes
          in if layer = []
             then Executor_done [] (state\<lparr>rs_phase := Some (lit ''executing''), rs_replan_action := Some (lit ''generate'')\<rparr>)
             else (case run_layer plan layer outcomes deps waits of
                     (_, Waiting) \<Rightarrow> Executor_waiting
                   | (_, Bubbled) \<Rightarrow> Executor_paused
                   | (events, Ended update) \<Rightarrow>
                       (case merge_node_outcomes outcomes update of
                          Inl e \<Rightarrow> Executor_conflict e
                        | Inr merged \<Rightarrow>
                            Executor_done (Layer_started (p_revision plan) (map n_node_id layer) # events)
                              (state\<lparr>rs_phase := Some (lit ''executing''), rs_node_outcomes := merged\<rparr>))))"

end
