(* ===== verification/Layer_Contract.thy ===== *)
theory Layer_Contract
  imports Executor "HOL-Library.Multiset"
begin

text \<open>
  The contract between the executor of a layer and the run state: each node of the layer gets one
  outcome under its next attempt. From it follows that the reducer of the state never meets two
  different facts under one key.
\<close>

definition node_key :: "plan \<Rightarrow> node_outcome list \<Rightarrow> plan_node \<Rightarrow> outcome_key" where
  "node_key plan outcomes node = (p_revision plan, n_node_id node, attempt_of (n_node_id node) outcomes)"

text \<open>A layer without a clash between node ids, or between them and the names of its race tasks.\<close>

definition separate_layer :: "plan_node list \<Rightarrow> bool" where
  "separate_layer layer \<longleftrightarrow> distinct (map n_node_id layer)
     \<and> (\<forall>node \<in> set layer. \<forall>name. n_node_id node \<noteq> race_key name)"

text \<open>The outcomes of a run: in canonical order, every attempt below the number of outcomes of its node.\<close>

definition attempts_ok :: "node_outcome list \<Rightarrow> bool" where
  "attempts_ok outcomes \<longleftrightarrow> canonical outcomes
     \<and> (\<forall>x \<in> set outcomes. no_logical_attempt x < attempt_of (no_node_id x) outcomes)"

lemma attempts_ok_Nil [simp]: "attempts_ok []"
  by (simp add: attempts_ok_def canonical_def)

lemma canonical_distinct: "canonical xs \<Longrightarrow> distinct xs"
  by (simp add: canonical_def distinct_map)

lemma attempt_of_card:
  assumes "distinct outcomes"
  shows "attempt_of i outcomes = int (card {x \<in> set outcomes. no_node_id x = i})"
  using distinct_card [OF distinct_filter [OF assms], of "\<lambda>x. no_node_id x = i"]
  by (simp add: attempt_of_def)

lemma attempt_of_mono:
  assumes "distinct xs" "distinct ys" "set xs \<subseteq> set ys"
  shows "attempt_of i xs \<le> attempt_of i ys"
proof -
  have "card {x \<in> set xs. no_node_id x = i} \<le> card {x \<in> set ys. no_node_id x = i}"
    using assms by (intro card_mono) auto
  then show ?thesis using assms by (simp add: attempt_of_card)
qed

lemma attempt_of_less:
  assumes "distinct xs" "distinct ys" "set xs \<subseteq> set ys" "y \<in> set ys" "y \<notin> set xs"
  shows "attempt_of (no_node_id y) xs < attempt_of (no_node_id y) ys"
proof -
  have "card {x \<in> set xs. no_node_id x = no_node_id y} < card {x \<in> set ys. no_node_id x = no_node_id y}"
    using assms by (intro psubset_card_mono) auto
  then show ?thesis using assms by (simp add: attempt_of_card)
qed

lemma submset_append:
  assumes "mset xs \<subseteq># mset ys"
  obtains zs where "mset ys = mset (xs @ zs)"
proof -
  from assms obtain Z where "mset ys = mset xs + Z" by (auto simp: mset_subset_eq_exists_conv)
  moreover obtain zs where "mset zs = Z" using ex_mset by blast
  ultimately show thesis by (intro that [of zs]) simp
qed

lemma distinct_submset:
  assumes "mset xs \<subseteq># mset ys" and "distinct ys"
  shows "distinct xs"
proof -
  obtain zs where "mset ys = mset (xs @ zs)" using assms(1) by (rule submset_append)
  from mset_eq_imp_distinct_iff [OF this] assms(2) show ?thesis by simp
qed

text \<open>
  The contract. Two tasks of a layer may share a dictionary key (a node called like a race task), and
  then one of them is lost, so in general the outcomes are among those of the layer, with at
  least one; with separate names they are all there.
\<close>

locale layer_runner =
  fixes run :: "plan \<Rightarrow> plan_node list \<Rightarrow> node_outcome list \<Rightarrow> node_outcome list ending"
  assumes outcomes_of_layer:
    "\<lbrakk>distinct (map n_node_id layer); run plan layer outcomes = Ended outs\<rbrakk>
     \<Longrightarrow> mset (map outcome_key outs) \<subseteq># mset (map (node_key plan outcomes) layer)
       \<and> (\<forall>x \<in> set outs. no_outcome x \<in> {SUCCEEDED, FAILED, SKIPPED})"
    and some_outcome:
    "\<lbrakk>distinct (map n_node_id layer); run plan layer outcomes = Ended outs; layer \<noteq> []\<rbrakk> \<Longrightarrow> outs \<noteq> []"
    and all_outcomes:
    "\<lbrakk>separate_layer layer; run plan layer outcomes = Ended outs\<rbrakk>
     \<Longrightarrow> mset (map outcome_key outs) = mset (map (node_key plan outcomes) layer)"
begin

lemma outcome_for_node:
  assumes "distinct (map n_node_id layer)" and "run plan layer outcomes = Ended outs"
  shows "distinct (map outcome_key outs)" and "outcome_key ` set outs \<subseteq> node_key plan outcomes ` set layer"
    and "no_node_id ` set outs \<subseteq> n_node_id ` set layer"
proof -
  note keys = outcomes_of_layer [OF assms, THEN conjunct1]
  have "distinct (map (node_key plan outcomes) layer)"
    using assms(1) by (auto simp: distinct_map inj_on_def node_key_def)
  then show "distinct (map outcome_key outs)"
    using distinct_submset [OF keys] by blast
  show sets: "outcome_key ` set outs \<subseteq> node_key plan outcomes ` set layer"
    using set_mset_mono [OF keys] by simp
  have "no_node_id ` set outs = (\<lambda>(r, i, a). i) ` outcome_key ` set outs"
    by (simp add: image_image outcome_key_def)
  also have "\<dots> \<subseteq> (\<lambda>(r, i, a). i) ` node_key plan outcomes ` set layer" using sets by (rule image_mono)
  also have "\<dots> = n_node_id ` set layer" by (simp add: image_image node_key_def)
  finally show "no_node_id ` set outs \<subseteq> n_node_id ` set layer" .
qed

lemma fresh_key:
  assumes "distinct (map n_node_id layer)" and "run plan layer outcomes = Ended outs" and "attempts_ok outcomes"
    and "x \<in> set outs"
  shows "no_logical_attempt x = attempt_of (no_node_id x) outcomes" and "x \<notin> set outcomes"
    and "y \<in> set outcomes \<Longrightarrow> outcome_key y \<noteq> outcome_key x"
proof -
  obtain node where "outcome_key x = node_key plan outcomes node"
    using outcome_for_node(2) [OF assms(1,2)] assms(4) by blast
  then show att: "no_logical_attempt x = attempt_of (no_node_id x) outcomes"
    by (simp add: outcome_key_def node_key_def)
  show "outcome_key y \<noteq> outcome_key x" if "y \<in> set outcomes" for y
  proof
    assume "outcome_key y = outcome_key x"
    then have "no_logical_attempt y = attempt_of (no_node_id y) outcomes" using att by (simp add: outcome_key_def)
    then show False using assms(3) that by (auto simp: attempts_ok_def)
  qed
  then show "x \<notin> set outcomes" by blast
qed

lemma merge_layer:
  assumes layer: "distinct (map n_node_id layer)" "run plan layer outcomes = Ended outs" and ok: "attempts_ok outcomes"
  obtains m where "merge_node_outcomes outcomes outs = Inr m" and "attempts_ok m"
    and "set m = set outcomes \<union> set outs"
proof -
  have can: "canonical outcomes" using ok by (simp add: attempts_ok_def)
  note fresh = fresh_key [OF layer ok]
  have "functional_outcomes (set outcomes \<union> set outs)"
  proof -
    have "inj_on outcome_key (set outcomes)" "inj_on outcome_key (set outs)"
      using can outcome_for_node(1) [OF layer] by (auto simp: canonical_def distinct_map)
    moreover have "outcome_key ` (set outcomes - set outs) \<inter> outcome_key ` (set outs - set outcomes) = {}"
    proof (intro equalityI subsetI)
      fix k assume "k \<in> outcome_key ` (set outcomes - set outs) \<inter> outcome_key ` (set outs - set outcomes)"
      then obtain x y where "x \<in> set outs" "y \<in> set outcomes" "k = outcome_key y" "k = outcome_key x" by blast
      with fresh(3) [of x y] show "k \<in> {}" by simp
    qed simp
    ultimately have "inj_on outcome_key (set outcomes \<union> set outs)" unfolding inj_on_Un by blast
    then show ?thesis unfolding functional_outcomes_def inj_on_def by blast
  qed
  then obtain m where m: "merge_node_outcomes outcomes outs = Inr m" "canonical m" "set m = set outcomes \<union> set outs"
    by (rule merge_functional)
  have d: "distinct outcomes" "distinct m" using can m(2) by (simp_all add: canonical_distinct)
  have "no_logical_attempt x < attempt_of (no_node_id x) m" if "x \<in> set m" for x
  proof (cases "x \<in> set outcomes")
    case True
    then have "no_logical_attempt x < attempt_of (no_node_id x) outcomes" using ok by (simp add: attempts_ok_def)
    also have "\<dots> \<le> attempt_of (no_node_id x) m" using d m(3) by (intro attempt_of_mono) auto
    finally show ?thesis .
  next
    case False
    then have "x \<in> set outs" using that m(3) by simp
    then show ?thesis using attempt_of_less [OF d _ that False] m(3) fresh(1) by simp
  qed
  then have "attempts_ok m" using m(2) by (simp add: attempts_ok_def)
  with m that show thesis by blast
qed

end

end
