(* ===== verification/Race_Properties.thy ===== *)
theory Race_Properties
  imports Layer_Contract
begin

text \<open>
  What one node and one race produce: an outcome under the node's next attempt; in a race one winner and
  skipped losers, or only failures.
\<close>

section \<open>One node\<close>

lemma outcome_of_simps [simp]:
  "outcome_key (outcome_of plan i a out obs) = (p_revision plan, i, a)"
  "no_outcome (outcome_of plan i a out obs) = out"
  "no_node_id (outcome_of plan i a out obs) = i"
  "outcome_key (x\<lparr>no_tool_call_id := c\<rparr>) = outcome_key x"
  "outcome_key (x\<lparr>no_error_code := e\<rparr>) = outcome_key x"
  by (simp_all add: outcome_of_def outcome_key_def)

lemma outcome_key_id: "outcome_key x = (r, i, a) \<Longrightarrow> no_node_id x = i"
  by (simp add: outcome_key_def)

lemma tool_outcome_simps [simp]:
  "outcome_key (tool_outcome plan node a c r) = (p_revision plan, n_node_id node, a)"
  "no_outcome (tool_outcome plan node a c r) = (if tr_status r = Res_success then SUCCEEDED else FAILED)"
  by (simp_all add: tool_outcome_def)

lemma run_node_Result:
  assumes "run_node plan node outcomes deps = Result x"
  shows "outcome_key x = node_key plan outcomes node \<and> no_outcome x \<in> {SUCCEEDED, FAILED}"
proof (cases "n_node_type node = lit ''sub_agent''")
  case True
  with assms show ?thesis
    by (auto simp: run_node_def Let_def run_sub_agent_def node_key_def split: option.splits body.splits if_splits)
next
  case False
  with assms show ?thesis
    by (auto simp: run_node_def run_tool_node_def node_key_def Let_def
        split: option.splits body.splits sum.splits if_splits)
qed

lemma run_single_Some:
  assumes "snd (run_single plan node outcomes deps) = Some x"
  shows "outcome_key x = node_key plan outcomes node" and "no_outcome x \<in> {SUCCEEDED, FAILED}"
  using assms run_node_Result [of plan node outcomes deps]
  by (auto simp: run_single_def Let_def node_key_def split: body.splits)

section \<open>Dictionaries of tasks\<close>

lemma dict_of_distinct:
  assumes "distinct (map fst kvs)"
  shows "dict_of kvs = kvs"
proof -
  have "fold (\<lambda>(k, v). AList.update k v) kvs d = d @ kvs" if "distinct (map fst (d @ kvs))" for d
    using that
  proof (induction kvs arbitrary: d)
    case (Cons kv kvs)
    then have "map_of d (fst kv) = None" by (auto simp: map_of_eq_None_iff)
    then show ?case using Cons by (cases kv) (simp add: update_fresh)
  qed simp
  from this [of "[]"] assms show ?thesis by (simp add: dict_of_def)
qed

lemma dict_of_map: "dict_of (map (\<lambda>(k, v). (k, f v)) kvs) = map (\<lambda>(k, v). (k, f v)) (dict_of kvs)"
proof -
  have step: "AList.update k (f v) (map (\<lambda>(k, v). (k, f v)) d) = map (\<lambda>(k, v). (k, f v)) (AList.update k v d)" for k v d
    by (induction d) auto
  have "fold (\<lambda>(k, v). AList.update k v) (map (\<lambda>(k, v). (k, f v)) kvs) (map (\<lambda>(k, v). (k, f v)) d)
     = map (\<lambda>(k, v). (k, f v)) (fold (\<lambda>(k, v). AList.update k v) kvs d)" for d
    by (induction kvs arbitrary: d) (auto simp: step)
  from this [of "[]"] show ?thesis by (simp add: dict_of_def)
qed

lemma dict_of_submset: "mset (dict_of kvs) \<subseteq># mset kvs"
proof -
  have step: "mset (AList.update k v d) \<subseteq># add_mset (k, v) (mset d)" for k v and d :: "('a \<times> 'b) list"
    by (induction d) (auto simp: add_mset_commute intro: subset_mset.order_trans)
  have "mset (fold (\<lambda>(k, v). AList.update k v) kvs d) \<subseteq># mset d + mset kvs" for d
  proof (induction kvs arbitrary: d)
    case (Cons kv kvs)
    obtain k v where kv: "kv = (k, v)" by force
    have "mset (fold (\<lambda>(k, v). AList.update k v) (kv # kvs) d) \<subseteq># mset (AList.update k v d) + mset kvs"
      using Cons [of "AList.update k v d"] by (simp add: kv)
    also have "\<dots> \<subseteq># add_mset (k, v) (mset d) + mset kvs" by (intro subset_mset.add_right_mono step)
    finally show ?case by (simp add: kv)
  qed simp
  from this [of "[]"] show ?thesis by (simp add: dict_of_def)
qed

lemma dict_of_keys: "fst ` set (dict_of kvs) = fst ` set kvs"
proof -
  have "fst ` set (fold (\<lambda>(k, v). AList.update k v) kvs d) = fst ` set d \<union> fst ` set kvs" for d
    by (induction kvs arbitrary: d) (simp_all add: case_prod_unfold)
  from this [of "[]"] show ?thesis by (simp add: dict_of_def)
qed

lemma dict_of_Nil_iff: "dict_of kvs = [] \<longleftrightarrow> kvs = []"
  using dict_of_keys [of kvs] by (metis image_is_empty set_empty)

section \<open>Races\<close>

lemma race_scan_winner:
  assumes "race_scan tasks finished = Some (Some w)"
  shows "no_outcome w = SUCCEEDED \<and> (\<exists>i \<in> set finished. map_of tasks i = Some (Some w))"
  using assms by (induction finished) (auto split: option.splits if_splits)

lemma race_scan_none:
  assumes "race_scan tasks finished = Some None" and "i \<in> set finished"
  shows "\<exists>x. map_of tasks i = Some (Some x) \<and> no_outcome x \<noteq> SUCCEEDED"
  using assms by (induction finished) (auto split: option.splits if_splits)

text \<open>One round of the race loop that ends with nobody having won.\<close>

lemma race_loop_round:
  assumes "race_scan tasks (filter (\<lambda>i. i \<in> set (p # pending)) reported) = Some None" and "\<not> (deadline \<and> late)"
  shows "race_loop deadline tasks ((reported, late) # waits) (p # pending) completed
    = race_loop deadline tasks waits (filter (\<lambda>i. i \<notin> set (filter (\<lambda>i. i \<in> set (p # pending)) reported)) (p # pending))
        (completed @ filter (\<lambda>i. i \<in> set (p # pending)) reported)"
  unfolding race_loop.simps Let_def assms(1) option.case if_not_P [OF assms(2)] ..

lemma race_loop_winner:
  assumes "race_loop deadline tasks waits pending completed = Ended (Some w, all)"
  shows "no_outcome w = SUCCEEDED \<and> (\<exists>i \<in> set pending. map_of tasks i = Some (Some w))"
  using assms
proof (induction waits arbitrary: pending completed)
  case (Cons wait waits)
  obtain reported late where wait: "wait = (reported, late)" by force
  obtain p ps where pending: "pending = p # ps" using Cons.prems by (cases pending) auto
  let ?f = "filter (\<lambda>i. i \<in> set (p # ps)) reported"
  note prems = Cons.prems [unfolded wait pending]
  consider "race_scan tasks ?f = Some (Some w)" | "race_scan tasks ?f = Some None" "\<not> (deadline \<and> late)"
    using prems unfolding race_loop.simps Let_def by (auto split: option.splits if_splits)
  then show ?case
  proof cases
    case 1
    with race_scan_winner [OF 1] show ?thesis by (auto simp: pending)
  next
    case 2
    from Cons.IH [OF prems [unfolded race_loop_round [OF 2]]] show ?thesis
      unfolding pending set_filter by blast
  qed
next
  case Nil
  then show ?case by (cases pending) auto
qed

lemma race_loop_none:
  assumes "race_loop deadline tasks waits pending completed = Ended (None, all)" and "i \<in> set all"
  shows "i \<in> set completed \<or> (\<exists>x. map_of tasks i = Some (Some x) \<and> no_outcome x \<noteq> SUCCEEDED)"
  using assms
proof (induction waits arbitrary: pending completed)
  case (Cons wait waits)
  obtain reported late where wait: "wait = (reported, late)" by force
  show ?case
  proof (cases pending)
    case Nil
    with Cons.prems show ?thesis by auto
  next
    case pending: (Cons p ps)
    let ?f = "filter (\<lambda>i. i \<in> set (p # ps)) reported"
    note prems = Cons.prems(1) [unfolded wait pending]
    have scan: "race_scan tasks ?f = Some None"
      using prems unfolding race_loop.simps Let_def by (auto split: option.splits)
    have "i \<in> set (completed @ ?f) \<or> (\<exists>x. map_of tasks i = Some (Some x) \<and> no_outcome x \<noteq> SUCCEEDED)"
    proof (cases "deadline \<and> late")
      case True
      then have "all = completed @ ?f"
        using prems unfolding race_loop.simps Let_def scan by simp
      then show ?thesis using Cons.prems(2) by blast
    next
      case False
      from Cons.IH [OF prems [unfolded race_loop_round [OF scan False]] Cons.prems(2)] show ?thesis .
    qed
    with race_scan_none [OF scan, of i] show ?thesis unfolding set_append by blast
  qed
next
  case Nil
  then show ?case by (cases pending) auto
qed

text \<open>A race waits forever only when some member is never reported and no deadline passes.\<close>

lemma race_loop_waiting:
  assumes "race_loop deadline tasks waits pending completed = Waiting"
  shows "(\<exists>i \<in> set pending. \<forall>wait \<in> set waits. i \<notin> set (fst wait)) \<and> (\<forall>wait \<in> set waits. \<not> (deadline \<and> snd wait))"
  using assms
proof (induction waits arbitrary: pending completed)
  case (Cons wait waits)
  obtain reported late where wait: "wait = (reported, late)" by force
  obtain p ps where pending: "pending = p # ps" using Cons.prems by (cases pending) auto
  let ?f = "filter (\<lambda>i. i \<in> set (p # ps)) reported"
  note prems = Cons.prems [unfolded wait pending]
  have scan: "race_scan tasks ?f = Some None" and nlate: "\<not> (deadline \<and> late)"
    using prems unfolding race_loop.simps Let_def by (auto split: option.splits if_splits)
  from Cons.IH [OF prems [unfolded race_loop_round [OF scan nlate]]]
  obtain i where "i \<in> set pending" "i \<notin> set reported" "\<forall>wait \<in> set waits. i \<notin> set (fst wait)"
    and "\<forall>wait \<in> set waits. \<not> (deadline \<and> snd wait)"
    unfolding pending set_filter by blast
  with nlate show ?case by (intro conjI bexI [of _ i]) (auto simp: wait)
next
  case Nil
  then show ?case by (cases pending) auto
qed

text \<open>The tasks of a race, when the members have distinct ids.\<close>

definition race_tasks ::
  "plan \<Rightarrow> plan_node list \<Rightarrow> node_outcome list \<Rightarrow> executor_deps \<Rightarrow> (str, node_outcome option) dict" where
  "race_tasks plan members outcomes deps = map (\<lambda>node. (n_node_id node, snd (run_single plan node outcomes deps))) members"

lemma dkeys_race_tasks: "dkeys (race_tasks plan members outcomes deps) = map n_node_id members"
  by (simp add: race_tasks_def)

lemma race_task_end:
  assumes "map_of (race_tasks plan members outcomes deps) i = Some (Some x)"
  obtains node where "node \<in> set members" and "n_node_id node = i"
    and "snd (run_single plan node outcomes deps) = Some x"
  using assms map_of_SomeD [OF assms] by (auto simp: race_tasks_def)

lemma run_race_distinct:
  assumes "distinct (map n_node_id members)"
  shows "dict_of (map (\<lambda>node. (n_node_id node, snd (run_single plan node outcomes deps))) members)
    = race_tasks plan members outcomes deps"
  using assms by (simp add: race_tasks_def dict_of_distinct comp_def)

lemma those_Some: "those xs = Some ys \<longleftrightarrow> xs = map Some ys"
  by (induction xs arbitrary: ys) (auto split: option.splits)

text \<open>A race that is won.\<close>

lemma race_won:
  assumes dist: "distinct (map n_node_id members)"
    and loop: "race_loop d (race_tasks plan members outcomes deps) waits (map n_node_id members) [] = Ended (Some w, all)"
    and results: "results = w # map (\<lambda>node_id. outcome_of plan node_id (attempt_of node_id outcomes) SKIPPED race_lost_text)
       (filter (\<lambda>node_id. node_id \<noteq> no_node_id w) (map n_node_id members))"
  shows "mset (map outcome_key results) = mset (map (node_key plan outcomes) members)"
    and "no_outcome w = SUCCEEDED" and "\<exists>node \<in> set members. snd (run_single plan node outcomes deps) = Some w"
proof -
  from race_loop_winner [OF loop] obtain i where w: "no_outcome w = SUCCEEDED"
    and i: "map_of (race_tasks plan members outcomes deps) i = Some (Some w)" by blast
  from race_task_end [OF i] obtain node where node: "node \<in> set members"
    "snd (run_single plan node outcomes deps) = Some w" by metis
  from w node show "no_outcome w = SUCCEEDED" "\<exists>node \<in> set members. snd (run_single plan node outcomes deps) = Some w"
    by blast+
  have key: "outcome_key w = node_key plan outcomes node" using run_single_Some(1) [OF node(2)] .
  then have wid: "no_node_id w = n_node_id node" by (simp add: node_key_def outcome_key_def)
  let ?k = "\<lambda>i. (p_revision plan, i, attempt_of i outcomes)" and ?ids = "map n_node_id members"
  have "map outcome_key results = ?k (n_node_id node) # map ?k (filter (\<lambda>i. i \<noteq> n_node_id node) ?ids)"
    by (simp add: results key wid comp_def node_key_def)
  also have "\<dots> = map ?k (n_node_id node # removeAll (n_node_id node) ?ids)"
    by (simp add: removeAll_filter_not_eq eq_commute)
  also have "mset \<dots> = image_mset ?k (mset ?ids)"
  proof -
    have "n_node_id node \<in> set ?ids" using node(1) by simp
    then have "mset (n_node_id node # removeAll (n_node_id node) ?ids) = mset ?ids"
      using dist by (simp add: distinct_remove1_removeAll [symmetric])
    then show ?thesis by (simp only: mset_map)
  qed
  finally show "mset (map outcome_key results) = mset (map (node_key plan outcomes) members)"
    by (simp add: node_key_def [abs_def] comp_def image_mset.compositionality)
qed

text \<open>A race that nobody wins.\<close>

lemma race_lost:
  assumes loop: "race_loop d (race_tasks plan members outcomes deps) waits (map n_node_id members) [] = Ended (None, all)"
    and results: "those (map (\<lambda>(node_id, task). if node_id \<in> set all then task
        else Some ((outcome_of plan node_id (attempt_of node_id outcomes) FAILED race_timeout_text)
                    \<lparr>no_error_code := Some (lit ''race_timeout'')\<rparr>)) (race_tasks plan members outcomes deps)) = Some results"
    and dist: "distinct (map n_node_id members)"
  shows "map outcome_key results = map (node_key plan outcomes) members"
    and "\<forall>r \<in> set results. no_outcome r = FAILED"
proof -
  let ?tasks = "race_tasks plan members outcomes deps"
  let ?lost = "\<lambda>node. if n_node_id node \<in> set all then snd (run_single plan node outcomes deps)
     else Some ((outcome_of plan (n_node_id node) (attempt_of (n_node_id node) outcomes) FAILED race_timeout_text)
                    \<lparr>no_error_code := Some (lit ''race_timeout'')\<rparr>)"
  have eq: "map ?lost members = map Some results"
    using results by (simp add: those_Some race_tasks_def comp_def)
  have good: "outcome_key r = node_key plan outcomes node \<and> no_outcome r = FAILED"
    if node: "node \<in> set members" "?lost node = Some r" for node r
  proof (cases "n_node_id node \<in> set all")
    case True
    then have r: "snd (run_single plan node outcomes deps) = Some r" using node(2) by simp
    have "map_of ?tasks (n_node_id node) = Some (Some r)"
      using node(1) r dist by (auto simp: race_tasks_def comp_def intro!: map_of_is_SomeI image_eqI [of _ _ node])
    with race_loop_none [OF loop True] have "no_outcome r \<noteq> SUCCEEDED" by auto
    then show ?thesis using run_single_Some [OF r] by auto
  next
    case False
    then show ?thesis using node(2) by (auto simp: node_key_def)
  qed
  have len: "length members = length results" using arg_cong [OF eq, of length] by simp
  have at: "?lost (members ! i) = Some (results ! i)" if "i < length members" for i
    using arg_cong [OF eq, of "\<lambda>xs. xs ! i"] that len by simp
  show "map outcome_key results = map (node_key plan outcomes) members"
    using good [OF nth_mem at] len by (intro nth_equalityI) auto
  show "\<forall>r \<in> set results. no_outcome r = FAILED"
    using good [OF nth_mem at] len by (auto simp: in_set_conv_nth)
qed

lemma race_ended:
  assumes dist: "distinct (map n_node_id members)"
    and ended: "snd (run_race plan name members outcomes deps waits) = Ended results"
  shows "mset (map outcome_key results) = mset (map (node_key plan outcomes) members)
    \<and> ((\<exists>w losers. results = w # losers \<and> no_outcome w = SUCCEEDED \<and> (\<forall>r \<in> set losers. no_outcome r = SKIPPED)
          \<and> (\<exists>node \<in> set members. snd (run_single plan node outcomes deps) = Some w))
       \<or> (\<forall>r \<in> set results. no_outcome r = FAILED))"
proof -
  let ?tasks = "race_tasks plan members outcomes deps"
  obtain w all where loop: "race_loop (d_race_timeout_ms deps > 0) ?tasks waits (map n_node_id members) [] = Ended (w, all)"
    using ended by (auto simp: run_race_def Let_def run_race_distinct [OF dist] dkeys_race_tasks split: ending.splits)
  note run = ended [unfolded run_race_def Let_def run_race_distinct [OF dist] dkeys_race_tasks loop]
  show ?thesis
  proof (cases w)
    case None
    from run have "those (map (\<lambda>(node_id, task). if node_id \<in> set all then task
        else Some ((outcome_of plan node_id (attempt_of node_id outcomes) FAILED race_timeout_text)
                    \<lparr>no_error_code := Some (lit ''race_timeout'')\<rparr>)) ?tasks) = Some results"
      by (simp add: None split: option.splits)
    from race_lost [OF loop [unfolded None] this dist] show ?thesis by simp
  next
    case (Some v)
    let ?losers = "map (\<lambda>node_id. outcome_of plan node_id (attempt_of node_id outcomes) SKIPPED race_lost_text)
       (filter (\<lambda>node_id. node_id \<noteq> no_node_id v) (map n_node_id members))"
    have results: "results = v # ?losers" using run by (simp add: Some)
    note won = race_won [OF dist loop [unfolded Some] results]
    have "\<forall>r \<in> set ?losers. no_outcome r = SKIPPED" by auto
    with won results show ?thesis by blast
  qed
qed

text \<open>C26: When a race returns, every member has exactly one outcome, under its own next attempt: either
  one member has succeeded, with the outcome of its own execution, and all the others are skipped, or
  every member has failed.\<close>

theorem race_one_winner:
  assumes dist: "distinct (map n_node_id members)"
    and ended: "snd (run_race plan name members outcomes deps waits) = Ended results"
  shows "mset (map outcome_key results) = mset (map (node_key plan outcomes) members)
    \<and> ((\<exists>w losers. results = w # losers \<and> no_outcome w = SUCCEEDED \<and> (\<forall>r \<in> set losers. no_outcome r = SKIPPED)
          \<and> (\<exists>node \<in> set members. snd (run_single plan node outcomes deps) = Some w))
       \<or> (\<forall>r \<in> set results. no_outcome r = FAILED))"
  by (rule race_ended [OF dist ended])

text \<open>A tool control that accepts every call, and a race of two nodes in which the second answers first.\<close>

definition demo_deps :: executor_deps where
  "demo_deps = \<lparr>d_run_id = [5], d_owner_id = [6], d_loads = (\<lambda>s. Inr (JObj [])),
     d_stage = (\<lambda>call. Result \<lparr>st_tool_call_id = mc_id call, st_operation_key = [8], st_tool_id = mc_name call\<rparr>),
     d_resume = (\<lambda>staged n. Result \<lparr>tr_tool_call_id = st_tool_call_id staged, tr_operation_id = [9], tr_status = Res_success,
       tr_summary = lit ''ok'', tr_content = [], tr_artifacts = [], tr_error = None, tr_timing_ms = 0, tr_approval_id = None\<rparr>),
     d_answers = (\<lambda>staged. 0), d_registry = [], d_race_timeout_ms = 30000\<rparr>"

lemma demo_single: "\<exists>x. snd (run_single plan (demo_node i deps) outcomes demo_deps) = Some x \<and> no_outcome x = SUCCEEDED"
  by (simp add: run_single_def run_node_def run_tool_node_def demo_node_def demo_deps_def obj_items_def Let_def)

theorem race_one_winner_witness:
  "\<exists>results. snd (run_race demo_plan [7] [demo_node [1] [], demo_node [2] []] [] demo_deps [([[2]], False)]) = Ended results
     \<and> mset (map outcome_key results) = mset [(1, [1], 0), (1, [2], 0)] \<and> (\<exists>r \<in> set results. no_outcome r = SKIPPED)"
proof -
  let ?members = "[demo_node [1] [], demo_node [2] []]"
  obtain x y where x: "snd (run_single demo_plan (demo_node [1] []) [] demo_deps) = Some x" "no_outcome x = SUCCEEDED"
    and y: "snd (run_single demo_plan (demo_node [2] []) [] demo_deps) = Some y" "no_outcome y = SUCCEEDED"
    using demo_single by metis
  have ids: "map n_node_id ?members = [[1], [2]]" by (simp add: demo_node_def)
  then have dist: "distinct (map n_node_id ?members)" by simp
  have tasks: "race_tasks demo_plan ?members [] demo_deps = [([1], Some x), ([2], Some y)]"
    using ids x y by (simp add: race_tasks_def)
  obtain results where res: "snd (run_race demo_plan [7] ?members [] demo_deps [([[2]], False)]) = Ended results"
    and "\<exists>r \<in> set results. no_outcome r = SKIPPED"
  proof
    show "snd (run_race demo_plan [7] ?members [] demo_deps [([[2]], False)])
      = Ended (y # [outcome_of demo_plan [1] 0 SKIPPED race_lost_text])"
      using y run_single_Some(1) [OF y(1)]
      unfolding run_race_def Let_def run_race_distinct [OF dist] tasks
      by (simp add: demo_deps_def node_key_def outcome_key_def attempt_of_def demo_node_def)
  qed simp
  moreover have "map (node_key demo_plan []) ?members = [(1, [1], 0), (1, [2], 0)]"
    by (simp add: node_key_def demo_plan_def demo_node_def attempt_of_def)
  ultimately show ?thesis using race_one_winner [OF dist res] by metis
qed

end
