(* ===== verification/Executor_Properties.thy ===== *)
theory Executor_Properties
  imports Race_Properties
begin

text \<open>
  What one layer produces: the outcomes of its nodes, each under a fresh key. The executor model is an
  instance of the contract \<open>layer_runner\<close>, so the reducer never meets a conflict.
\<close>

section \<open>Layers\<close>

lemma gather_Ended: "gather es = Ended outs \<Longrightarrow> \<exists>xss. es = map Ended xss \<and> outs = concat xss"
proof (induction es arbitrary: outs rule: gather.induct)
  case (4 xs rest)
  then obtain ys where "gather rest = Ended ys" "outs = xs @ ys" by (auto split: ending.splits)
  with 4(1) [of ys] obtain xss where "rest = map Ended xss" "ys = concat xss" by blast
  with \<open>outs = xs @ ys\<close> show ?case by (intro exI [of _ "xs # xss"]) simp
qed (auto split: if_splits)

lemma group_insert_mset:
  "mset (concat (dvalues (AList.update k (dget [] g k @ [x]) g))) = add_mset x (mset (concat (dvalues g)))"
  by (induction g) (auto simp: dget_def)

lemma race_groups_mset: "mset (concat (dvalues (race_groups layer))) = mset (filter in_race layer)"
proof -
  have "mset (concat (dvalues (fold (\<lambda>node groups.
     AList.update (group_of node) (dget [] groups (group_of node) @ [node]) groups) nodes g)))
     = mset (concat (dvalues g)) + mset nodes" for nodes g
    by (induction nodes arbitrary: g) (simp_all only: fold_simps group_insert_mset mset.simps, simp_all)
  from this [of "filter in_race layer" "[]"] show ?thesis by (simp add: race_groups_def)
qed

lemma race_groups_distinct: "distinct (dkeys (race_groups layer))"
proof -
  have "distinct (dkeys g) \<Longrightarrow> distinct (dkeys (fold (\<lambda>node groups.
     AList.update (group_of node) (dget [] groups (group_of node) @ [node]) groups) nodes g))" for nodes g
    by (induction nodes arbitrary: g) (simp_all add: distinct_update)
  then show ?thesis by (simp add: race_groups_def)
qed

text \<open>The nodes each task of a layer stands for.\<close>

definition layer_parts :: "plan_node list \<Rightarrow> plan_node list list" where
  "layer_parts layer = map (\<lambda>node. [node]) (filter (\<lambda>node. \<not> in_race node) layer) @ dvalues (race_groups layer)"

lemma layer_parts_mset: "mset (concat (layer_parts layer)) = mset layer"
proof -
  have "concat (map (\<lambda>node. [node]) xs) = xs" for xs :: "plan_node list" by (induction xs) simp_all
  then have "mset (concat (layer_parts layer)) = mset (filter (\<lambda>node. \<not> in_race node) layer) + mset (filter in_race layer)"
    by (simp add: layer_parts_def race_groups_mset)
  also have "\<dots> = mset layer" by (simp add: multiset_partition [symmetric] add.commute)
  finally show ?thesis .
qed

text \<open>What a finished task yields for the nodes it stands for.\<close>

definition part_result :: "plan \<Rightarrow> node_outcome list \<Rightarrow> node_outcome list ending \<Rightarrow> plan_node list \<Rightarrow> bool" where
  "part_result plan outcomes e part \<longleftrightarrow> (\<forall>xs. e = Ended xs \<longrightarrow>
     mset (map outcome_key xs) = mset (map (node_key plan outcomes) part)
     \<and> (\<forall>x \<in> set xs. no_outcome x \<in> {SUCCEEDED, FAILED, SKIPPED}))"

lemma single_part: "part_result plan outcomes (snd (single_task plan outcomes deps node)) [node]"
  using run_single_Some [of plan node outcomes deps]
  by (auto simp: part_result_def single_task_def split: option.splits)

lemma race_part:
  assumes "distinct (map n_node_id members)"
  shows "part_result plan outcomes (snd (run_race plan name members outcomes deps waits)) members"
  unfolding part_result_def
proof (intro allI impI)
  fix xs assume "snd (run_race plan name members outcomes deps waits) = Ended xs"
  from race_ended [OF assms this]
  show "mset (map outcome_key xs) = mset (map (node_key plan outcomes) members)
    \<and> (\<forall>x \<in> set xs. no_outcome x \<in> {SUCCEEDED, FAILED, SKIPPED})"
    by (elim conjE disjE exE) auto
qed

lemma distinct_concatD: "distinct (concat xss) \<Longrightarrow> xs \<in> set xss \<Longrightarrow> distinct xs"
  by (induction xss) auto

text \<open>The tasks of a layer before they are put into the dictionary, each with its nodes.\<close>

definition layer_entries ::
  "plan \<Rightarrow> plan_node list \<Rightarrow> node_outcome list \<Rightarrow> executor_deps \<Rightarrow> (str \<Rightarrow> (str list \<times> bool) list)
   \<Rightarrow> (str \<times> plan_node list \<times> node_outcome list ending) list" where
  "layer_entries plan layer outcomes deps waits =
     map (\<lambda>node. (n_node_id node, [node], snd (single_task plan outcomes deps node))) (filter (\<lambda>node. \<not> in_race node) layer)
     @ map (\<lambda>(name, members). (race_key name, members, snd (run_race plan name members outcomes deps (waits name))))
         (race_groups layer)"

lemma layer_entries_parts: "map (fst \<circ> snd) (layer_entries plan layer outcomes deps waits) = layer_parts layer"
  by (simp add: layer_entries_def layer_parts_def comp_def case_prod_unfold)

lemma run_layer_entries:
  "snd (run_layer plan layer outcomes deps waits)
     = gather (map (snd \<circ> snd) (dict_of (layer_entries plan layer outcomes deps waits)))"
proof -
  let ?tasks = "map (\<lambda>node. (n_node_id node, single_task plan outcomes deps node)) (filter (\<lambda>node. \<not> in_race node) layer)
      @ map (\<lambda>(name, members). (race_key name, run_race plan name members outcomes deps (waits name))) (race_groups layer)"
  have "map (\<lambda>(k, v). (k, snd v)) ?tasks = map (\<lambda>(k, v). (k, snd v)) (layer_entries plan layer outcomes deps waits)"
    by (simp add: layer_entries_def comp_def case_prod_unfold)
  then have "map (\<lambda>(k, v). (k, snd v)) (dict_of ?tasks)
      = map (\<lambda>(k, v). (k, snd v)) (dict_of (layer_entries plan layer outcomes deps waits))"
    by (simp only: dict_of_map [symmetric])
  from arg_cong [OF this, of "map snd"] show ?thesis
    by (simp add: run_layer_def Let_def layer_tasks_def comp_def case_prod_unfold)
qed

lemma separate_entries:
  assumes "separate_layer layer"
  shows "dict_of (layer_entries plan layer outcomes deps waits) = layer_entries plan layer outcomes deps waits"
proof -
  let ?singles = "filter (\<lambda>node. \<not> in_race node) layer"
  have "distinct (map n_node_id ?singles)"
    using assms by (simp add: separate_layer_def distinct_map_filter)
  moreover have "distinct (map race_key (dkeys (race_groups layer)))"
    using race_groups_distinct [of layer] by (simp only: distinct_map) (simp add: inj_on_def race_key_def)
  moreover have "set (map n_node_id ?singles) \<inter> set (map race_key (dkeys (race_groups layer))) = {}"
    using assms by (auto simp: separate_layer_def)
  ultimately show ?thesis
    by (intro dict_of_distinct) (simp add: layer_entries_def comp_def case_prod_unfold)
qed

lemma part_distinct:
  assumes "distinct (map n_node_id layer)" and "members \<in> set (layer_parts layer)"
  shows "distinct (map n_node_id members)"
proof -
  have "mset (map n_node_id (concat (layer_parts layer))) = mset (map n_node_id layer)"
    by (simp only: mset_map layer_parts_mset)
  then have "distinct (map n_node_id (concat (layer_parts layer)))"
    using assms(1) mset_eq_imp_distinct_iff by blast
  then show ?thesis
    using assms(2) distinct_concatD [of "map (map n_node_id) (layer_parts layer)"] by (simp add: map_concat)
qed

lemma race_groups_members: "(name, members) \<in> set (race_groups layer) \<Longrightarrow> members \<in> set (layer_parts layer)"
  by (force simp: layer_parts_def)

lemma entry_result:
  assumes dist: "distinct (map n_node_id layer)"
    and entry: "(k, part, e) \<in> set (layer_entries plan layer outcomes deps waits)"
  shows "part_result plan outcomes e part"
  using entry race_part [OF part_distinct [OF dist race_groups_members]]
  by (auto simp: layer_entries_def single_part)

lemma race_groups_nonempty: "[] \<notin> set (dvalues (race_groups layer))"
proof -
  have upd: "set (dvalues (AList.update k v g)) \<subseteq> insert v (set (dvalues g))" for k v and g :: "(str, plan_node list) dict"
    by (induction g) auto
  have "[] \<notin> set (dvalues g) \<Longrightarrow> [] \<notin> set (dvalues (fold (\<lambda>node groups.
     AList.update (group_of node) (dget [] groups (group_of node) @ [node]) groups) nodes g))" for nodes g
  proof (induction nodes arbitrary: g)
    case (Cons node nodes)
    have "[] \<notin> set (dvalues (AList.update (group_of node) (dget [] g (group_of node) @ [node]) g))"
      using upd [of "group_of node" "dget [] g (group_of node) @ [node]" g] Cons.prems by auto
    then show ?case using Cons.IH by simp
  qed simp
  then show ?thesis by (simp add: race_groups_def)
qed

lemma layer_parts_nonempty: "[] \<notin> set (layer_parts layer)"
  using race_groups_nonempty [of layer] by (auto simp: layer_parts_def)

lemma concat_submset:
  assumes "mset xss \<subseteq># mset yss"
  shows "mset (concat xss) \<subseteq># mset (concat yss)"
proof -
  obtain zss where zss: "mset yss = mset (xss @ zss)" using assms by (rule submset_append)
  have "mset (concat yss) = \<Sum>\<^sub># (image_mset mset (mset yss))" by (simp add: mset_concat sum_mset_sum_list [symmetric])
  also have "\<dots> = mset (concat (xss @ zss))" by (simp add: zss mset_concat sum_mset_sum_list [symmetric])
  finally show ?thesis by simp
qed

lemma parts_concat:
  assumes "list_all2 (part_result plan outcomes) (map Ended xss) parts"
  shows "mset (map outcome_key (concat xss)) = mset (map (node_key plan outcomes) (concat parts))
    \<and> (\<forall>x \<in> set (concat xss). no_outcome x \<in> {SUCCEEDED, FAILED, SKIPPED})"
  using assms
proof (induction xss arbitrary: parts)
  case (Cons xs xss)
  then obtain part rest where parts: "parts = part # rest"
    "part_result plan outcomes (Ended xs) part" "list_all2 (part_result plan outcomes) (map Ended xss) rest"
    by (auto simp: list_all2_Cons1)
  from Cons.IH [OF parts(3)] parts(2) show ?case
    unfolding parts(1) part_result_def by (simp add: ball_Un)
qed simp

text \<open>The outcomes of a layer are those of the tasks that are gathered.\<close>

lemma run_layer_gathered:
  assumes dist: "distinct (map n_node_id layer)" and ended: "snd (run_layer plan layer outcomes deps waits) = Ended outs"
  obtains parts xss where "mset parts \<subseteq># mset (layer_parts layer)" and "outs = concat xss"
    and "list_all2 (part_result plan outcomes) (map Ended xss) parts" and "layer \<noteq> [] \<Longrightarrow> parts \<noteq> []"
    and "separate_layer layer \<Longrightarrow> parts = layer_parts layer"
proof -
  let ?entries = "layer_entries plan layer outcomes deps waits"
  let ?parts = "map (fst \<circ> snd) (dict_of ?entries)"
  from gather_Ended [OF ended [unfolded run_layer_entries]] obtain xss where
    xss: "map (snd \<circ> snd) (dict_of ?entries) = map Ended xss" "outs = concat xss" by blast
  have "image_mset (fst \<circ> snd) (mset (dict_of ?entries)) \<subseteq># image_mset (fst \<circ> snd) (mset ?entries)"
    by (rule image_mset_subseteq_mono [OF dict_of_submset])
  then have sub: "mset ?parts \<subseteq># mset (layer_parts layer)"
    by (simp only: mset_map [symmetric] layer_entries_parts)
  have "set (dict_of ?entries) \<subseteq> set ?entries" using set_mset_mono [OF dict_of_submset [of ?entries]] by simp
  then have "list_all (\<lambda>(k, part, e). part_result plan outcomes e part) (dict_of ?entries)"
    using entry_result [OF dist, of _ _ _ plan outcomes deps waits] by (auto simp: list_all_iff)
  then have all2: "list_all2 (part_result plan outcomes) (map (snd \<circ> snd) (dict_of ?entries)) ?parts"
    by (auto simp: list_all2_conv_all_nth list_all_length case_prod_unfold)
  have ne: "?parts \<noteq> []" if "layer \<noteq> []"
  proof
    assume "?parts = []"
    then have "layer_parts layer = []" using layer_entries_parts [of plan layer outcomes deps waits]
      by (simp add: dict_of_Nil_iff)
    with layer_parts_mset [of layer] that show False by simp
  qed
  have eq: "?parts = layer_parts layer" if "separate_layer layer"
    using that by (simp add: separate_entries layer_entries_parts del: map_map)
  show thesis
    by (rule that [OF sub xss(2) _ ne eq]) (use all2 in \<open>simp_all add: xss(1)\<close>)
qed

lemma run_layer_outcomes:
  assumes dist: "distinct (map n_node_id layer)" and ended: "snd (run_layer plan layer outcomes deps waits) = Ended outs"
  shows "mset (map outcome_key outs) \<subseteq># mset (map (node_key plan outcomes) layer)
      \<and> (\<forall>x \<in> set outs. no_outcome x \<in> {SUCCEEDED, FAILED, SKIPPED})"
    and "layer \<noteq> [] \<Longrightarrow> outs \<noteq> []"
    and "separate_layer layer \<Longrightarrow> mset (map outcome_key outs) = mset (map (node_key plan outcomes) layer)"
proof -
  obtain parts xss where parts: "mset parts \<subseteq># mset (layer_parts layer)" "outs = concat xss"
    "list_all2 (part_result plan outcomes) (map Ended xss) parts" "layer \<noteq> [] \<Longrightarrow> parts \<noteq> []"
    "separate_layer layer \<Longrightarrow> parts = layer_parts layer"
    using run_layer_gathered [OF assms] by metis
  have outs: "mset (map outcome_key outs) = image_mset (node_key plan outcomes) (mset (concat parts))"
    "\<forall>x \<in> set outs. no_outcome x \<in> {SUCCEEDED, FAILED, SKIPPED}"
    using parts_concat [OF parts(3)] by (simp_all add: parts(2))
  have "mset (concat parts) \<subseteq># mset layer" using concat_submset [OF parts(1)] by (simp only: layer_parts_mset)
  with outs show "mset (map outcome_key outs) \<subseteq># mset (map (node_key plan outcomes) layer)
      \<and> (\<forall>x \<in> set outs. no_outcome x \<in> {SUCCEEDED, FAILED, SKIPPED})"
    by (simp add: image_mset_subseteq_mono)
  show "mset (map outcome_key outs) = mset (map (node_key plan outcomes) layer)" if "separate_layer layer"
    using outs(1) parts(5) [OF that] by (simp only: mset_map layer_parts_mset)
  show "outs \<noteq> []" if "layer \<noteq> []"
  proof
    assume "outs = []"
    then have "concat parts = []" using outs(1) by simp
    moreover have "set parts \<subseteq> set (layer_parts layer)" using set_mset_mono [OF parts(1)] by simp
    ultimately show False
      using parts(4) [OF that] layer_parts_nonempty [of layer] by (cases parts) auto
  qed
qed

interpretation layer: layer_runner "\<lambda>plan layer outcomes. snd (run_layer plan layer outcomes deps waits)"
  for deps waits
  by unfold_locales (fact run_layer_outcomes(1,2) | rule run_layer_outcomes(3), simp_all add: separate_layer_def)+

text \<open>When a layer is done: every race has been told of all its members, or of a deadline.\<close>

definition race_reported :: "executor_deps \<Rightarrow> plan_node list \<Rightarrow> (str list \<times> bool) list \<Rightarrow> bool" where
  "race_reported deps members waits \<longleftrightarrow>
     (\<forall>node \<in> set members. \<exists>wait \<in> set waits. n_node_id node \<in> set (fst wait))
     \<or> (d_race_timeout_ms deps > 0 \<and> (\<exists>wait \<in> set waits. snd wait))"

lemma race_not_waiting:
  assumes dist: "distinct (map n_node_id members)" and "race_reported deps members waits"
  shows "snd (run_race plan name members outcomes deps waits) \<noteq> Waiting"
proof -
  let ?loop = "race_loop (d_race_timeout_ms deps > 0) (race_tasks plan members outcomes deps) waits (map n_node_id members) []"
  have "?loop \<noteq> Waiting"
    using race_loop_waiting [of "d_race_timeout_ms deps > 0" "race_tasks plan members outcomes deps" waits
        "map n_node_id members" "[]"] assms(2)
    unfolding race_reported_def set_map by blast
  then show ?thesis
    by (auto simp: run_race_def Let_def run_race_distinct [OF dist] dkeys_race_tasks split: ending.splits option.splits)
qed

lemma gather_Waiting: "gather es = Waiting \<longleftrightarrow> Waiting \<in> set es"
  by (induction es rule: gather.induct) (auto split: ending.splits)

lemma run_layer_ends:
  assumes layer: "distinct (map n_node_id layer)"
    and waits: "\<forall>(name, members) \<in> set (race_groups layer). race_reported deps members (waits name)"
  shows "snd (run_layer plan layer outcomes deps waits) \<noteq> Waiting"
proof -
  have "snd (single_task plan outcomes deps node) \<noteq> Waiting" for node
    by (simp add: single_task_def split: option.split)
  moreover have "snd (run_race plan name members outcomes deps (waits name)) \<noteq> Waiting"
    if "(name, members) \<in> set (race_groups layer)" for name members
  proof (rule race_not_waiting)
    show "distinct (map n_node_id members)" using part_distinct [OF layer race_groups_members [OF that]] .
    show "race_reported deps members (waits name)" using waits that by blast
  qed
  ultimately have "\<forall>(k, part, e) \<in> set (layer_entries plan layer outcomes deps waits). e \<noteq> Waiting"
    by (auto simp: layer_entries_def dest!: sym [of Waiting])
  moreover have "set (dict_of (layer_entries plan layer outcomes deps waits)) \<subseteq> set (layer_entries plan layer outcomes deps waits)"
    using set_mset_mono [OF dict_of_submset [of "layer_entries plan layer outcomes deps waits"]] by simp
  ultimately show ?thesis
    by (fastforce simp: run_layer_entries gather_Waiting)
qed

section \<open>The executor node\<close>

lemma ready_layer_distinct:
  "distinct (map n_node_id (p_nodes plan)) \<Longrightarrow> distinct (map n_node_id (ready_layer plan outcomes))"
  by (simp add: ready_layer_def Let_def distinct_map_filter)

text \<open>The executor on a non-empty layer.\<close>

lemma executor_layer:
  assumes plan: "rs_plan state = Some plan" and ok: "attempts_ok (rs_node_outcomes state)"
    and dist: "distinct (map n_node_id (p_nodes plan))"
    and ne: "ready_layer plan (rs_node_outcomes state) \<noteq> []"
    and fin: "executor deps waits state = Executor_done events after"
  obtains update m where
    "snd (run_layer plan (ready_layer plan (rs_node_outcomes state)) (rs_node_outcomes state) deps waits) = Ended update"
    and "after = state\<lparr>rs_phase := Some (lit ''executing''), rs_node_outcomes := m\<rparr>" and "attempts_ok m"
    and "set m = set (rs_node_outcomes state) \<union> set update" and "set update \<inter> set (rs_node_outcomes state) = {}"
proof -
  let ?outs = "rs_node_outcomes state"
  let ?layer = "ready_layer plan ?outs"
  have layer: "distinct (map n_node_id ?layer)" using dist by (rule ready_layer_distinct)
  obtain evs e where run: "run_layer plan ?layer ?outs deps waits = (evs, e)" by force
  then obtain update where update: "e = Ended update"
    using fin plan ne by (cases e) (auto simp: executor_def Let_def)
  with run have ended: "snd (run_layer plan ?layer ?outs deps waits) = Ended update" by simp
  obtain m where m: "merge_node_outcomes ?outs update = Inr m" "attempts_ok m" "set m = set ?outs \<union> set update"
    by (rule layer.merge_layer [OF layer ended ok])
  have "after = state\<lparr>rs_phase := Some (lit ''executing''), rs_node_outcomes := m\<rparr>"
    using fin plan ne run update m(1) by (simp add: executor_def Let_def)
  moreover have "set update \<inter> set ?outs = {}" using layer.fresh_key(2) [OF layer ended ok] by blast
  ultimately show thesis using ended m(2,3) that by blast
qed

lemma executor_no_conflict:
  assumes plan: "rs_plan state = Some plan" and ok: "attempts_ok (rs_node_outcomes state)"
    and dist: "distinct (map n_node_id (p_nodes plan))"
  shows "executor deps waits state \<noteq> Executor_raised message" and "executor deps waits state \<noteq> Executor_conflict e"
proof -
  let ?outs = "rs_node_outcomes state"
  let ?layer = "ready_layer plan ?outs"
  have layer: "distinct (map n_node_id ?layer)" using dist by (rule ready_layer_distinct)
  have "\<exists>m. merge_node_outcomes ?outs update = Inr m"
    if "run_layer plan ?layer ?outs deps waits = (evs, Ended update)" for evs update
    using layer.merge_layer [OF layer _ ok] that by (metis snd_conv)
  then show "executor deps waits state \<noteq> Executor_raised message" "executor deps waits state \<noteq> Executor_conflict e"
    using plan by (auto simp: executor_def Let_def split: prod.splits ending.splits sum.splits)
qed

text \<open>C27: For a plan with distinct node ids, the executor keeps all earlier outcomes and adds, for the
  nodes of the ready layer, at most one new outcome each under its next attempt, and exactly one each
  when no node is named like a race; it always adds one, the reducer never reports conflicting facts,
  and the outcomes stay in order, every attempt below the number of outcomes of its node.\<close>

theorem executor_consistent:
  assumes plan: "rs_plan state = Some plan" and ok: "attempts_ok (rs_node_outcomes state)"
    and dist: "distinct (map n_node_id (p_nodes plan))"
  shows "case executor deps waits state of
      Executor_done events after \<Rightarrow>
        (\<exists>update. set (rs_node_outcomes after) = set (rs_node_outcomes state) \<union> set update
          \<and> set update \<inter> set (rs_node_outcomes state) = {} \<and> attempts_ok (rs_node_outcomes after)
          \<and> (ready_layer plan (rs_node_outcomes state) \<noteq> [] \<longrightarrow> update \<noteq> [])
          \<and> mset (map outcome_key update)
            \<subseteq># mset (map (node_key plan (rs_node_outcomes state)) (ready_layer plan (rs_node_outcomes state)))
          \<and> (separate_layer (ready_layer plan (rs_node_outcomes state)) \<longrightarrow> mset (map outcome_key update)
            = mset (map (node_key plan (rs_node_outcomes state)) (ready_layer plan (rs_node_outcomes state)))))
    | Executor_waiting \<Rightarrow> True
    | Executor_paused \<Rightarrow> True
    | Executor_raised message \<Rightarrow> False
    | Executor_conflict e \<Rightarrow> False"
proof (cases "executor deps waits state")
  case (Executor_done events after)
  let ?outs = "rs_node_outcomes state"
  let ?layer = "ready_layer plan ?outs"
  have layer: "distinct (map n_node_id ?layer)" using dist by (rule ready_layer_distinct)
  show ?thesis
  proof (cases "?layer = []")
    case True
    then show ?thesis using plan ok by (simp add: executor_def Let_def)
  next
    case False
    from executor_layer [OF plan ok dist False Executor_done] obtain update m where
      ended: "snd (run_layer plan ?layer ?outs deps waits) = Ended update"
      and after: "after = state\<lparr>rs_phase := Some (lit ''executing''), rs_node_outcomes := m\<rparr>" "attempts_ok m"
        "set m = set ?outs \<union> set update" "set update \<inter> set ?outs = {}" .
    show ?thesis unfolding Executor_done executor_result.case
      using after layer.outcomes_of_layer [OF layer ended] layer.some_outcome [OF layer ended False]
        layer.all_outcomes [OF _ ended]
      by (intro exI [of _ update]) simp
  qed
qed (use executor_no_conflict [OF plan ok dist, of deps waits] in simp_all)

definition demo_state :: run_state where
  "demo_state = \<lparr>rs_task_input = None, rs_phase = None, rs_plan = Some demo_plan, rs_plan_branch = None,
     rs_replan_action = None, rs_replans_used = None, rs_node_outcomes = [], rs_clarification_answer = None,
     rs_failure = None\<rparr>"

theorem executor_consistent_witness:
  "\<exists>events after. executor demo_deps (\<lambda>name. []) demo_state = Executor_done events after
     \<and> rs_node_outcomes after \<noteq> [] \<and> attempts_ok (rs_node_outcomes after)"
proof -
  have layer: "ready_layer demo_plan [] = [demo_node [1] []]"
    by (simp add: ready_layer_def is_pending_def demo_plan_def resolved_ids_def demo_node_def
        dependencies_satisfied_def node_ids_def)
  have single: "\<not> in_race (demo_node [1] [])" "race_groups [demo_node [1] []] = []"
    by (simp_all add: in_race_def race_groups_def demo_node_def)
  obtain x where x: "snd (run_single demo_plan (demo_node [1] []) [] demo_deps) = Some x" using demo_single by metis
  have dist: "distinct (map n_node_id (p_nodes demo_plan))" by (simp add: demo_plan_def demo_node_def)
  have "snd (run_layer demo_plan [demo_node [1] []] [] demo_deps (\<lambda>name. [])) = Ended [x]"
    using single x by (simp add: run_layer_def layer_tasks_def dict_of_def single_task_def)
  then have "\<exists>events after. executor demo_deps (\<lambda>name. []) demo_state = Executor_done events after"
    using layer by (auto simp: executor_def demo_state_def Let_def merge_node_outcomes_def by_key_def split: prod.splits)
  then obtain events after where e: "executor demo_deps (\<lambda>name. []) demo_state = Executor_done events after" by blast
  have "rs_plan demo_state = Some demo_plan" "attempts_ok (rs_node_outcomes demo_state)"
    by (simp_all add: demo_state_def)
  from executor_consistent [OF this dist, of demo_deps "\<lambda>name. []"] e layer show ?thesis
    by (auto simp: demo_state_def)
qed

end
