(* ===== verification/Replanner.thy ===== *)
theory Replanner
  imports Planner
begin

text \<open>
  \<open>src/src/agent/planning/replanner.py\<close>: the trigger of a revision, the question to the model, the
  merged plan and the replanner node with its budget. As for the planner, the model is a function of
  the prompt (\<open>None\<close> when the call raises), and the fixed instruction text is a field of the
  configuration.
\<close>

section \<open>Triggers\<close>

datatype replan_trigger = Node_failed | Observation_insufficient | Dependency_invalidated | Premise_changed

primrec trigger_text :: "replan_trigger \<Rightarrow> str" where
  "trigger_text Node_failed = lit ''node_failed''"
| "trigger_text Observation_insufficient = lit ''observation_insufficient''"
| "trigger_text Dependency_invalidated = lit ''dependency_invalidated''"
| "trigger_text Premise_changed = lit ''premise_changed''"

definition PREMISE_ERROR_CODES :: "str set" where
  "PREMISE_ERROR_CODES = {lit ''approval_rejected'', lit ''rag_unavailable'', lit ''tool_catalog_unavailable''}"

definition latest_failures :: "node_outcome list \<Rightarrow> (str, node_outcome) dict" where
  "latest_failures outcomes =
     fold (\<lambda>item. AList.update (no_node_id item) item) (filter (\<lambda>item. no_outcome item = FAILED) outcomes) []"

definition premise_error :: "node_outcome \<Rightarrow> bool" where
  "premise_error item \<longleftrightarrow> (case no_error_code item of None \<Rightarrow> False | Some code \<Rightarrow> code \<in> PREMISE_ERROR_CODES)"

definition detect_trigger :: "plan \<Rightarrow> node_outcome list \<Rightarrow> replan_trigger" where
  "detect_trigger plan outcomes =
     (let failures = latest_failures outcomes;
          pending_ids = set (map n_node_id (pending_nodes plan outcomes))
      in if failures = [] then Observation_insufficient
         else if list_ex premise_error (dvalues failures) then Premise_changed
         else if list_ex (\<lambda>node. n_node_id node \<in> pending_ids
                 \<and> list_ex (\<lambda>dep. dep \<in> set (dkeys failures)) (n_depends_on node)) (p_nodes plan)
         then Dependency_invalidated
         else Node_failed)"

section \<open>Asking the model\<close>

record replanner_config =
  rc_pystr :: "json \<Rightarrow> str"
  rc_dumps :: "(str, json) dict \<Rightarrow> str"
  rc_loads :: "str \<Rightarrow> json option"
  rc_model :: "str \<Rightarrow> str \<Rightarrow> str option"
  rc_prompt :: "nat \<Rightarrow> str"
  rc_mem_prefix :: str
  rc_tools :: "tool_info list"
  rc_agents :: "agent_info list"
  rc_max_replan :: int
  rc_append_limit :: nat
  rc_max_nodes :: nat

definition known_tools :: "replanner_config \<Rightarrow> str set" where
  "known_tools cfg = set (map t_name (rc_tools cfg))"

definition known_agents :: "replanner_config \<Rightarrow> str set" where
  "known_agents cfg = set (map ai_name (rc_agents cfg))"

definition or_text :: "str \<Rightarrow> str \<Rightarrow> str" where
  "or_text a b = (if a = [] then b else a)"

definition snapshot_line :: "str set \<Rightarrow> plan_node \<Rightarrow> str" where
  "snapshot_line done_ids node = lit ''- '' @ n_node_id node @ lit '' (''
     @ show_opt (case n_tool node of Some t \<Rightarrow> if t = [] then n_agent_name node else Some t | None \<Rightarrow> n_agent_name node)
     @ lit '') ['' @ (if n_node_id node \<in> done_ids then lit ''done'' else lit ''pending'') @ lit '']''
     @ [65306] @ n_objective node"

definition failure_line :: "node_outcome \<Rightarrow> str" where
  "failure_line item = lit ''- '' @ no_node_id item @ lit '': '' @ take 200 (no_observation item)
     @ lit '' (code='' @ show_opt (no_error_code item) @ lit '')''"

definition replan_prompt :: "replanner_config \<Rightarrow> plan \<Rightarrow> node_outcome list \<Rightarrow> replan_trigger \<Rightarrow> str" where
  "replan_prompt cfg plan outcomes trigger =
     (let failed_items = filter (\<lambda>item. no_outcome item = FAILED) outcomes in
      join_strs [10, 10]
        ([rc_prompt cfg (rc_append_limit cfg),
          [35302, 21457, 21407, 22240, 65306] @ trigger_text trigger,
          [24403, 21069, 35745, 21010, 65288] @ lit ''revision '' @ show_int (p_revision plan) @ [65289, 65306, 10]
            @ join_strs [10] (map (snapshot_line (succeeded_ids outcomes)) (p_nodes plan))]
         @ (if failed_items = [] then []
            else [[22833, 36133, 33410, 28857, 65306, 10] @ join_strs [10] (map failure_line failed_items)])
         @ [[24050, 26377, 35266, 23519, 65306, 10] @ or_text (observations_text 400 outcomes) [65288, 26242, 26080, 65289],
            [21487, 29992, 24037, 20855, 65306, 10]
              @ or_text (join_strs [10] (map (\<lambda>item. lit ''- '' @ t_name item @ [65306] @ t_description item) (rc_tools cfg)))
                  [65288, 26080, 65289],
            [21487, 29992, 23376, 32, 65, 103, 101, 110, 116, 65306, 10]
              @ or_text (join_strs [10] (map (\<lambda>item. lit ''- '' @ ai_name item @ [65306] @ ai_description item) (rc_agents cfg)))
                  [65288, 26080, 65289],
            [20219, 21153, 30446, 26631, 65306] @ p_goal plan]))"

datatype replan_action = Append | Generate | Give_up

text \<open>The surviving nodes of the current plan (open and not failed) with the appended ones.\<close>

definition merged_plan :: "plan \<Rightarrow> node_outcome list \<Rightarrow> plan \<Rightarrow> plan" where
  "merged_plan plan outcomes appended =
     \<lparr>p_revision = p_revision plan + 1, p_goal = p_goal plan,
      p_nodes = filter (\<lambda>node. n_node_id node \<notin> failed_node_ids outcomes) (pending_nodes plan outcomes) @ p_nodes appended\<rparr>"

definition ask_replanner ::
  "replanner_config \<Rightarrow> plan \<Rightarrow> node_outcome list \<Rightarrow> replan_trigger \<Rightarrow> replan_action \<times> plan option" where
  "ask_replanner cfg plan outcomes trigger =
     (case invoke_model (rc_model cfg) (rc_mem_prefix cfg) (replan_prompt cfg plan outcomes trigger) of
        None \<Rightarrow> (Generate, None)
      | Some raw \<Rightarrow>
          (case parse_planner_output (rc_loads cfg) raw of
             Inl _ \<Rightarrow> (Generate, None)
           | Inr data \<Rightarrow>
               let action = action_of (rc_pystr cfg) (lit ''done'') data in
               if action = lit ''give_up'' then (Give_up, None)
               else if action \<noteq> lit ''append'' then (Generate, None)
               else
               (case sanitize_plan (rc_pystr cfg) (rc_dumps cfg) data (p_goal plan) (known_tools cfg) (known_agents cfg)
                       (min (rc_append_limit cfg) (rc_max_nodes cfg)) (p_revision plan + 1) True of
                  Inl _ \<Rightarrow> (Generate, None)
                | Inr (appended, _) \<Rightarrow>
                    let merged = merged_plan plan outcomes appended in
                    if validate_plan merged (known_tools cfg) (known_agents cfg) \<noteq> [] then (Append, None)
                    else (Append, Some merged))))"

section \<open>The replanner node\<close>

datatype replan_event =
    Replan_exhausted replan_trigger int int
  | Replan_decision replan_trigger replan_action int int
  | Plan_revised int "str list" "plan_node list"

datatype replanner_result =
    Replanner_done "replan_event list" run_state
  | Replanner_raised str

definition used_replans :: "run_state \<Rightarrow> int" where
  "used_replans state = (case rs_replans_used state of None \<Rightarrow> 0 | Some n \<Rightarrow> n)"

definition failure_of :: "str \<Rightarrow> str \<Rightarrow> run_failure" where
  "failure_of code message = \<lparr>rf_code = code, rf_message = message, rf_retryable = False,
     rf_failed_node_id = None, rf_source_ref = None\<rparr>"

definition decide :: "string \<Rightarrow> string \<Rightarrow> int \<Rightarrow> run_state \<Rightarrow> run_state" where
  "decide phase action used state =
     state\<lparr>rs_phase := Some (lit phase), rs_replan_action := Some (lit action), rs_replans_used := Some used\<rparr>"

definition exhausted_message :: "replan_trigger \<Rightarrow> str" where
  "exhausted_message trigger = [37325, 35268, 21010, 39069, 24230, 24050, 29992, 23613, 65288, 35302, 21457, 65306]
     @ trigger_text trigger @ [65289, 65292, 20219, 21153, 26080, 27861, 32487, 32493, 12290]"

definition gave_up_message :: "replan_trigger \<Rightarrow> str" where
  "gave_up_message trigger = lit ''Replanner '' @ [21028, 26029, 20219, 21153, 26080, 27861, 23436, 25104, 65288, 35302, 21457, 65306]
     @ trigger_text trigger @ [65289, 12290]"

text \<open>The second half of the node: the model's decision is carried out; \<open>used\<close> counts it.\<close>

definition carry_out ::
  "replanner_config \<Rightarrow> plan \<Rightarrow> plan_node list \<Rightarrow> replan_trigger \<Rightarrow> int \<Rightarrow> replan_action \<times> plan option \<Rightarrow> run_state
   \<Rightarrow> replanner_result" where
  "carry_out cfg plan remaining trigger used answer state =
     (let decision = Replan_decision trigger (fst answer) used (rc_max_replan cfg) in
      case answer of
        (Generate, _) \<Rightarrow> Replanner_done [decision] (decide ''synthesizing'' ''generate'' used state)
      | (Give_up, _) \<Rightarrow>
          Replanner_done [decision] ((decide ''replanning'' ''give_up'' used state)
            \<lparr>rs_failure := Some (failure_of (lit ''plan_gave_up'') (gave_up_message trigger))\<rparr>)
      | (Append, None) \<Rightarrow>
          Replanner_done [decision]
            (if remaining = [] then decide ''synthesizing'' ''generate'' used state
             else decide ''replanning'' ''execute'' used state)
      | (Append, Some revised) \<Rightarrow>
          let appended = filter (\<lambda>node. n_node_id node \<notin> set (node_ids (p_nodes plan))) (p_nodes revised) in
          Replanner_done [decision, Plan_revised (p_revision revised) (map n_node_id appended) appended]
            ((decide ''replanning'' ''execute'' used state)\<lparr>rs_plan := Some revised\<rparr>))"

definition replanner :: "replanner_config \<Rightarrow> run_state \<Rightarrow> replanner_result" where
  "replanner cfg state =
     (case rs_plan state of
        None \<Rightarrow> Replanner_raised (lit ''replanner requires plan in state'')
      | Some plan \<Rightarrow>
          let outcomes = rs_node_outcomes state;
              used = used_replans state;
              remaining = pending_nodes plan outcomes;
              has_failures = list_ex (\<lambda>item. no_outcome item = FAILED) outcomes;
              trigger = (if remaining = [] then Observation_insufficient else detect_trigger plan outcomes)
          in if remaining \<noteq> [] \<and> \<not> has_failures
             then Replanner_done [] (decide ''replanning'' ''execute'' used state)
             else if used \<ge> rc_max_replan cfg then
               if remaining = [] then Replanner_done [] (decide ''synthesizing'' ''generate'' used state)
               else Replanner_done [Replan_exhausted trigger used (rc_max_replan cfg)]
                 ((decide ''replanning'' ''give_up'' used state)
                    \<lparr>rs_failure := Some (failure_of (lit ''replan_exhausted'') (exhausted_message trigger))\<rparr>)
             else carry_out cfg plan remaining trigger (used + 1) (ask_replanner cfg plan outcomes trigger) state)"

section \<open>The routes of the graph\<close>

text \<open>\<open>src/src/agent/graph.py\<close>: where the run goes after each planning node.\<close>

datatype graph_node =
    Prepare | Selector | Planner_node | Executor_node | Replanner_node | Generator_node | Rag_answer
  | Model_decision | Execute_tool | Model_finalize | Final

definition route_after_selector :: "run_state \<Rightarrow> graph_node" where
  "route_after_selector state =
     (let branch = (case rs_plan_branch state of None \<Rightarrow> lit ''baseline'' | Some b \<Rightarrow> or_text b (lit ''baseline'')) in
      if branch = lit ''react'' then Planner_node else if branch = lit ''rag'' then Rag_answer else Model_decision)"

definition route_after_planner :: "run_state \<Rightarrow> graph_node" where
  "route_after_planner state = (if rs_plan state \<noteq> None then Executor_node else Model_decision)"

definition route_after_replanner :: "run_state \<Rightarrow> graph_node" where
  "route_after_replanner state =
     (let action = (case rs_replan_action state of None \<Rightarrow> lit ''generate'' | Some a \<Rightarrow> or_text a (lit ''generate'')) in
      if action = lit ''execute'' then Executor_node
      else if action = lit ''give_up'' then Final
      else Generator_node)"

end
