(* ===== verification/Plan_Loop.thy ===== *)
theory Plan_Loop
  imports Executor_Properties Replanner
begin

text \<open>
  The loop of the planning graph (\<open>src/src/agent/graph.py\<close>): executor, replanner, and back to the
  executor as long as the replanner says so. Each round has its own environment: the tools and the
  order in which tasks finish, and the answers of the model.

  The loop always leaves: a round either uses one unit of the replanning budget or resolves an open
  node. \<open>loop_bound\<close> is the number of rounds that is enough: with a budget of \<open>b\<close>, \<open>p\<close> open nodes and
  at most \<open>a\<close> nodes appended per revision, \<open>(p + 1) + (p + a + 1) + \<dots> + (p + b * a + 1)\<close>.
\<close>

section \<open>The loop\<close>

record loop_env =
  le_deps :: executor_deps
  le_waits :: "str \<Rightarrow> (str list \<times> bool) list"
  le_config :: replanner_config

datatype loop_end =
    Left_to graph_node run_state
  | Loop_paused
  | Loop_waiting
  | Loop_raised

definition plan_round :: "loop_env \<Rightarrow> run_state \<Rightarrow> loop_end" where
  "plan_round env state =
     (case executor (le_deps env) (le_waits env) state of
        Executor_done _ executed \<Rightarrow>
          (case replanner (le_config env) executed of
             Replanner_done _ after \<Rightarrow> Left_to (route_after_replanner after) after
           | Replanner_raised _ \<Rightarrow> Loop_raised)
      | Executor_waiting \<Rightarrow> Loop_waiting
      | Executor_paused \<Rightarrow> Loop_paused
      | Executor_raised _ \<Rightarrow> Loop_raised
      | Executor_conflict _ \<Rightarrow> Loop_raised)"

fun plan_loop :: "nat \<Rightarrow> (nat \<Rightarrow> loop_env) \<Rightarrow> nat \<Rightarrow> run_state \<Rightarrow> loop_end option" where
  "plan_loop 0 env k state = None"
| "plan_loop (Suc fuel) env k state =
     (case plan_round (env k) state of
        Left_to Executor_node after \<Rightarrow> plan_loop fuel env (k + 1) after
      | e \<Rightarrow> Some e)"

primrec loop_bound :: "nat \<Rightarrow> nat \<Rightarrow> nat \<Rightarrow> nat" where
  "loop_bound 0 a p = p + 1"
| "loop_bound (Suc b) a p = p + 1 + loop_bound b a (p + a)"

lemma loop_bound_mono: "p \<le> q \<Longrightarrow> loop_bound b a p \<le> loop_bound b a q"
  by (induction b arbitrary: p q) (simp_all add: add_le_mono)

lemma loop_bound_less: "p < q \<Longrightarrow> loop_bound b a p < loop_bound b a q"
  by (induction b arbitrary: p q) (simp_all add: add_less_mono)

section \<open>States of the loop\<close>

text \<open>A plan that passes the check and names no empty dependency: what the planner and the replanner make.\<close>

definition sound_plan :: "plan \<Rightarrow> bool" where
  "sound_plan plan \<longleftrightarrow> (\<exists>tools agents. validate_plan plan tools agents = [])
     \<and> (\<forall>node \<in> set (p_nodes plan). [] \<notin> set (n_depends_on node))"

definition open_nodes :: "run_state \<Rightarrow> nat" where
  "open_nodes state = (case rs_plan state of None \<Rightarrow> 0 | Some plan \<Rightarrow> length (pending_nodes plan (rs_node_outcomes state)))"

definition loop_ready :: "run_state \<Rightarrow> bool" where
  "loop_ready state \<longleftrightarrow> (\<exists>plan. rs_plan state = Some plan \<and> sound_plan plan) \<and> attempts_ok (rs_node_outcomes state)"

lemma sound_plan_distinct: "sound_plan plan \<Longrightarrow> distinct (map n_node_id (p_nodes plan))"
  by (auto simp: sound_plan_def validate_plan_iff wf_plan_def node_ids_def)

lemma length_filter_mono: "(\<And>x. x \<in> set xs \<Longrightarrow> P x \<Longrightarrow> Q x) \<Longrightarrow> length (filter P xs) \<le> length (filter Q xs)"
  by (induction xs) (auto simp: le_SucI)

lemma length_filter_strict:
  assumes "\<And>x. x \<in> set xs \<Longrightarrow> P x \<Longrightarrow> Q x" and "y \<in> set xs" and "Q y" and "\<not> P y"
  shows "length (filter P xs) < length (filter Q xs)"
proof -
  have "set (filter P xs) \<subseteq> set (filter Q xs)" using assms(1) by auto
  obtain ys zs where xs: "xs = ys @ y # zs" using assms(2) by (meson split_list)
  have "length (filter P ys) \<le> length (filter Q ys)" "length (filter P zs) \<le> length (filter Q zs)"
    using assms(1) by (auto simp: xs intro!: length_filter_mono)
  then show ?thesis using assms(3,4) by (simp add: xs)
qed

lemma resolved_ids_mono: "set xs \<subseteq> set ys \<Longrightarrow> resolved_ids xs \<subseteq> resolved_ids ys"
  by (auto simp: resolved_ids_def)

lemma pending_mono:
  "set xs \<subseteq> set ys \<Longrightarrow> length (pending_nodes plan ys) \<le> length (pending_nodes plan xs)"
  using resolved_ids_mono [of xs ys]
  by (auto simp: pending_nodes_def Let_def is_pending_def intro!: length_filter_mono)

section \<open>One round\<close>

text \<open>What the executor does to the number of open nodes.\<close>

lemma executor_effect:
  assumes ready: "loop_ready state" and plan: "rs_plan state = Some plan"
    and fin: "executor deps waits state = Executor_done events after"
  shows "rs_plan after = Some plan" and "used_replans after = used_replans state"
    and "attempts_ok (rs_node_outcomes after)" and "open_nodes after \<le> open_nodes state"
    and "\<lbrakk>pending_nodes plan (rs_node_outcomes after) \<noteq> [];
      \<not> list_ex (\<lambda>item. no_outcome item = FAILED) (rs_node_outcomes after)\<rbrakk> \<Longrightarrow> open_nodes after < open_nodes state"
proof -
  let ?outs = "rs_node_outcomes state" and ?new = "rs_node_outcomes after"
  let ?layer = "ready_layer plan ?outs"
  have sound: "sound_plan plan" and ok: "attempts_ok ?outs" using ready plan by (auto simp: loop_ready_def)
  note dist = sound_plan_distinct [OF sound]
  have "rs_plan after = Some plan \<and> used_replans after = used_replans state \<and> attempts_ok ?new
    \<and> open_nodes after \<le> open_nodes state \<and> (pending_nodes plan ?new \<noteq> []
      \<longrightarrow> \<not> list_ex (\<lambda>item. no_outcome item = FAILED) ?new \<longrightarrow> open_nodes after < open_nodes state)"
  proof (cases "?layer = []")
    case True
    then have after: "after = state\<lparr>rs_phase := Some (lit ''executing''), rs_replan_action := Some (lit ''generate'')\<rparr>"
      using fin plan by (simp add: executor_def Let_def)
    have "pending_nodes plan ?outs = []"
      using True ready_layer_nonempty [of plan _ _ ?outs] sound by (auto simp: sound_plan_def)
    then show ?thesis using plan ok by (simp add: after used_replans_def open_nodes_def)
  next
    case False
    from executor_layer [OF plan ok dist False fin] obtain update m where
      ended: "snd (run_layer plan ?layer ?outs deps waits) = Ended update"
      and after: "after = state\<lparr>rs_phase := Some (lit ''executing''), rs_node_outcomes := m\<rparr>"
      and m: "attempts_ok m" "set m = set ?outs \<union> set update" "set update \<inter> set ?outs = {}" .
    note layer = ready_layer_distinct [OF dist, of ?outs]
    have "length (pending_nodes plan m) < length (pending_nodes plan ?outs)"
      if nofail: "\<not> list_ex (\<lambda>item. no_outcome item = FAILED) m"
    proof -
      obtain x where x: "x \<in> set update"
        using layer.some_outcome [OF layer ended False] by (cases update) auto
      then have "no_outcome x \<in> {SUCCEEDED, SKIPPED}"
        using layer.outcomes_of_layer [OF layer ended] nofail m(2) by (auto simp: list_ex_iff)
      then have res: "no_node_id x \<in> resolved_ids m" using x m(2) by (auto simp: resolved_ids_iff)
      have "no_node_id x \<in> n_node_id ` set ?layer"
        using layer.outcome_for_node(3) [OF layer ended] x by blast
      then obtain node where node: "node \<in> set ?layer" "n_node_id node = no_node_id x" by (metis imageE)
      then have "node \<in> set (p_nodes plan)" "n_node_id node \<notin> resolved_ids ?outs" by (auto simp: ready_layer_iff)
      then show ?thesis
        using res node(2) resolved_ids_mono [of ?outs m] m(2)
        unfolding pending_nodes_def Let_def is_pending_def
        by (intro length_filter_strict [of _ _ _ node]) auto
    qed
    moreover have "length (pending_nodes plan m) \<le> length (pending_nodes plan ?outs)"
      using m(2) by (intro pending_mono) auto
    ultimately show ?thesis using plan m(1) by (simp add: after used_replans_def open_nodes_def)
  qed
  then show "rs_plan after = Some plan" "used_replans after = used_replans state" "attempts_ok ?new"
    "open_nodes after \<le> open_nodes state"
    "\<lbrakk>pending_nodes plan ?new \<noteq> []; \<not> list_ex (\<lambda>item. no_outcome item = FAILED) ?new\<rbrakk>
      \<Longrightarrow> open_nodes after < open_nodes state"
    by blast+
qed

text \<open>What the replanner does when it sends the run back to the executor.\<close>

lemma decide_simps [simp]:
  "rs_plan (decide p a u s) = rs_plan s" "rs_node_outcomes (decide p a u s) = rs_node_outcomes s"
  "used_replans (decide p a u s) = u" "rs_replan_action (decide p a u s) = Some (lit a)"
  by (simp_all add: decide_def used_replans_def)

lemma used_replans_update [simp]:
  "used_replans (s\<lparr>rs_plan := p\<rparr>) = used_replans s" "used_replans (s\<lparr>rs_failure := f\<rparr>) = used_replans s"
  by (simp_all add: used_replans_def)

lemma ask_replanner_merged:
  assumes "ask_replanner cfg plan outcomes trigger = (action, Some revised)"
  obtains appended where "revised = merged_plan plan outcomes appended"
    and "validate_plan revised (known_tools cfg) (known_agents cfg) = []"
    and "length (p_nodes appended) \<le> min (rc_append_limit cfg) (rc_max_nodes cfg)"
    and "length (p_nodes appended) \<le> rc_append_limit cfg"
    and "\<forall>node \<in> set (p_nodes appended). allowed_node (known_tools cfg) (known_agents cfg) node"
proof -
  from assms obtain data appended dropped where
    san: "sanitize_plan (rc_pystr cfg) (rc_dumps cfg) data (p_goal plan) (known_tools cfg) (known_agents cfg)
       (min (rc_append_limit cfg) (rc_max_nodes cfg)) (p_revision plan + 1) True = Inr (appended, dropped)"
    and rev: "revised = merged_plan plan outcomes appended"
    and valid: "validate_plan revised (known_tools cfg) (known_agents cfg) = []"
    by (auto simp: ask_replanner_def Let_def split: option.splits sum.splits if_splits)
  note s = sanitize_plan_Inr [OF san]
  from rev valid s(3) _ s(5) show thesis by (rule that) (use s(3) in linarith)
qed

lemma ask_replanner_revised:
  assumes "ask_replanner cfg plan outcomes trigger = (action, Some revised)" and "sound_plan plan"
  shows "sound_plan revised"
    and "length (pending_nodes revised outcomes)
       \<le> length (pending_nodes plan outcomes) + min (rc_append_limit cfg) (rc_max_nodes cfg)"
proof -
  from ask_replanner_merged [OF assms(1)] obtain appended where rev: "revised = merged_plan plan outcomes appended"
    and valid: "validate_plan revised (known_tools cfg) (known_agents cfg) = []"
    and s: "length (p_nodes appended) \<le> min (rc_append_limit cfg) (rc_max_nodes cfg)"
      "\<forall>node \<in> set (p_nodes appended). allowed_node (known_tools cfg) (known_agents cfg) node" by metis
  have "[] \<notin> set (n_depends_on node)" if "node \<in> set (p_nodes revised)" for node
    using that s(2) assms(2) by (auto simp: rev merged_plan_def pending_nodes_iff sound_plan_def allowed_node_def)
  with valid show "sound_plan revised" by (auto simp: sound_plan_def)
  have "length (pending_nodes revised outcomes) \<le> length (p_nodes revised)"
    by (simp add: pending_nodes_def Let_def)
  also have "\<dots> \<le> length (pending_nodes plan outcomes) + length (p_nodes appended)"
    by (simp add: rev merged_plan_def)
  finally show "length (pending_nodes revised outcomes)
       \<le> length (pending_nodes plan outcomes) + min (rc_append_limit cfg) (rc_max_nodes cfg)"
    using s(1) by linarith
qed

lemma replanner_effect:
  assumes plan: "rs_plan state = Some plan" and sound: "sound_plan plan"
    and fin: "replanner cfg state = Replanner_done events after"
    and again: "route_after_replanner after = Executor_node"
  shows "(\<exists>plan'. rs_plan after = Some plan' \<and> sound_plan plan') \<and> rs_node_outcomes after = rs_node_outcomes state
    \<and> (used_replans after = used_replans state \<and> open_nodes after = open_nodes state
          \<and> pending_nodes plan (rs_node_outcomes state) \<noteq> []
          \<and> \<not> list_ex (\<lambda>item. no_outcome item = FAILED) (rs_node_outcomes state)
       \<or> used_replans after = used_replans state + 1 \<and> used_replans state < rc_max_replan cfg
          \<and> open_nodes after \<le> open_nodes state + min (rc_append_limit cfg) (rc_max_nodes cfg))"
proof -
  let ?outs = "rs_node_outcomes state"
  let ?remaining = "pending_nodes plan ?outs"
  let ?fails = "list_ex (\<lambda>item. no_outcome item = FAILED) ?outs"
  let ?trigger = "if ?remaining = [] then Observation_insufficient else detect_trigger plan ?outs"
  have route: "rs_replan_action after = Some (lit ''execute'')"
    using again by (auto simp: route_after_replanner_def Let_def or_text_def split: option.splits if_splits)
  show ?thesis
  proof (cases "?remaining \<noteq> [] \<and> \<not> ?fails")
    case True
    then have "after = decide ''replanning'' ''execute'' (used_replans state) state"
      using fin plan by (simp add: replanner_def Let_def)
    with True show ?thesis using plan sound by (simp add: open_nodes_def)
  next
    case False
    then have used: "used_replans state < rc_max_replan cfg"
      and carry: "carry_out cfg plan ?remaining ?trigger (used_replans state + 1) (ask_replanner cfg plan ?outs ?trigger) state
        = Replanner_done events after"
      using fin plan route by (auto simp: replanner_def Let_def split: if_splits)
    obtain action answer where ask: "ask_replanner cfg plan ?outs ?trigger = (action, answer)" by force
    from carry route have "action = Append"
      by (cases action) (auto simp: ask carry_out_def Let_def)
    show ?thesis
    proof (cases answer)
      case None
      with carry route used plan sound show ?thesis
        by (auto simp: ask \<open>action = Append\<close> carry_out_def Let_def open_nodes_def split: if_splits)
    next
      case (Some revised)
      from carry have "rs_plan after = Some revised" "rs_node_outcomes after = ?outs"
        "used_replans after = used_replans state + 1"
        by (auto simp: ask \<open>action = Append\<close> Some carry_out_def Let_def)
      then show ?thesis
        using used plan ask_replanner_revised [OF ask [unfolded Some] sound] by (simp add: open_nodes_def)
    qed
  qed
qed

text \<open>One round that comes back: it uses budget, or it resolves a node.\<close>

lemma plan_round_progress:
  assumes ready: "loop_ready state" and round: "plan_round env state = Left_to Executor_node after"
  shows "loop_ready after
    \<and> (used_replans after = used_replans state \<and> open_nodes after < open_nodes state
       \<or> used_replans after = used_replans state + 1 \<and> used_replans state < rc_max_replan (le_config env)
          \<and> open_nodes after \<le> open_nodes state + min (rc_append_limit (le_config env)) (rc_max_nodes (le_config env)))"
proof -
  from ready obtain plan where plan: "rs_plan state = Some plan" "sound_plan plan" by (auto simp: loop_ready_def)
  from round obtain events executed events' where
    e: "executor (le_deps env) (le_waits env) state = Executor_done events executed"
    and r: "replanner (le_config env) executed = Replanner_done events' after"
    and again: "route_after_replanner after = Executor_node"
    by (auto simp: plan_round_def split: executor_result.splits replanner_result.splits)
  note x = executor_effect [OF ready plan(1) e]
  from replanner_effect [OF x(1) plan(2) r again] x show ?thesis
    unfolding loop_ready_def by (elim conjE disjE) auto
qed

section \<open>The loop leaves\<close>

text \<open>An environment in which every race of the layer at hand ends: all its members report, or it has a deadline
  (\<open>race_timeout_ms\<close> above 0) and the clock passes it.\<close>

definition races_end :: "loop_env \<Rightarrow> run_state \<Rightarrow> bool" where
  "races_end env state \<longleftrightarrow> (case rs_plan state of
     None \<Rightarrow> True
   | Some plan \<Rightarrow> \<forall>(name, members) \<in> set (race_groups (ready_layer plan (rs_node_outcomes state))).
       race_reported (le_deps env) members (le_waits env name))"

text \<open>The state at the start of a round, while the loop goes on.\<close>

fun round_state :: "(nat \<Rightarrow> loop_env) \<Rightarrow> run_state \<Rightarrow> nat \<Rightarrow> run_state option" where
  "round_state env state 0 = Some state"
| "round_state env state (Suc k) =
     (case round_state env state k of
        None \<Rightarrow> None
      | Some s \<Rightarrow> (case plan_round (env k) s of Left_to Executor_node after \<Rightarrow> Some after | _ \<Rightarrow> None))"

definition timed_env :: "loop_env \<Rightarrow> bool" where
  "timed_env env \<longleftrightarrow> d_race_timeout_ms (le_deps env) > 0 \<and> (\<forall>name. \<exists>wait \<in> set (le_waits env name). snd wait)"

lemma timed_races_end: "timed_env env \<Longrightarrow> races_end env state"
  by (auto simp: timed_env_def races_end_def race_reported_def split: option.split)

definition stopped :: "loop_end \<Rightarrow> bool" where
  "stopped e \<longleftrightarrow> e = Loop_paused \<or> (\<exists>s. e = Left_to Generator_node s)
     \<or> (\<exists>s f. e = Left_to Final s \<and> rs_failure s = Some f
           \<and> rf_code f \<in> {lit ''replan_exhausted'', lit ''plan_gave_up''})"

lemma executor_ends:
  assumes ready: "loop_ready state" and env: "races_end env state"
  obtains events after where "executor (le_deps env) (le_waits env) state = Executor_done events after"
  | "executor (le_deps env) (le_waits env) state = Executor_paused"
proof -
  from ready obtain plan where plan: "rs_plan state = Some plan" "sound_plan plan" and ok: "attempts_ok (rs_node_outcomes state)"
    by (auto simp: loop_ready_def)
  note dist = sound_plan_distinct [OF plan(2)]
  let ?layer = "ready_layer plan (rs_node_outcomes state)"
  have "snd (run_layer plan ?layer (rs_node_outcomes state) (le_deps env) (le_waits env)) \<noteq> Waiting"
    using env plan(1) by (intro run_layer_ends ready_layer_distinct dist) (simp add: races_end_def)
  then have "executor (le_deps env) (le_waits env) state \<noteq> Executor_waiting"
    using plan(1) by (auto simp: executor_def Let_def split: prod.splits ending.splits sum.splits)
  with executor_no_conflict [OF plan(1) ok dist, of "le_deps env" "le_waits env"] that show thesis
    by (cases "executor (le_deps env) (le_waits env) state") auto
qed

lemma replanner_ends:
  assumes plan: "rs_plan state = Some plan"
  obtains events after where "replanner cfg state = Replanner_done events after"
    and "route_after_replanner after = Executor_node \<or> stopped (Left_to (route_after_replanner after) after)"
proof -
  have give_up: "route_after_replanner s = Final" if "rs_replan_action s = Some (lit ''give_up'')" for s
    using that by (simp add: route_after_replanner_def or_text_def)
  have others: "route_after_replanner s \<in> {Executor_node, Generator_node}"
    if "rs_replan_action s \<in> {Some (lit ''execute''), Some (lit ''generate'')}" for s
    using that by (auto simp: route_after_replanner_def or_text_def)
  have "\<exists>events after. replanner cfg state = Replanner_done events after
    \<and> (rs_replan_action after \<in> {Some (lit ''execute''), Some (lit ''generate'')}
       \<or> rs_replan_action after = Some (lit ''give_up'')
          \<and> (\<exists>f. rs_failure after = Some f \<and> rf_code f \<in> {lit ''replan_exhausted'', lit ''plan_gave_up''}))"
    (is "\<exists>events after. _ = _ \<and> ?good after")
  proof -
    have carry: "\<exists>events after. carry_out cfg plan rem trigger used answer state = Replanner_done events after \<and> ?good after"
      for rem trigger used answer
      by (cases answer; cases "fst answer"; cases "snd answer")
        (auto simp: carry_out_def Let_def failure_of_def)
    then show ?thesis using plan by (auto simp: replanner_def Let_def failure_of_def)
  qed
  then obtain events after where r: "replanner cfg state = Replanner_done events after" and "?good after" by blast
  then have "route_after_replanner after = Executor_node \<or> stopped (Left_to (route_after_replanner after) after)"
    using others [of after] give_up by (auto simp: stopped_def)
  with r that show thesis by blast
qed

lemma plan_round_ends:
  assumes ready: "loop_ready state" and env: "races_end env state"
  shows "(\<exists>after. plan_round env state = Left_to Executor_node after) \<or> stopped (plan_round env state)"
  using ready env
proof (cases rule: executor_ends)
  case (1 events executed)
  obtain plan where "rs_plan state = Some plan" using ready by (auto simp: loop_ready_def)
  from executor_effect(1) [OF ready this 1] obtain events' after where
    "replanner (le_config env) executed = Replanner_done events' after"
    "route_after_replanner after = Executor_node \<or> stopped (Left_to (route_after_replanner after) after)"
    by (rule replanner_ends)
  then show ?thesis using 1 by (auto simp: plan_round_def)
next
  case 2
  then show ?thesis by (simp add: plan_round_def stopped_def)
qed

lemma plan_loop_enough:
  assumes races: "\<And>k s. round_state env start k = Some s \<Longrightarrow> races_end (env k) s"
    and env: "\<And>k. rc_max_replan (le_config (env k)) \<le> max_replan
      \<and> min (rc_append_limit (le_config (env k))) (rc_max_nodes (le_config (env k))) \<le> appended"
  shows "\<lbrakk>loop_ready state; round_state env start k = Some state;
      loop_bound (nat (max_replan - used_replans state)) appended (open_nodes state) \<le> fuel\<rbrakk>
    \<Longrightarrow> \<exists>e. plan_loop fuel env k state = Some e \<and> stopped e"
proof (induction fuel arbitrary: k state)
  case 0
  then show ?case by (cases "nat (max_replan - used_replans state)") auto
next
  case (Suc fuel)
  from plan_round_ends [OF Suc.prems(1) races [OF Suc.prems(2)]] consider
    (again) after where "plan_round (env k) state = Left_to Executor_node after" | (stop) "stopped (plan_round (env k) state)"
    by blast
  then show ?case
  proof cases
    case (again after)
    note progress = plan_round_progress [OF Suc.prems(1) again]
    let ?b = "\<lambda>s. loop_bound (nat (max_replan - used_replans s)) appended (open_nodes s)"
    have "?b after < ?b state"
      using progress
    proof (elim conjE disjE)
      assume "used_replans after = used_replans state" "open_nodes after < open_nodes state"
      then show ?thesis by (simp add: loop_bound_less)
    next
      assume used: "used_replans after = used_replans state + 1" "used_replans state < rc_max_replan (le_config (env k))"
        and "open_nodes after \<le> open_nodes state + min (rc_append_limit (le_config (env k))) (rc_max_nodes (le_config (env k)))"
      then have le: "open_nodes after \<le> open_nodes state + appended" using env [of k] by linarith
      have "nat (max_replan - used_replans state) = Suc (nat (max_replan - used_replans after))"
        using used env [of k] by linarith
      then show ?thesis using loop_bound_mono [OF le, of "nat (max_replan - used_replans after)" appended] by simp
    qed
    then have "?b after \<le> fuel" using Suc.prems(3) by linarith
    with Suc.IH [of after "k + 1"] progress Suc.prems(2) show ?thesis by (simp add: again)
  next
    case stop
    then have "plan_round (env k) state \<noteq> Left_to Executor_node after" for after by (auto simp: stopped_def)
    then show ?thesis using stop by (auto split: loop_end.splits graph_node.splits)
  qed
qed

text \<open>C28: From a state with a plan that passed the check, whatever the tools and the model do, and provided that each race
  that is run ends (all its members report, or it has a deadline and the clock passes it; \<open>race_timeout_ms\<close> 0 is no
  deadline): the loop of executor and replanner leaves within \<open>loop_bound\<close> rounds, with an answer to write, with a failure
  that says that the budget is used up or that the model gave up, or paused for an approval.\<close>

theorem plan_loop_leaves:
  assumes ready: "loop_ready state"
    and races: "\<forall>k s. round_state env state k = Some s \<longrightarrow> races_end (env k) s"
    and env: "\<forall>k. rc_max_replan (le_config (env k)) \<le> max_replan
      \<and> min (rc_append_limit (le_config (env k))) (rc_max_nodes (le_config (env k))) \<le> appended"
  shows "\<exists>e. plan_loop (loop_bound (nat (max_replan - used_replans state)) appended (open_nodes state)) env 0 state = Some e
    \<and> stopped e"
  using plan_loop_enough [of env state max_replan appended state 0] ready races env by simp

definition demo_config :: replanner_config where
  "demo_config = \<lparr>rc_pystr = (\<lambda>v. []), rc_dumps = (\<lambda>d. lit ''{}''), rc_loads = (\<lambda>s. None), rc_model = (\<lambda>s p. None),
     rc_prompt = (\<lambda>n. []), rc_mem_prefix = [], rc_tools = [], rc_agents = [], rc_max_replan = 2, rc_append_limit = 3,
     rc_max_nodes = 8\<rparr>"

definition demo_env :: loop_env where
  "demo_env = \<lparr>le_deps = demo_deps, le_waits = (\<lambda>name. [([], True)]), le_config = demo_config\<rparr>"

lemma demo_ready: "loop_ready demo_state"
  unfolding loop_ready_def sound_plan_def using demo_plan_valid
  by (auto simp: demo_state_def demo_plan_def demo_node_def)

theorem plan_loop_leaves_witness: "\<exists>e. plan_loop 18 (\<lambda>k. demo_env) 0 demo_state = Some e \<and> stopped e"
proof -
  have "timed_env demo_env" by (simp add: timed_env_def demo_env_def demo_deps_def)
  then have "\<forall>k s. round_state (\<lambda>k. demo_env) demo_state k = Some s \<longrightarrow> races_end demo_env s"
    using timed_races_end by blast
  moreover have "\<forall>k :: nat. rc_max_replan (le_config demo_env) \<le> 2
      \<and> min (rc_append_limit (le_config demo_env)) (rc_max_nodes (le_config demo_env)) \<le> 3"
    by (simp add: demo_env_def demo_config_def)
  moreover have "open_nodes demo_state = 2" "used_replans demo_state = 0"
    by (simp_all add: used_replans_def open_nodes_def demo_state_def pending_nodes_def is_pending_def resolved_ids_def
        demo_plan_def)
  then have "loop_bound (nat (2 - used_replans demo_state)) 3 (open_nodes demo_state) = 18"
    by (simp add: eval_nat_numeral)
  ultimately show ?thesis using plan_loop_leaves [OF demo_ready, of "\<lambda>k. demo_env" 2 3] by simp
qed

section \<open>Revisions\<close>



end
