(* ===== verification/Tool_Stores.thy ===== *)
theory Tool_Stores
  imports Tool_Models
begin

text \<open>
  \<open>src/src/tools/operation_store.py\<close> and \<open>src/src/tools/approval.py\<close>: the operations with their
  results and events, and the approvals. Each method holds the lock of its store and is one step; the
  optional JSON file is a copy of the dictionaries and is not a part of the state.
\<close>

section \<open>Operations\<close>

type_synonym call_key = "str \<times> str \<times> str"

datatype gateway_event =
    Ev_awaiting_approval str str str risk_level
  | Ev_started str str str risk_level tool_source "str option" str "str option"
  | Ev_cancelled str str str str
  | Ev_failed str str str str
  | Ev_completed str str str tool_result_status str int "str list"

record tool_state =
  operations :: "(str, operation) dict"
  duplicate_keys :: "(call_key, str) dict"
  results :: "(str, tool_result) dict"
  op_events :: "(str, gateway_event list) dict"
  approvals :: "(str, approval_item) dict"

definition key_of :: "operation \<Rightarrow> call_key" where
  "key_of operation = (op_run_id operation, op_tool_call_id operation, op_operation_key operation)"

definition save_operation :: "operation \<Rightarrow> tool_state \<Rightarrow> (tool_error, operation, tool_state) outcome" where
  "save_operation operation s =
     (if map_of (operations s) (op_operation_id operation) \<noteq> None then Raise OperationDuplicate s
      else (case map_of (duplicate_keys s) (key_of operation) of
              Some existing \<Rightarrow>
                if existing \<noteq> op_operation_id operation then Raise OperationDuplicate s
                else Return operation (s\<lparr>operations := AList.update (op_operation_id operation) operation (operations s),
                       duplicate_keys := AList.update (key_of operation) (op_operation_id operation) (duplicate_keys s)\<rparr>)
            | None \<Rightarrow> Return operation (s\<lparr>operations := AList.update (op_operation_id operation) operation (operations s),
                       duplicate_keys := AList.update (key_of operation) (op_operation_id operation) (duplicate_keys s)\<rparr>)))"

definition get_operation :: "str \<Rightarrow> tool_state \<Rightarrow> tool_error + operation" where
  "get_operation operation_id s =
     (case map_of (operations s) operation_id of None \<Rightarrow> Inl OperationNotFound | Some item \<Rightarrow> Inr item)"

definition update_operation :: "operation \<Rightarrow> tool_state \<Rightarrow> (tool_error, operation, tool_state) outcome" where
  "update_operation operation s =
     (if map_of (operations s) (op_operation_id operation) = None then Raise OperationNotFound s
      else Return operation (s\<lparr>operations := AList.update (op_operation_id operation) operation (operations s)\<rparr>))"

definition save_result :: "str \<Rightarrow> tool_result \<Rightarrow> tool_state \<Rightarrow> tool_state" where
  "save_result operation_id result s = s\<lparr>results := AList.update operation_id result (results s)\<rparr>"

definition get_result :: "str \<Rightarrow> tool_state \<Rightarrow> tool_result option" where
  "get_result operation_id s = map_of (results s) operation_id"

definition events_for :: "str \<Rightarrow> tool_state \<Rightarrow> gateway_event list" where
  "events_for operation_id s = (case map_of (op_events s) operation_id of None \<Rightarrow> [] | Some es \<Rightarrow> es)"

definition append_event :: "str \<Rightarrow> gateway_event \<Rightarrow> tool_state \<Rightarrow> tool_state" where
  "append_event operation_id event s =
     s\<lparr>op_events := AList.update operation_id (events_for operation_id s @ [event]) (op_events s)\<rparr>"

definition find_duplicate :: "call_key \<Rightarrow> tool_state \<Rightarrow> tool_result option" where
  "find_duplicate key s =
     (case map_of (duplicate_keys s) key of None \<Rightarrow> None | Some operation_id \<Rightarrow> map_of (results s) operation_id)"

definition find_operation :: "call_key \<Rightarrow> tool_state \<Rightarrow> operation option" where
  "find_operation key s =
     (case map_of (duplicate_keys s) key of None \<Rightarrow> None | Some operation_id \<Rightarrow> map_of (operations s) operation_id)"

definition operations_by_owner :: "str \<Rightarrow> str option \<Rightarrow> tool_state \<Rightarrow> operation list" where
  "operations_by_owner owner_id run_id s = filter (\<lambda>item. op_owner_id item = owner_id
     \<and> (case run_id of None \<Rightarrow> True | Some r \<Rightarrow> op_run_id item = r)) (dvalues (operations s))"

definition operations_by_run :: "str \<Rightarrow> tool_state \<Rightarrow> operation list" where
  "operations_by_run run_id s = filter (\<lambda>item. op_run_id item = run_id) (dvalues (operations s))"

definition compare_and_set_sandbox_state ::
  "str \<Rightarrow> str \<Rightarrow> str \<Rightarrow> str option \<Rightarrow> datetime \<Rightarrow> tool_state \<Rightarrow> bool \<times> tool_state" where
  "compare_and_set_sandbox_state operation_id expected next_state generation_id now s =
     (case map_of (operations s) operation_id of
        None \<Rightarrow> (False, s)
      | Some operation \<Rightarrow>
          if op_sandbox_state operation \<noteq> expected then (False, s)
          else (True, s\<lparr>operations := AList.update operation_id (operation\<lparr>op_sandbox_state := next_state,
                  op_sandbox_generation_id := generation_id, op_updated_at := now\<rparr>) (operations s)\<rparr>))"

section \<open>Approvals\<close>

record call_identity =
  ci_run_id :: str
  ci_owner_id :: str
  ci_operation_id :: str
  ci_tool_id :: str
  ci_tool_call_id :: str

definition create_approval ::
  "timedelta \<Rightarrow> call_identity \<Rightarrow> str \<Rightarrow> datetime \<Rightarrow> tool_state \<Rightarrow> approval_item \<times> tool_state" where
  "create_approval ttl c reason now s =
     (let item = \<lparr>ap_approval_id = lit ''ap-'' @ ci_run_id c @ lit ''-'' @ ci_operation_id c, ap_run_id = ci_run_id c,
            ap_owner_id = ci_owner_id c, ap_operation_id = ci_operation_id c, ap_tool_id = ci_tool_id c,
            ap_tool_call_id = ci_tool_call_id c, ap_risk = Warn, ap_reason = reason, ap_created_at = now,
            ap_expires_at = now + ttl, ap_status = Ap_pending, ap_decided_at = None, ap_rejected_reason = None\<rparr>
      in (item, s\<lparr>approvals := AList.update (ap_approval_id item) item (approvals s)\<rparr>))"

text \<open>The last matching item, in the order of the dictionary.\<close>

definition last_item :: "'a list \<Rightarrow> 'a option" where
  "last_item xs = (if xs = [] then None else Some (last xs))"

definition resolve_approval_item :: "str \<Rightarrow> str \<Rightarrow> tool_state \<Rightarrow> approval_item option" where
  "resolve_approval_item run_id tool_call_id s =
     last_item (filter (\<lambda>item. ap_run_id item = run_id \<and> ap_tool_call_id item = tool_call_id) (dvalues (approvals s)))"

definition resolve_pending :: "str \<Rightarrow> str \<Rightarrow> tool_state \<Rightarrow> approval_item option" where
  "resolve_pending run_id tool_call_id s =
     last_item (filter (\<lambda>item. ap_run_id item = run_id \<and> ap_tool_call_id item = tool_call_id
        \<and> ap_status item = Ap_pending) (dvalues (approvals s)))"

definition find_or_create ::
  "timedelta \<Rightarrow> call_identity \<Rightarrow> str \<Rightarrow> datetime \<Rightarrow> tool_state \<Rightarrow> approval_item \<times> tool_state" where
  "find_or_create ttl c reason now s =
     (case resolve_approval_item (ci_run_id c) (ci_tool_call_id c) s of
        Some existing \<Rightarrow> (existing, s)
      | None \<Rightarrow> create_approval ttl c reason now s)"

definition get_approval :: "str \<Rightarrow> tool_state \<Rightarrow> tool_error + approval_item" where
  "get_approval approval_id s =
     (case map_of (approvals s) approval_id of None \<Rightarrow> Inl ApprovalExpired | Some item \<Rightarrow> Inr item)"

definition decide_detailed ::
  "str \<Rightarrow> str \<Rightarrow> bool \<Rightarrow> str option \<Rightarrow> datetime \<Rightarrow> tool_state
   \<Rightarrow> (tool_error, approval_item \<times> bool \<times> bool, tool_state) outcome" where
  "decide_detailed approval_id owner_id approved rejected_reason now s =
     (case get_approval approval_id s of
        Inl e \<Rightarrow> Raise e s
      | Inr current \<Rightarrow>
          if ap_owner_id current \<noteq> owner_id then Raise ApprovalExpired s
          else if ap_status current = Ap_pending \<and> ap_expires_at current < now
          then Raise ApprovalExpired (s\<lparr>approvals := AList.update approval_id
                 (current\<lparr>ap_status := Ap_expired, ap_decided_at := Some now\<rparr>) (approvals s)\<rparr>)
          else let desired = (if approved then Ap_approved else Ap_rejected) in
          if ap_status current \<noteq> Ap_pending then Return (current, False, ap_status current \<noteq> desired) s
          else let item = current\<lparr>ap_status := desired, ap_decided_at := Some now,
                            ap_rejected_reason := (if approved then None else rejected_reason)\<rparr>
          in Return (item, True, False) (s\<lparr>approvals := AList.update approval_id item (approvals s)\<rparr>))"

definition decide_approval ::
  "str \<Rightarrow> str \<Rightarrow> bool \<Rightarrow> str option \<Rightarrow> datetime \<Rightarrow> tool_state \<Rightarrow> (tool_error, approval_item, tool_state) outcome" where
  "decide_approval approval_id owner_id approved rejected_reason now s =
     (case decide_detailed approval_id owner_id approved rejected_reason now s of
        (Inl e, t) \<Rightarrow> (Inl e, t)
      | (Inr (item, _, _), t) \<Rightarrow> (Inr item, t))"

definition resolve_identity :: "str \<Rightarrow> call_identity \<Rightarrow> tool_state \<Rightarrow> approval_item option" where
  "resolve_identity approval_id c s =
     (case get_approval approval_id s of
        Inl _ \<Rightarrow> None
      | Inr item \<Rightarrow>
          if ap_run_id item \<noteq> ci_run_id c \<or> ap_owner_id item \<noteq> ci_owner_id c \<or> ap_operation_id item \<noteq> ci_operation_id c
             \<or> ap_tool_id item \<noteq> ci_tool_id c \<or> ap_tool_call_id item \<noteq> ci_tool_call_id c
          then None else Some item)"

definition user_cancelled_text :: str where
  "user_cancelled_text = [29992, 25143, 21462, 28040]"

text \<open>The loop of \<open>cancel_by_run\<close> stores each changed item under its own approval id.\<close>

definition cancel_by_run :: "str \<Rightarrow> str \<Rightarrow> datetime \<Rightarrow> tool_state \<Rightarrow> tool_state" where
  "cancel_by_run run_id owner_id now s =
     s\<lparr>approvals := fold (\<lambda>item d. AList.update (ap_approval_id item) (item\<lparr>ap_status := Ap_cancelled,
          ap_decided_at := Some now, ap_rejected_reason := Some user_cancelled_text\<rparr>) d)
        (filter (\<lambda>item. ap_run_id item = run_id \<and> ap_owner_id item = owner_id \<and> ap_status item = Ap_pending)
           (dvalues (approvals s))) (approvals s)\<rparr>"

definition approvals_by_run :: "str \<Rightarrow> tool_state \<Rightarrow> approval_item list" where
  "approvals_by_run run_id s = filter (\<lambda>item. ap_run_id item = run_id) (dvalues (approvals s))"

end
