(* ===== verification/Schema.thy ===== *)
theory Schema
  imports Tool_Models
begin

text \<open>
  \<open>src/src/tools/schema.py\<close>: the bounded walk over a JSON schema that accepts only local references
  that resolve. The \<open>jsonschema\<close> package is an argument (\<open>check_schema\<close> and \<open>validate\<close>), and so is
  the reading of a token as an index, which needs the Unicode database: \<open>None\<close> when \<open>isdigit\<close> is false,
  \<open>Some (Inr n)\<close> for the number, \<open>Some (Inl ())\<close> when \<open>int\<close> raises \<open>ValueError\<close> (superscript digits).
\<close>

definition MAX_SCHEMA_NODES :: nat where "MAX_SCHEMA_NODES = 10000"
definition MAX_SCHEMA_DEPTH :: nat where "MAX_SCHEMA_DEPTH = 64"

definition REFERENCE_KEYWORDS :: "str list" where
  "REFERENCE_KEYWORDS = map lit [''$ref'', ''$dynamicRef'', ''$recursiveRef'']"

section \<open>References\<close>

text \<open>\<open>text.split(sep)\<close> for one separator character.\<close>

fun split_on :: "nat \<Rightarrow> str \<Rightarrow> str list" where
  "split_on sep [] = [[]]"
| "split_on sep (c # s) =
     (if c = sep then [] # split_on sep s
      else (case split_on sep s of [] \<Rightarrow> [[c]] | w # ws \<Rightarrow> (c # w) # ws))"

text \<open>\<open>text.replace(old, new)\<close> for an old text of two characters.\<close>

fun replace_pair :: "nat \<Rightarrow> nat \<Rightarrow> str \<Rightarrow> str \<Rightarrow> str" where
  "replace_pair a b new (x # y # s) =
     (if x = a \<and> y = b then new @ replace_pair a b new s else x # replace_pair a b new (y # s))"
| "replace_pair a b new s = s"

definition unescape :: "str \<Rightarrow> str" where
  "unescape raw_token = replace_pair 126 48 [126] (replace_pair 126 49 [47] raw_token)"

type_synonym index_reader = "str \<Rightarrow> (unit + nat) option"

text \<open>The walk along the tokens: \<open>None\<close> is the \<open>ValueError\<close>.\<close>

fun follow :: "index_reader \<Rightarrow> json \<Rightarrow> str list \<Rightarrow> bool option" where
  "follow index current [] = Some True"
| "follow index current (raw_token # tokens) =
     (let token = unescape raw_token in
      case current of
        JObj kvs \<Rightarrow> (case map_of kvs token of Some v \<Rightarrow> follow index v tokens | None \<Rightarrow> Some False)
      | JList xs \<Rightarrow>
          (case index token of
             None \<Rightarrow> Some False
           | Some (Inl _) \<Rightarrow> None
           | Some (Inr i) \<Rightarrow> if i < length xs then follow index (xs ! i) tokens else Some False)
      | _ \<Rightarrow> Some False)"

definition local_reference_resolves :: "index_reader \<Rightarrow> json \<Rightarrow> json \<Rightarrow> bool option" where
  "local_reference_resolves index schema reference =
     (case reference of
        JStr s \<Rightarrow>
          if take 1 s \<noteq> lit ''#'' then Some False
          else if s = lit ''#'' then Some True
          else if take 2 s \<noteq> lit ''#/'' then Some False
          else follow index schema (split_on 47 (drop 2 s))
      | _ \<Rightarrow> Some False)"

text \<open>The loop over the three keywords: the first reference that does not resolve decides.\<close>

fun references_ok :: "index_reader \<Rightarrow> json \<Rightarrow> (str, json) dict \<Rightarrow> str list \<Rightarrow> bool option" where
  "references_ok index schema kvs [] = Some True"
| "references_ok index schema kvs (keyword # keywords) =
     (case jget kvs keyword of
        JNull \<Rightarrow> references_ok index schema kvs keywords
      | reference \<Rightarrow>
          (case local_reference_resolves index schema reference of
             Some True \<Rightarrow> references_ok index schema kvs keywords
           | r \<Rightarrow> r))"

definition value_ok :: "index_reader \<Rightarrow> json \<Rightarrow> json \<Rightarrow> bool option" where
  "value_ok index schema v =
     (case v of JObj kvs \<Rightarrow> references_ok index schema kvs REFERENCE_KEYWORDS | _ \<Rightarrow> Some True)"

definition children :: "json \<Rightarrow> json list" where
  "children v = (case v of JObj kvs \<Rightarrow> dvalues kvs | JList xs \<Rightarrow> xs | _ \<Rightarrow> [])"

section \<open>The walk\<close>

text \<open>The stack has its top in front; extending it puts the last child on top.\<close>

function walk :: "index_reader \<Rightarrow> json \<Rightarrow> nat \<Rightarrow> (json \<times> nat) list \<Rightarrow> bool option" where
  "walk index schema node_count [] = Some True"
| "walk index schema node_count ((v, depth) # stack) =
     (if node_count + 1 > MAX_SCHEMA_NODES \<or> depth > MAX_SCHEMA_DEPTH then Some False
      else (case value_ok index schema v of
              Some True \<Rightarrow>
                walk index schema (node_count + 1) (rev (map (\<lambda>c. (c, depth + 1)) (children v)) @ stack)
            | r \<Rightarrow> r))"
  by pat_completeness auto
termination
  by (relation "measure (\<lambda>(index, schema, node_count, stack). Suc MAX_SCHEMA_NODES - node_count)") auto

definition references_are_local_and_resolvable :: "index_reader \<Rightarrow> json \<Rightarrow> bool option" where
  "references_are_local_and_resolvable index schema = walk index schema 0 [(schema, 0)]"

record schema_lib =
  sl_index :: index_reader
  sl_check_schema :: "json \<Rightarrow> bool"
  sl_validate :: "json \<Rightarrow> (str, json) dict \<Rightarrow> bool"

definition schema_supported :: "schema_lib \<Rightarrow> json \<Rightarrow> bool option" where
  "schema_supported lib schema =
     (case schema of
        JObj _ \<Rightarrow>
          (case references_are_local_and_resolvable (sl_index lib) schema of
             Some True \<Rightarrow> Some (sl_check_schema lib schema)
           | r \<Rightarrow> r)
      | _ \<Rightarrow> Some False)"

text \<open>\<open>None\<close> is the uncaught \<open>ValueError\<close> of the reference walk.\<close>

definition validate_arguments :: "schema_lib \<Rightarrow> json \<Rightarrow> (str, json) dict \<Rightarrow> (tool_error + unit) option" where
  "validate_arguments lib schema arguments =
     (case schema_supported lib schema of
        None \<Rightarrow> None
      | Some False \<Rightarrow> Some (Inl ToolSchemaInvalid)
      | Some True \<Rightarrow> Some (if sl_validate lib schema arguments then Inr () else Inl ToolSchemaInvalid))"

section \<open>What the walk accepts\<close>

text \<open>All values inside a value, with their depth.\<close>

fun nested :: "nat \<Rightarrow> json \<Rightarrow> (json \<times> nat) list" where
  "nested depth (JObj kvs) = (JObj kvs, depth) # concat (map (\<lambda>(k, v). nested (depth + 1) v) kvs)"
| "nested depth (JList xs) = (JList xs, depth) # concat (map (nested (depth + 1)) xs)"
| "nested depth v = [(v, depth)]"

lemma nested_children:
  "nested depth v = (v, depth) # concat (map (nested (depth + 1)) (children v))"
  by (cases v) (simp_all add: children_def comp_def case_prod_unfold)

definition all_nested :: "(json \<times> nat) list \<Rightarrow> (json \<times> nat) list" where
  "all_nested stack = concat (map (\<lambda>(v, depth). nested depth v) stack)"

lemma all_nested_step:
  "set (all_nested ((v, depth) # stack))
     = insert (v, depth) (set (all_nested (rev (map (\<lambda>c. (c, depth + 1)) (children v)) @ stack)))"
  "length (all_nested ((v, depth) # stack))
     = Suc (length (all_nested (rev (map (\<lambda>c. (c, depth + 1)) (children v)) @ stack)))"
proof -
  have "length (concat (rev xss)) = length (concat xss)" for xss :: "(json \<times> nat) list list"
    by (simp add: length_concat rev_map [symmetric])
  from this [of "map (nested (depth + 1)) (children v)"]
  show "length (all_nested ((v, depth) # stack))
     = Suc (length (all_nested (rev (map (\<lambda>c. (c, depth + 1)) (children v)) @ stack)))"
    by (simp add: all_nested_def nested_children [of depth v] rev_map comp_def)
  show "set (all_nested ((v, depth) # stack))
     = insert (v, depth) (set (all_nested (rev (map (\<lambda>c. (c, depth + 1)) (children v)) @ stack)))"
    by (auto simp: all_nested_def nested_children [of depth v])
qed

lemma walk_iff:
  "walk index schema node_count stack = Some True \<longleftrightarrow>
     (stack = [] \<or> node_count + length (all_nested stack) \<le> MAX_SCHEMA_NODES)
     \<and> (\<forall>(v, depth) \<in> set (all_nested stack). depth \<le> MAX_SCHEMA_DEPTH \<and> value_ok index schema v = Some True)"
proof (induction index schema node_count stack rule: walk.induct)
  case (2 index schema node_count v depth stack)
  let ?next = "rev (map (\<lambda>c. (c, depth + 1)) (children v)) @ stack"
  have len: "length (all_nested ?next) = 0" if "?next = []" using that by (simp add: all_nested_def)
  show ?case
  proof (cases "node_count + 1 > MAX_SCHEMA_NODES \<or> depth > MAX_SCHEMA_DEPTH")
    case True
    then show ?thesis by (auto simp: all_nested_step)
  next
    case False
    show ?thesis
    proof (cases "value_ok index schema v = Some True")
      case True
      have size: "?next = [] \<or> (node_count + 1) + length (all_nested ?next) \<le> MAX_SCHEMA_NODES
          \<longleftrightarrow> node_count + length (all_nested ((v, depth) # stack)) \<le> MAX_SCHEMA_NODES"
        unfolding all_nested_step(2) using False len by auto
      have eq: "walk index schema node_count ((v, depth) # stack) = walk index schema (node_count + 1) ?next"
        using False True by simp
      show ?thesis
        unfolding eq 2 [OF False True refl] size all_nested_step(1) using False True by auto
    next
      case no: False
      then have "walk index schema node_count ((v, depth) # stack) \<noteq> Some True"
        using False by (auto split: option.splits bool.splits)
      with no show ?thesis by (auto simp: all_nested_step)
    qed
  qed
qed (simp add: all_nested_def)

lemma references_ok_iff:
  "references_ok index schema kvs words = Some True \<longleftrightarrow>
     (\<forall>keyword \<in> set words. jget kvs keyword \<noteq> JNull
        \<longrightarrow> local_reference_resolves index schema (jget kvs keyword) = Some True)"
  by (induction index schema kvs words rule: references_ok.induct) (auto split: json.splits option.splits bool.splits)

section \<open>What a reference points to\<close>

text \<open>The walk of a JSON pointer: into a dictionary by key, into a list by position.\<close>

inductive points_to :: "index_reader \<Rightarrow> json \<Rightarrow> str list \<Rightarrow> json \<Rightarrow> bool" for index where
  here: "points_to index v [] v"
| key: "map_of kvs (unescape token) = Some v \<Longrightarrow> points_to index v tokens target \<Longrightarrow> points_to index (JObj kvs) (token # tokens) target"
| item: "index (unescape token) = Some (Inr i) \<Longrightarrow> i < length xs \<Longrightarrow> points_to index (xs ! i) tokens target
    \<Longrightarrow> points_to index (JList xs) (token # tokens) target"

inductive_simps points_to_simps:
  "points_to index v [] target" "points_to index (JObj kvs) (token # tokens) target"
  "points_to index (JList xs) (token # tokens) target"

definition refers_to :: "index_reader \<Rightarrow> json \<Rightarrow> json \<Rightarrow> json \<Rightarrow> bool" where
  "refers_to index schema reference target \<longleftrightarrow>
     (reference = JStr (lit ''#'') \<and> target = schema)
     \<or> (\<exists>tokens. tokens \<noteq> [] \<and> (\<forall>t \<in> set tokens. 47 \<notin> set t) \<and> reference = JStr (lit ''#/'' @ join_strs [47] tokens)
          \<and> points_to index schema tokens target)"

lemma follow_points: "follow index v tokens = Some True \<longleftrightarrow> (\<exists>target. points_to index v tokens target)"
proof (induction index v tokens rule: follow.induct)
  case (2 index current raw_token tokens)
  have none: "\<not> points_to index current (raw_token # tokens) target" if "\<And>kvs. current \<noteq> JObj kvs" "\<And>xs. current \<noteq> JList xs" for target
  proof
    assume "points_to index current (raw_token # tokens) target"
    then show False by cases (use that in auto)
  qed
  show ?case
  proof (cases current)
    case (JObj kvs)
    with 2 show ?thesis by (auto simp: points_to_simps split: option.split)
  next
    case (JList xs)
    with 2 show ?thesis by (auto simp: points_to_simps split: option.split sum.split)
  qed (use none in auto)
qed (auto simp: points_to_simps)

lemma split_on_nonempty: "split_on sep s \<noteq> []"
  by (induction sep s rule: split_on.induct) (auto split: list.split)

lemma split_on_join: "join_strs [sep] (split_on sep s) = s \<and> (\<forall>t \<in> set (split_on sep s). sep \<notin> set t)"
proof (induction sep s rule: split_on.induct)
  case (2 sep c s)
  then show ?case
    using split_on_nonempty [of sep s] by (cases "split_on sep s" rule: remdups_adj.cases) auto
qed simp

lemma split_on_plain: "sep \<notin> set w \<Longrightarrow> split_on sep w = [w] \<and> split_on sep (w @ sep # s) = w # split_on sep s"
  by (induction w) auto

lemma join_split_on: "tokens \<noteq> [] \<Longrightarrow> \<forall>t \<in> set tokens. sep \<notin> set t \<Longrightarrow> split_on sep (join_strs [sep] tokens) = tokens"
  by (induction "[sep]" tokens rule: join_strs.induct) (simp_all add: split_on_plain)

lemma hash_prefix:
  "take 2 s = lit ''#/'' \<longleftrightarrow> (\<exists>r. s = lit ''#/'' @ r)" "take 1 (lit ''#/'' @ r) = lit ''#''" "take 1 (lit ''#'') = lit ''#''"
  "lit ''#'' \<noteq> lit ''#/'' @ r" "drop 2 (lit ''#/'' @ r) = r"
proof -
  have "length (lit ''#/'') = 2" by (simp add: lit_def)
  then show "take 2 s = lit ''#/'' \<longleftrightarrow> (\<exists>r. s = lit ''#/'' @ r)" by (metis append_eq_conv_conj append_take_drop_id)
qed (simp_all add: lit_def)

lemma resolves_iff: "local_reference_resolves index schema reference = Some True \<longleftrightarrow> (\<exists>target. refers_to index schema reference target)"
proof (cases reference)
  case (JStr s)
  consider (whole) "s = lit ''#''" | (pointer) r where "s = lit ''#/'' @ r" | (other) "s \<noteq> lit ''#''" "take 2 s \<noteq> lit ''#/''"
    using hash_prefix(1) [of s] by blast
  then show ?thesis
  proof cases
    case whole
    then show ?thesis using hash_prefix(3) by (auto simp: JStr local_reference_resolves_def refers_to_def)
  next
    case (pointer r)
    have "local_reference_resolves index schema reference = follow index schema (split_on 47 r)"
      using hash_prefix(2,4,5) [of r] hash_prefix(1) [of s] unfolding JStr pointer local_reference_resolves_def by auto
    moreover have "(\<exists>target. refers_to index schema reference target) \<longleftrightarrow> (\<exists>target. points_to index schema (split_on 47 r) target)"
      using join_split_on [of _ 47] split_on_join [of 47 r] split_on_nonempty [of 47 r] hash_prefix(4)
      unfolding JStr pointer refers_to_def by (metis json.inject(4) same_append_eq)
    ultimately show ?thesis by (simp add: follow_points)
  next
    case other
    then have "\<not> refers_to index schema reference target" for target
      using hash_prefix(1) [of s] by (auto simp: JStr refers_to_def)
    with other show ?thesis by (auto simp: JStr local_reference_resolves_def)
  qed
qed (auto simp: local_reference_resolves_def refers_to_def)

lemma points_to_nested: "points_to index v tokens target \<Longrightarrow> \<exists>d. (target, d) \<in> set (nested depth v)"
proof (induction arbitrary: depth rule: points_to.induct)
  case (here v)
  then show ?case by (auto simp: nested_children [of depth v])
next
  case (key kvs token v tokens target)
  from key.IH [of "depth + 1"] map_of_SomeD [OF key.hyps(1)] show ?case by force
next
  case (item token i xs tokens target)
  from item.IH [of "depth + 1"] nth_mem [OF item.hyps(2)] show ?case by fastforce
qed

text \<open>The escapes of a pointer: \<open>~0\<close> for the tilde and \<open>~1\<close> for the slash.\<close>

definition escape :: "str \<Rightarrow> str" where
  "escape s = concat (map (\<lambda>c. if c = 126 then [126, 48] else if c = 47 then [126, 49] else [c]) s)"

lemma replace_pair_other: "x \<noteq> a \<Longrightarrow> replace_pair a b new (x # s) = x # replace_pair a b new s"
  by (cases s) auto

lemma unescape_escape: "unescape (escape s) = s"
proof -
  have "replace_pair 126 49 [47] (escape s) = concat (map (\<lambda>c. if c = 126 then [126, 48] else [c]) s)"
    by (induction s) (auto simp: escape_def replace_pair_other)
  moreover have "replace_pair 126 48 [126] (concat (map (\<lambda>c. if c = 126 then [126, 48] else [c]) s)) = s"
    by (induction s) (auto simp: replace_pair_other)
  ultimately show ?thesis by (simp add: unescape_def)
qed

lemma escape_plain: "47 \<notin> set (escape s)"
  by (auto simp: escape_def split: if_splits)

text \<open>C36: The walk over a schema ends and accepts exactly the schemas with at most 10000 values, none deeper
  than 64, in which every \<open>$ref\<close>, \<open>$dynamicRef\<close> and \<open>$recursiveRef\<close> at any depth is \<open>#\<close> or a pointer \<open>#/...\<close> that leads,
  key by key and position by position, to a value. That value is one inside the same schema, and any value under
  a key can be pointed to by the escaped key.\<close>

theorem schema_references_exact:
  "(references_are_local_and_resolvable index schema = Some True \<longleftrightarrow>
     length (nested 0 schema) \<le> MAX_SCHEMA_NODES
     \<and> (\<forall>(v, depth) \<in> set (nested 0 schema). depth \<le> MAX_SCHEMA_DEPTH
        \<and> (\<forall>kvs. v = JObj kvs \<longrightarrow> (\<forall>keyword \<in> set REFERENCE_KEYWORDS. jget kvs keyword \<noteq> JNull
             \<longrightarrow> (\<exists>target. refers_to index schema (jget kvs keyword) target)))))
   \<and> (\<forall>reference target. refers_to index schema reference target \<longrightarrow> (\<exists>depth. (target, depth) \<in> set (nested 0 schema)))
   \<and> (\<forall>kvs k v. schema = JObj kvs \<longrightarrow> map_of kvs k = Some v \<longrightarrow>
        local_reference_resolves index schema (JStr (lit ''#/'' @ escape k)) = Some True
        \<and> refers_to index schema (JStr (lit ''#/'' @ escape k)) v)"
proof -
  have "value_ok index schema v = Some True \<longleftrightarrow> (\<forall>kvs. v = JObj kvs \<longrightarrow> (\<forall>keyword \<in> set REFERENCE_KEYWORDS.
      jget kvs keyword \<noteq> JNull \<longrightarrow> (\<exists>target. refers_to index schema (jget kvs keyword) target)))" for v
    by (cases v) (simp_all add: value_ok_def references_ok_iff resolves_iff)
  then have "references_are_local_and_resolvable index schema = Some True \<longleftrightarrow>
     length (nested 0 schema) \<le> MAX_SCHEMA_NODES
     \<and> (\<forall>(v, depth) \<in> set (nested 0 schema). depth \<le> MAX_SCHEMA_DEPTH
        \<and> (\<forall>kvs. v = JObj kvs \<longrightarrow> (\<forall>keyword \<in> set REFERENCE_KEYWORDS. jget kvs keyword \<noteq> JNull
             \<longrightarrow> (\<exists>target. refers_to index schema (jget kvs keyword) target))))"
    unfolding references_are_local_and_resolvable_def walk_iff by (simp add: all_nested_def)
  moreover have inside: "\<exists>depth. (target, depth) \<in> set (nested 0 schema)" if "refers_to index schema reference target" for reference target
    using that points_to_nested [of index schema _ target 0] nested_children [of 0 schema] by (auto simp: refers_to_def)
  moreover have named: "refers_to index schema (JStr (lit ''#/'' @ escape k)) v" if "schema = JObj kvs" "map_of kvs k = Some v" for kvs k v
    unfolding refers_to_def
    by (intro disjI2 exI [of _ "[escape k]"]) (simp add: escape_plain that points_to_simps unescape_escape)
  moreover have "local_reference_resolves index schema (JStr (lit ''#/'' @ escape k)) = Some True"
    if "schema = JObj kvs" "map_of kvs k = Some v" for kvs k v
    unfolding resolves_iff by (rule exI) (rule named [OF that])
  ultimately show ?thesis by (intro conjI allI impI) assumption+
qed

definition demo_schema :: json where
  "demo_schema = JObj [(lit ''type'', JStr (lit ''object'')), (lit ''$ref'', JStr (lit ''#/type''))]"

theorem schema_references_exact_witness:
  "references_are_local_and_resolvable (\<lambda>_. None) demo_schema = Some True"
proof -
  have escaped: "escape (lit ''type'') = lit ''type''" by (simp add: escape_def lit_def)
  have "refers_to (\<lambda>_. None) demo_schema (JStr (lit ''#/'' @ escape (lit ''type''))) (JStr (lit ''object''))"
    using schema_references_exact [of "\<lambda>_. None" demo_schema] by (simp add: demo_schema_def)
  then have "refers_to (\<lambda>_. None) demo_schema (JStr (lit ''#/type'')) (JStr (lit ''object''))"
    unfolding escaped by (simp add: lit_def)
  then have "\<exists>target. refers_to (\<lambda>_. None) demo_schema (JStr (lit ''#/type'')) target" ..
  then have "length (nested 0 demo_schema) \<le> MAX_SCHEMA_NODES
     \<and> (\<forall>(v, depth) \<in> set (nested 0 demo_schema). depth \<le> MAX_SCHEMA_DEPTH
        \<and> (\<forall>kvs. v = JObj kvs \<longrightarrow> (\<forall>keyword \<in> set REFERENCE_KEYWORDS. jget kvs keyword \<noteq> JNull
             \<longrightarrow> (\<exists>target. refers_to (\<lambda>_. None) demo_schema (jget kvs keyword) target))))"
    by (auto simp: demo_schema_def MAX_SCHEMA_NODES_def MAX_SCHEMA_DEPTH_def REFERENCE_KEYWORDS_def jget_def)
  then show ?thesis using schema_references_exact [of "\<lambda>_. None" demo_schema] by blast
qed

end
