(* ===== verification/Redaction.thy ===== *)
theory Redaction
  imports Conversation_Rules
begin

text \<open>
  \<open>src/src/tools/redaction.py\<close>: values under sensitive keys are replaced before they are logged, and
  texts are cut to a number of bytes. \<open>str.lower\<close> needs the Unicode database and is an argument, as
  is \<open>json.dumps\<close>. Strings are sequences of Unicode scalar values (a lone surrogate has no UTF-8
  encoding and makes \<open>encode\<close> raise).
\<close>

section \<open>Sensitive keys\<close>

definition SENSITIVE_KEY_MARKERS :: "str list" where
  "SENSITIVE_KEY_MARKERS = map lit [''apikey'', ''api_key'', ''token'', ''password'', ''secret'', ''authorization'',
     ''cookie'', ''credential'', ''private_key'', ''access_key'']"

text \<open>\<open>marker in s\<close>.\<close>

definition contains :: "str \<Rightarrow> str \<Rightarrow> bool" where
  "contains s marker = list_ex (\<lambda>i. take (length marker) (drop i s) = marker) [0..<Suc (length s)]"

definition is_sensitive_key :: "(str \<Rightarrow> str) \<Rightarrow> str \<Rightarrow> bool" where
  "is_sensitive_key lower key = list_ex (contains (lower key)) SENSITIVE_KEY_MARKERS"

definition stars :: json where "stars = JStr (lit ''***'')"

fun redact_value :: "(str \<Rightarrow> str) \<Rightarrow> str \<Rightarrow> json \<Rightarrow> json" where
  "redact_value lower key (JObj kvs) =
     (if is_sensitive_key lower key then stars else JObj (map (\<lambda>(k, v). (k, redact_value lower k v)) kvs))"
| "redact_value lower key (JList xs) =
     (if is_sensitive_key lower key then stars else JList (map (redact_value lower []) xs))"
| "redact_value lower key v = (if is_sensitive_key lower key then stars else v)"

definition redact_arguments :: "(str \<Rightarrow> str) \<Rightarrow> (str, json) dict \<Rightarrow> (str, json) dict" where
  "redact_arguments lower arguments = map (\<lambda>(k, v). (k, redact_value lower k v)) arguments"

section \<open>UTF-8\<close>

definition utf8_bytes :: "nat \<Rightarrow> nat list" where
  "utf8_bytes c =
     (if c < 128 then [c]
      else if c < 2048 then [192 + c div 64, 128 + c mod 64]
      else if c < 65536 then [224 + c div 4096, 128 + c div 64 mod 64, 128 + c mod 64]
      else [240 + c div 262144, 128 + c div 4096 mod 64, 128 + c div 64 mod 64, 128 + c mod 64])"

definition utf8_encode :: "str \<Rightarrow> nat list" where
  "utf8_encode s = concat (map utf8_bytes s)"

definition scalar :: "nat \<Rightarrow> bool" where
  "scalar c \<longleftrightarrow> c < 55296 \<or> 57344 \<le> c \<and> c < 1114112"

definition continuation :: "nat \<Rightarrow> bool" where
  "continuation b \<longleftrightarrow> 128 \<le> b \<and> b < 192"

text \<open>One well-formed sequence at the front: how many bytes the lead byte announces, their value, and
  the check for the shortest form and for scalar values.\<close>

definition announced :: "nat \<Rightarrow> nat" where
  "announced b = (if b < 128 then 1 else if 192 \<le> b \<and> b < 224 then 2 else if 224 \<le> b \<and> b < 240 then 3
     else if 240 \<le> b \<and> b < 248 then 4 else 0)"

definition lead_bits :: "nat \<Rightarrow> nat" where
  "lead_bits b = (if b < 128 then b else if b < 224 then b - 192 else if b < 240 then b - 224 else b - 240)"

definition utf8_head :: "nat list \<Rightarrow> nat option" where
  "utf8_head bs = (case bs of
     [] \<Rightarrow> None
   | b # rest \<Rightarrow>
       let tail = take (announced b - 1) rest;
           c = foldl (\<lambda>acc x. acc * 64 + (x - 128)) (lead_bits b) tail
       in if announced b \<noteq> 0 \<and> length tail = announced b - 1 \<and> list_all continuation tail
             \<and> scalar c \<and> utf8_len c = announced b
          then Some c else None)"

text \<open>\<open>bytes.decode("utf-8", errors="ignore")\<close>: a byte that starts no well-formed sequence is skipped.\<close>

function decode_ignore :: "nat list \<Rightarrow> str" where
  "decode_ignore [] = []"
| "decode_ignore (b # rest) =
     (case utf8_head (b # rest) of
        Some c \<Rightarrow> c # decode_ignore (drop (announced b - 1) rest)
      | None \<Rightarrow> decode_ignore rest)"
  by pat_completeness auto
termination by (relation "measure length") auto

section \<open>Cutting texts\<close>

definition truncated_mark :: str where
  "truncated_mark = [10, 8230, 91, 24050, 25130, 26029, 93]"

definition truncate_content :: "nat \<Rightarrow> str \<Rightarrow> str" where
  "truncate_content max_bytes content =
     (let encoded = utf8_encode content in
      if length encoded \<le> max_bytes then content
      else decode_ignore (take max_bytes encoded) @ truncated_mark)"

definition redacted_json :: "(str \<Rightarrow> str) \<Rightarrow> ((str, json) dict \<Rightarrow> str) \<Rightarrow> (str, json) dict \<Rightarrow> nat \<Rightarrow> str" where
  "redacted_json lower dumps arguments max_bytes = truncate_content max_bytes (dumps (redact_arguments lower arguments))"

section \<open>What is cut\<close>

lemma utf8_bytes_length: "length (utf8_bytes c) = utf8_len c"
  by (simp add: utf8_bytes_def utf8_len_def)

lemma utf8_encode_Cons: "utf8_encode (c # s) = utf8_bytes c @ utf8_encode s"
  by (simp add: utf8_encode_def)

lemma utf8_encode_length: "length (utf8_encode s) = utf8_length s"
  by (induction s) (simp_all add: utf8_encode_def utf8_length_def utf8_bytes_length)

text \<open>The reference: whole characters as long as they fit.\<close>

fun fit_bytes :: "nat \<Rightarrow> str \<Rightarrow> str" where
  "fit_bytes n [] = []"
| "fit_bytes n (c # s) = (if utf8_len c \<le> n then c # fit_bytes (n - utf8_len c) s else [])"

lemma div_chain: "(c :: nat) div 4096 = c div 64 div 64" "c div 262144 = c div 64 div 64 div 64"
  by (simp_all add: div_mult2_eq [symmetric])

lemma utf8_head_bytes:
  assumes "scalar c"
  shows "utf8_head (utf8_bytes c @ rest) = Some c" and "announced (hd (utf8_bytes c)) = utf8_len c"
proof -
  consider "c < 128" | "128 \<le> c" "c < 2048" | "2048 \<le> c" "c < 65536" | "65536 \<le> c" "c < 1114112"
    using assms by (fastforce simp: scalar_def)
  then have "utf8_head (utf8_bytes c @ rest) = Some c \<and> announced (hd (utf8_bytes c)) = utf8_len c"
  proof cases
    case 1
    with assms show ?thesis by (simp add: utf8_head_def utf8_bytes_def announced_def lead_bits_def utf8_len_def)
  next
    case 2
    then have "c div 64 < 32" "c div 64 \<ge> 2" by (simp_all add: less_mult_imp_div_less div_le_mono [of 128 c 64, simplified])
    with 2 assms show ?thesis
      by (simp add: utf8_head_def utf8_bytes_def announced_def lead_bits_def utf8_len_def continuation_def)
  next
    case 3
    then have "c div 64 div 64 < 16" by (simp add: less_mult_imp_div_less)
    with 3 assms show ?thesis
      by (simp add: utf8_head_def utf8_bytes_def announced_def lead_bits_def utf8_len_def continuation_def div_chain)
  next
    case 4
    then have "c div 64 div 64 div 64 < 5" by (simp add: less_mult_imp_div_less)
    with 4 assms show ?thesis
      by (simp add: utf8_head_def utf8_bytes_def announced_def lead_bits_def utf8_len_def continuation_def div_chain)
  qed
  then show "utf8_head (utf8_bytes c @ rest) = Some c" "announced (hd (utf8_bytes c)) = utf8_len c" by auto
qed

lemma utf8_bytes_Cons:
  obtains tail where "utf8_bytes c = hd (utf8_bytes c) # tail" and "list_all continuation tail"
    and "length tail = utf8_len c - 1"
  by (rule that [of "tl (utf8_bytes c)"]) (simp_all add: utf8_bytes_def continuation_def utf8_len_def)

lemma decode_continuation: "list_all continuation bs \<Longrightarrow> decode_ignore bs = []"
  by (induction bs) (simp_all add: utf8_head_def continuation_def announced_def Let_def)

lemma decode_partial:
  assumes "scalar c" and "n < utf8_len c"
  shows "decode_ignore (take n (utf8_bytes c)) = []"
proof (cases n)
  case (Suc m)
  obtain tail where tail: "utf8_bytes c = hd (utf8_bytes c) # tail" "list_all continuation tail" "length tail = utf8_len c - 1"
    by (rule utf8_bytes_Cons)
  have "utf8_head (hd (utf8_bytes c) # take m tail) = None"
    using assms Suc tail(3) utf8_head_bytes(2) [OF assms(1)] by (auto simp: utf8_head_def Let_def)
  moreover have "decode_ignore (take m tail) = []"
    using tail(2) by (intro decode_continuation) (auto simp: list_all_iff dest: in_set_takeD)
  moreover have "take n (utf8_bytes c) = hd (utf8_bytes c) # take m tail" by (subst tail(1)) (simp add: Suc)
  ultimately show ?thesis by simp
qed simp

lemma decode_whole:
  assumes "scalar c"
  shows "decode_ignore (utf8_bytes c @ rest) = c # decode_ignore rest"
proof -
  obtain tail where tail: "utf8_bytes c = hd (utf8_bytes c) # tail" "length tail = utf8_len c - 1"
    by (rule utf8_bytes_Cons)
  have "utf8_head (hd (utf8_bytes c) # tail @ rest) = Some c"
    using utf8_head_bytes(1) [OF assms, of rest] tail(1) by (metis append_Cons)
  then have "decode_ignore (hd (utf8_bytes c) # tail @ rest) = c # decode_ignore rest"
    using utf8_head_bytes(2) [OF assms] tail(2) by simp
  then show ?thesis using tail(1) by (metis append_Cons)
qed

lemma decode_take: "list_all scalar s \<Longrightarrow> decode_ignore (take n (utf8_encode s)) = fit_bytes n s"
proof (induction s arbitrary: n)
  case (Cons c s)
  show ?case
  proof (cases "utf8_len c \<le> n")
    case True
    then have "take n (utf8_encode (c # s)) = utf8_bytes c @ take (n - utf8_len c) (utf8_encode s)"
      by (simp add: utf8_encode_Cons utf8_bytes_length)
    with True Cons show ?thesis by (simp add: decode_whole)
  next
    case False
    then have "take n (utf8_encode (c # s)) = take n (utf8_bytes c)"
      by (simp add: utf8_encode_Cons utf8_bytes_length)
    with False Cons.prems decode_partial [of c n] show ?thesis by simp
  qed
qed (simp add: utf8_encode_def)

lemma fit_bytes_prefix: "\<exists>rest. s = fit_bytes n s @ rest \<and> utf8_length (fit_bytes n s) \<le> n
    \<and> (rest \<noteq> [] \<longrightarrow> n < utf8_length (fit_bytes n s) + utf8_len (hd rest))"
proof (induction n s rule: fit_bytes.induct)
  case (2 n c s)
  show ?case
  proof (cases "utf8_len c \<le> n")
    case True
    with 2 obtain rest where "s = fit_bytes (n - utf8_len c) s @ rest" "utf8_length (fit_bytes (n - utf8_len c) s) \<le> n - utf8_len c"
      "rest \<noteq> [] \<longrightarrow> n - utf8_len c < utf8_length (fit_bytes (n - utf8_len c) s) + utf8_len (hd rest)" by blast
    with True show ?thesis by (intro exI [of _ rest]) (auto simp: utf8_length_def)
  qed (simp add: utf8_length_def)
qed (simp add: utf8_length_def)

text \<open>C34: Cutting a text to a number of bytes keeps it when it fits, and otherwise keeps the longest
  beginning of whole characters that fits (never half a character) and adds the mark: the byte-level
  cut and the tolerant decoder agree with that description, and the result has at most 15 bytes more
  than the limit.\<close>

theorem truncate_content_prefix:
  assumes "list_all scalar content"
  shows "(utf8_length content \<le> max_bytes \<longrightarrow> truncate_content max_bytes content = content)
    \<and> (utf8_length content > max_bytes \<longrightarrow>
        (\<exists>kept rest. content = kept @ rest \<and> truncate_content max_bytes content = kept @ truncated_mark
          \<and> utf8_length kept \<le> max_bytes \<and> max_bytes < utf8_length kept + utf8_len (hd rest)))
    \<and> utf8_length (truncate_content max_bytes content) \<le> max_bytes + 15"
proof (cases "utf8_length content \<le> max_bytes")
  case True
  then show ?thesis by (simp add: truncate_content_def utf8_encode_length)
next
  case False
  have cut: "truncate_content max_bytes content = fit_bytes max_bytes content @ truncated_mark"
    using False decode_take [OF assms] by (simp add: truncate_content_def utf8_encode_length)
  obtain rest where rest: "content = fit_bytes max_bytes content @ rest" "utf8_length (fit_bytes max_bytes content) \<le> max_bytes"
    "rest \<noteq> [] \<longrightarrow> max_bytes < utf8_length (fit_bytes max_bytes content) + utf8_len (hd rest)"
    using fit_bytes_prefix [of content max_bytes] by blast
  then have "rest \<noteq> []" using False by (metis append_Nil2)
  moreover have "utf8_length (fit_bytes max_bytes content @ truncated_mark) \<le> max_bytes + 15"
    using rest(2) by (simp add: utf8_length_def truncated_mark_def utf8_len_def)
  ultimately show ?thesis using rest cut False by (metis not_le)
qed

theorem truncate_content_prefix_witness:
  "truncate_content 4 [65, 24050, 66] = [65, 24050] @ truncated_mark
   \<and> utf8_length (truncate_content 4 [65, 24050, 66]) \<le> 4 + 15"
proof -
  have "list_all scalar [65, 24050, 66]" by (simp add: scalar_def)
  then show ?thesis
    using truncate_content_prefix [of "[65, 24050, 66]" 4] decode_take [of "[65, 24050, 66]" 4]
    by (simp add: truncate_content_def utf8_encode_length utf8_length_def utf8_len_def)
qed

section \<open>What is redacted\<close>

text \<open>The pairs of key and value of a JSON value, at any depth.\<close>

fun entries :: "json \<Rightarrow> (str \<times> json) list" where
  "entries (JObj kvs) = kvs @ concat (map (\<lambda>(k, v). entries v) kvs)"
| "entries (JList xs) = concat (map entries xs)"
| "entries v = []"

lemma entries_redacted:
  "(k, v) \<in> set (entries (redact_value lower key x)) \<Longrightarrow> is_sensitive_key lower k \<Longrightarrow> v = stars"
proof (induction lower key x arbitrary: k v rule: redact_value.induct)
  case (1 lower key kvs)
  show ?case
  proof (cases "is_sensitive_key lower key")
    case True
    with 1(2) show ?thesis by (simp add: stars_def)
  next
    case False
    from 1(2) False obtain k' v' where kv: "(k', v') \<in> set kvs"
      and "(k, v) = (k', redact_value lower k' v') \<or> (k, v) \<in> set (entries (redact_value lower k' v'))" by auto
    then show ?thesis
    proof (elim disjE)
      assume "(k, v) = (k', redact_value lower k' v')"
      with 1(3) show ?thesis by (cases v') simp_all
    next
      assume "(k, v) \<in> set (entries (redact_value lower k' v'))"
      with 1(1) [OF False kv refl] 1(3) show ?thesis by blast
    qed
  qed
next
  case (2 lower key xs)
  then show ?case by (cases "is_sensitive_key lower key") (auto simp: stars_def)
qed (auto simp: stars_def split: if_splits)

lemma redact_value_clean:
  "(\<forall>(k, v) \<in> set (entries x). is_sensitive_key lower k \<longrightarrow> v = stars) \<Longrightarrow> \<not> is_sensitive_key lower key
   \<Longrightarrow> \<not> is_sensitive_key lower [] \<Longrightarrow> redact_value lower key x = x"
proof (induction lower key x rule: redact_value.induct)
  case (1 lower key kvs)
  have "redact_value lower k v = v" if "(k, v) \<in> set kvs" for k v
  proof (cases "is_sensitive_key lower k")
    case True
    then have "v = stars" using 1(2) that by auto
    with True show ?thesis by (simp add: stars_def)
  next
    case False
    have "\<forall>(k, v) \<in> set (entries v). is_sensitive_key lower k \<longrightarrow> v = stars" using 1(2) that by fastforce
    from 1(1) [OF 1(3) that refl this False 1(4)] show ?thesis .
  qed
  with 1(3) show ?case by (auto intro!: map_idI)
next
  case (2 lower key xs)
  have "redact_value lower [] v = v" if "v \<in> set xs" for v
    using 2(1) [OF 2(3) that _ 2(4) 2(4)] 2(2) that by fastforce
  with 2(3) show ?case by (auto intro!: map_idI)
qed auto

text \<open>C35: After redaction every value under a sensitive key, at any depth of the arguments, is the mask; the
  keys and their order are kept; redacting twice changes nothing more.\<close>

theorem redact_arguments_masks:
  assumes "lower [] = []"
  shows "dkeys (redact_arguments lower arguments) = dkeys arguments
    \<and> (\<forall>(k, v) \<in> set (entries (JObj (redact_arguments lower arguments))). is_sensitive_key lower k \<longrightarrow> v = stars)
    \<and> redact_arguments lower (redact_arguments lower arguments) = redact_arguments lower arguments"
proof -
  let ?r = "redact_value lower [] (JObj arguments)"
  have plain: "\<not> is_sensitive_key lower []"
    by (simp add: is_sensitive_key_def assms contains_def SENSITIVE_KEY_MARKERS_def list_ex_iff)
  have r: "?r = JObj (redact_arguments lower arguments)" using plain by (simp add: redact_arguments_def)
  have clean: "\<forall>(k, v) \<in> set (entries ?r). is_sensitive_key lower k \<longrightarrow> v = stars"
    using entries_redacted by blast
  then have "redact_value lower [] ?r = ?r" using redact_value_clean [OF _ plain plain] by blast
  then have "redact_arguments lower (redact_arguments lower arguments) = redact_arguments lower arguments"
    using plain unfolding r by (simp add: redact_arguments_def)
  moreover have "dkeys (redact_arguments lower arguments) = dkeys arguments"
    by (simp add: redact_arguments_def comp_def case_prod_unfold)
  ultimately show ?thesis using clean [unfolded r] by blast
qed

theorem redact_arguments_masks_witness:
  "redact_arguments id [(lit ''token'', JInt 7), (lit ''q'', JInt 8)] = [(lit ''token'', stars), (lit ''q'', JInt 8)]
   \<and> redact_arguments id [(lit ''token'', stars), (lit ''q'', JInt 8)] = [(lit ''token'', stars), (lit ''q'', JInt 8)]"
proof -
  have keys: "is_sensitive_key id (lit ''token'')" "\<not> is_sensitive_key id (lit ''q'')"
    by code_simp+
  then have one: "redact_arguments id [(lit ''token'', JInt 7), (lit ''q'', JInt 8)] = [(lit ''token'', stars), (lit ''q'', JInt 8)]"
    by (simp add: redact_arguments_def)
  with redact_arguments_masks [of id "[(lit ''token'', JInt 7), (lit ''q'', JInt 8)]"] show ?thesis by simp
qed

end
