(* ===== verification/Gateway.thy ===== *)
theory Gateway
  imports Tool_Stores Schema Redaction
begin

text \<open>
  \<open>src/src/tools/gateway.py\<close>: the one entry point of every tool call. A call and what happens around it
  are arguments: the run authorizer, the executor of the tools (its \<open>n\<close>-th attempt may give a result,
  raise an exception with a code, time out or be cancelled), the artifact store, the two redacting
  regular expressions, the fresh operation id and the clock. \<open>invoke\<close> returns its result or
  exception, the stores, and what it did on the way: the events it emitted and the executions it
  started.
\<close>

section \<open>Calls\<close>

datatype exec_end =
    Exec_result tool_result
  | Exec_raised "str option"
  | Exec_cancelled
  | Exec_timeout

datatype gateway_step =
    Emit gateway_event
  | Execute tool_descriptor "(str, json) dict" str str

datatype gateway_error =
    Tool_raised tool_error
  | Executor_error "str option"
  | Schema_value_error

record gateway =
  g_authorizer :: "(str \<Rightarrow> str \<Rightarrow> bool) option"
  g_schema :: schema_lib
  g_executor :: "(tool_descriptor \<Rightarrow> (str, json) dict \<Rightarrow> str \<Rightarrow> str \<Rightarrow> nat \<Rightarrow> exec_end) option"
  g_retry_attempts :: nat
  g_artifact_store :: "(str \<Rightarrow> str \<Rightarrow> artifact_ref) option"
  g_redact_text :: "str \<Rightarrow> str"
  g_lower :: "str \<Rightarrow> str"
  g_dumps :: "(str, json) dict \<Rightarrow> str"
  g_ttl :: timedelta

record tool_call =
  c_snapshot :: tool_catalog_snapshot
  c_run_id :: str
  c_owner_id :: str
  c_tool_call_id :: str
  c_operation_key :: str
  c_tool_id :: str
  c_arguments :: "(str, json) dict"
  c_approval_id :: "str option"
  c_new_id :: str
  c_now :: datetime
  c_later :: datetime
  c_elapsed_ms :: int

definition call_key_of :: "tool_call \<Rightarrow> call_key" where
  "call_key_of call = (c_run_id call, c_tool_call_id call, c_operation_key call)"

section \<open>Results\<close>

definition awaiting_text :: str where
  "awaiting_text = [35813, 24037, 20855, 35843, 29992, 31561, 24453, 29992, 25143, 23457, 25209, 12290]"
definition blocked_text :: str where
  "blocked_text = [35813, 24037, 20855, 34987, 26412, 22320, 31574, 30053, 31105, 27490, 25191, 34892, 12290]"
definition rejected_text :: str where
  "rejected_text = [35813, 24037, 20855, 35843, 29992, 24050, 34987, 25298, 32477, 12290]"
definition cancelled_text :: str where
  "cancelled_text = [24037, 20855, 35843, 29992, 24050, 21462, 28040, 12290]"
definition timeout_text :: str where
  "timeout_text = [24037, 20855, 35843, 29992, 36229, 26102, 12290]"
definition needs_approval_text :: "str \<Rightarrow> str" where
  "needs_approval_text name = name @ [32, 23646, 20110, 38656, 23457, 25209, 24037, 20855, 12290]"

definition result_of :: "str \<Rightarrow> str \<Rightarrow> tool_result_status \<Rightarrow> str \<Rightarrow> str option \<Rightarrow> tool_result" where
  "result_of tool_call_id operation_id status summary code =
     \<lparr>tr_tool_call_id = tool_call_id, tr_operation_id = operation_id, tr_status = status, tr_summary = summary,
      tr_content = [], tr_artifacts = [], tr_error = code, tr_timing_ms = 0, tr_approval_id = None\<rparr>"

definition awaiting :: "operation \<Rightarrow> str \<Rightarrow> tool_result" where
  "awaiting operation tool_call_id =
     (result_of tool_call_id (op_operation_id operation) Res_awaiting_approval awaiting_text None)
     \<lparr>tr_approval_id := op_approval_id operation\<rparr>"

definition rejected :: "str \<Rightarrow> str \<Rightarrow> str \<Rightarrow> str \<Rightarrow> tool_result" where
  "rejected tool_call_id operation_id summary code = result_of tool_call_id operation_id Res_blocked summary (Some code)"

definition rejection :: "tool_call \<Rightarrow> operation \<Rightarrow> approval_item \<Rightarrow> tool_result" where
  "rejection call operation approval = rejected (c_tool_call_id call) (op_operation_id operation)
     (case ap_rejected_reason approval of None \<Rightarrow> rejected_text | Some r \<Rightarrow> if r = [] then rejected_text else r)
     (error_code ApprovalRejected)"

definition record_terminal_result ::
  "operation \<Rightarrow> tool_result \<Rightarrow> datetime \<Rightarrow> tool_state \<Rightarrow> (tool_error, tool_result, tool_state) outcome" where
  "record_terminal_result operation result now s =
     (let status = (case tr_status result of Res_cancelled \<Rightarrow> Op_cancelled | Res_success \<Rightarrow> Op_succeeded | _ \<Rightarrow> Op_failed);
          updated = operation\<lparr>op_status := status, op_error_code := tr_error result,
            op_result_summary := Some (tr_summary result), op_timing_ms := tr_timing_ms result,
            op_artifacts := tr_artifacts result, op_updated_at := now\<rparr>
      in case update_operation updated s of
           (Inl e, t) \<Rightarrow> (Inl e, t)
         | (Inr _, t) \<Rightarrow> (Inr result, save_result (op_operation_id updated) result t))"

definition sanitize_result :: "gateway \<Rightarrow> tool_call \<Rightarrow> str \<Rightarrow> tool_result \<Rightarrow> tool_result" where
  "sanitize_result gw call operation_id result =
     (let full_content = g_redact_text gw (tr_content result);
          artifacts = (case g_artifact_store gw of
            None \<Rightarrow> tr_artifacts result
          | Some save_text \<Rightarrow>
              if full_content = [] then tr_artifacts result
              else tr_artifacts result @ [save_text (lit ''tool:'' @ c_tool_id call) full_content])
      in \<lparr>tr_tool_call_id = c_tool_call_id call, tr_operation_id = operation_id, tr_status = tr_status result,
          tr_summary = truncate_content 1024 (g_redact_text gw (tr_summary result)),
          tr_content = truncate_content 4096 full_content, tr_artifacts = artifacts,
          tr_error = (case tr_error result of None \<Rightarrow> None | Some e \<Rightarrow> if e = [] then None else Some (g_redact_text gw e)),
          tr_timing_ms = c_elapsed_ms call, tr_approval_id = tr_approval_id result\<rparr>)"

section \<open>Executing\<close>

definition RETRYABLE_CODES :: "str set" where
  "RETRYABLE_CODES = set (map lit [''mcp_http_429'', ''mcp_http_502'', ''mcp_http_503'', ''mcp_http_504'',
     ''mcp_http_unreachable'', ''mcp_request_timeout''])"

definition retryable :: "tool_descriptor \<Rightarrow> exec_end \<Rightarrow> bool" where
  "retryable descriptor e \<longleftrightarrow> (case e of
     Exec_raised (Some code) \<Rightarrow> td_source descriptor = Mcp \<and> td_risk descriptor = Safe \<and> code \<in> RETRYABLE_CODES
   | _ \<Rightarrow> False)"

text \<open>The loop of \<open>_execute\<close>: the end of the last attempt and how many attempts there were.\<close>

fun execute_attempts :: "tool_descriptor \<Rightarrow> (nat \<Rightarrow> exec_end) \<Rightarrow> nat \<Rightarrow> nat \<Rightarrow> exec_end \<times> nat" where
  "execute_attempts descriptor run attempt 0 = (run attempt, 1)"
| "execute_attempts descriptor run attempt (Suc left) =
     (if retryable descriptor (run attempt)
      then map_prod id Suc (execute_attempts descriptor run (attempt + 1) left)
      else (run attempt, 1))"

section \<open>Approvals\<close>

definition identity_of :: "tool_call \<Rightarrow> operation \<Rightarrow> call_identity" where
  "identity_of call operation = \<lparr>ci_run_id = c_run_id call, ci_owner_id = c_owner_id call,
     ci_operation_id = op_operation_id operation, ci_tool_id = c_tool_id call, ci_tool_call_id = c_tool_call_id call\<rparr>"

definition decided :: "approval_item option \<Rightarrow> approval_item option" where
  "decided item = (case item of
     Some approval \<Rightarrow> if ap_status approval = Ap_approved \<or> ap_status approval = Ap_rejected then Some approval else None
   | None \<Rightarrow> None)"

text \<open>\<open>_resolve_approval\<close>: the decided approval of this very call, if there is one; it creates an
  approval for an operation that has none yet.\<close>

definition resolve_approval ::
  "gateway \<Rightarrow> tool_call \<Rightarrow> operation \<Rightarrow> str \<Rightarrow> tool_state
   \<Rightarrow> (tool_error, approval_item option \<times> operation, tool_state) outcome" where
  "resolve_approval gw call operation reason s =
     (let c = identity_of call operation;
          latest = (case op_approval_id operation of None \<Rightarrow> None | Some a \<Rightarrow> resolve_identity a c s)
      in if latest \<noteq> None then Return (decided latest, operation) s
         else (case c_approval_id call of
                 Some approval_id \<Rightarrow> Return (decided (resolve_identity approval_id c s), operation) s
               | None \<Rightarrow>
                   let (created, t) = create_approval (g_ttl gw) c reason (c_now call) s;
                       updated = operation\<lparr>op_approval_id := Some (ap_approval_id created)\<rparr>
                   in (case update_operation updated t of
                         (Inl e, u) \<Rightarrow> Raise e u
                       | (Inr _, u) \<Rightarrow> Return (None, updated) u)))"

section \<open>The gateway\<close>

text \<open>A run of the gateway: what it returns or raises, the steps it took, the stores.\<close>

type_synonym gateway_run = "(gateway_error + tool_result) \<times> gateway_step list \<times> tool_state"

definition emit :: "gateway_event \<Rightarrow> str \<Rightarrow> gateway_step list \<times> tool_state \<Rightarrow> gateway_step list \<times> tool_state" where
  "emit event operation_id = (\<lambda>(steps, s). (steps @ [Emit event], append_event operation_id event s))"

definition finish :: "(tool_error, tool_result, tool_state) outcome \<Rightarrow> gateway_step list \<Rightarrow> gateway_run" where
  "finish r steps = (case r of (Inl e, t) \<Rightarrow> (Inl (Tool_raised e), steps, t) | (Inr v, t) \<Rightarrow> (Inr v, steps, t))"

text \<open>From the \<open>started\<close> event to the end.\<close>

definition perform :: "gateway \<Rightarrow> tool_call \<Rightarrow> tool_descriptor \<Rightarrow> operation \<Rightarrow> tool_state \<Rightarrow> gateway_run" where
  "perform gw call descriptor operation s =
     (let oid = op_operation_id operation;
          tid = c_tool_id call;
          cid = c_tool_call_id call;
          (steps, s) = emit (Ev_started oid tid cid (td_risk descriptor) (td_source descriptor) (td_server_id descriptor)
            (op_arguments_summary operation) (op_risk_reason operation)) oid ([], s)
      in case g_executor gw of
           None \<Rightarrow> (Inl (Tool_raised ToolUnavailable), steps, s)
         | Some execute \<Rightarrow>
             let (e, n) = execute_attempts descriptor (execute descriptor (c_arguments call) (c_run_id call) (c_owner_id call))
                    0 (g_retry_attempts gw);
                 steps = steps @ replicate n (Execute descriptor (c_arguments call) (c_run_id call) (c_owner_id call))
             in case e of
                  Exec_cancelled \<Rightarrow>
                    let (steps, s) = emit (Ev_cancelled oid tid cid (error_code ToolCancelled)) oid (steps, s)
                    in finish (record_terminal_result operation
                         (result_of cid oid Res_cancelled cancelled_text (Some (error_code ToolCancelled))) (c_later call) s) steps
                | Exec_timeout \<Rightarrow>
                    let (steps, s) = emit (Ev_failed oid tid cid (error_code ToolTimeout)) oid (steps, s)
                    in finish (record_terminal_result operation
                         (result_of cid oid Res_error timeout_text (Some (error_code ToolTimeout))) (c_later call) s) steps
                | Exec_raised code \<Rightarrow>
                    let shown = (case code of None \<Rightarrow> lit ''tool_execution_failed'' | Some c \<Rightarrow> c);
                        failed = operation\<lparr>op_status := Op_failed, op_error_code := Some shown, op_updated_at := c_later call\<rparr>
                    in (case update_operation failed s of
                          (Inl err, t) \<Rightarrow> (Inl (Tool_raised err), steps, t)
                        | (Inr _, t) \<Rightarrow>
                            let (steps, t) = emit (Ev_failed oid tid cid shown) oid (steps, t)
                            in (Inl (Executor_error code), steps, t))
                | Exec_result result \<Rightarrow>
                    let safe = sanitize_result gw call oid result;
                        finished = operation\<lparr>op_status := (if tr_status safe = Res_success then Op_succeeded else Op_failed),
                          op_result_summary := Some (tr_summary safe), op_timing_ms := tr_timing_ms safe,
                          op_artifacts := tr_artifacts safe, op_updated_at := c_later call\<rparr>
                    in (case update_operation finished s of
                          (Inl err, t) \<Rightarrow> (Inl (Tool_raised err), steps, t)
                        | (Inr _, t) \<Rightarrow>
                            let (steps, t) = emit (Ev_completed oid tid cid (tr_status safe) (tr_summary safe)
                                  (tr_timing_ms safe) (map ar_artifact_id (tr_artifacts safe))) oid (steps, save_result oid safe t)
                            in (Inr safe, steps, t)))"

text \<open>The approval of a \<open>warn\<close> tool.\<close>

definition ask_approval :: "gateway \<Rightarrow> tool_call \<Rightarrow> tool_descriptor \<Rightarrow> operation \<Rightarrow> tool_state \<Rightarrow> gateway_run" where
  "ask_approval gw call descriptor operation s =
     (case resolve_approval gw call operation (needs_approval_text (td_public_name descriptor)) s of
        (Inl e, t) \<Rightarrow> (Inl (Tool_raised e), [], t)
      | (Inr (None, operation), t) \<Rightarrow>
          let latest = (case op_approval_id operation of
                None \<Rightarrow> None | Some a \<Rightarrow> resolve_identity a (identity_of call operation) t)
          in (case latest of
                Some item \<Rightarrow>
                  if ap_status item = Ap_rejected
                  then finish (record_terminal_result operation (rejection call operation item) (c_later call) t) []
                  else let (steps, t) = emit (Ev_awaiting_approval (op_operation_id operation) (c_tool_id call)
                             (c_tool_call_id call) (td_risk descriptor)) (op_operation_id operation) ([], t)
                       in (Inr (awaiting operation (c_tool_call_id call)), steps, t)
              | None \<Rightarrow>
                  let (steps, t) = emit (Ev_awaiting_approval (op_operation_id operation) (c_tool_id call)
                        (c_tool_call_id call) (td_risk descriptor)) (op_operation_id operation) ([], t)
                  in (Inr (awaiting operation (c_tool_call_id call)), steps, t))
      | (Inr (Some approval, operation), t) \<Rightarrow>
          if ap_status approval = Ap_rejected
          then finish (record_terminal_result operation (rejection call operation approval) (c_later call) t) []
          else let running = operation\<lparr>op_approval_id := Some (ap_approval_id approval), op_status := Op_running\<rparr>
               in (case update_operation running t of
                     (Inl e, u) \<Rightarrow> (Inl (Tool_raised e), [], u)
                   | (Inr _, u) \<Rightarrow> perform gw call descriptor running u))"

definition new_operation :: "gateway \<Rightarrow> tool_call \<Rightarrow> tool_descriptor \<Rightarrow> operation" where
  "new_operation gw call descriptor =
     \<lparr>op_operation_id = c_new_id call, op_run_id = c_run_id call, op_owner_id = c_owner_id call,
      op_tool_call_id = c_tool_call_id call, op_operation_key = c_operation_key call, op_tool_id = c_tool_id call,
      op_status = (if td_risk descriptor = Safe then Op_running else Op_awaiting_approval), op_risk = td_risk descriptor,
      op_created_at = c_now call, op_updated_at = c_now call, op_approval_id = None, op_error_code = None,
      op_result_summary = None, op_source = td_source descriptor, op_server_id = td_server_id descriptor,
      op_arguments_summary = redacted_json (g_lower gw) (g_dumps gw) (c_arguments call) 2048,
      op_risk_reason = (if td_risk descriptor = Warn then Some (needs_approval_text (td_public_name descriptor)) else None),
      op_timing_ms = 0, op_artifacts = [], op_sandbox_generation_id = None, op_sandbox_state = lit ''not_requested''\<rparr>"

text \<open>The operation of the call: the one saved for its key, or a new one.\<close>

definition obtain_operation ::
  "gateway \<Rightarrow> tool_call \<Rightarrow> tool_descriptor \<Rightarrow> tool_state \<Rightarrow> (tool_error, operation, tool_state) outcome" where
  "obtain_operation gw call descriptor s =
     (case find_operation (call_key_of call) s of
        Some existing \<Rightarrow> Return existing s
      | None \<Rightarrow>
          (case save_operation (new_operation gw call descriptor) s of
             (Inr operation, t) \<Rightarrow> Return operation t
           | (Inl e, t) \<Rightarrow>
               (case find_operation (call_key_of call) t of None \<Rightarrow> Raise e t | Some existing \<Rightarrow> Return existing t)))"

definition invoke :: "gateway \<Rightarrow> tool_call \<Rightarrow> tool_state \<Rightarrow> gateway_run" where
  "invoke gw call s =
     (if (case ts_run_id (c_snapshot call) of None \<Rightarrow> False | Some r \<Rightarrow> r \<noteq> c_run_id call)
      then (Inl (Tool_raised RunGrantInvalid), [], s)
      else if (case g_authorizer gw of None \<Rightarrow> False | Some authorize \<Rightarrow> \<not> authorize (c_run_id call) (c_owner_id call))
      then (Inl (Tool_raised RunGrantInvalid), [], s)
      else (case find_duplicate (call_key_of call) s of
              Some duplicate \<Rightarrow> (Inr duplicate, [], s)
            | None \<Rightarrow>
                (case by_id (c_snapshot call) (c_tool_id call) of
                   None \<Rightarrow> (Inl (Tool_raised ToolNotFound), [], s)
                 | Some descriptor \<Rightarrow>
                     if \<not> td_exposed descriptor then (Inl (Tool_raised ToolNotExposed), [], s)
                     else (case validate_arguments (g_schema gw) (td_input_schema descriptor) (c_arguments call) of
                             None \<Rightarrow> (Inl Schema_value_error, [], s)
                           | Some (Inl e) \<Rightarrow> (Inl (Tool_raised e), [], s)
                           | Some (Inr ()) \<Rightarrow>
                               (case obtain_operation gw call descriptor s of
                                  (Inl e, t) \<Rightarrow> (Inl (Tool_raised e), [], t)
                                | (Inr operation, t) \<Rightarrow>
                                    (case td_risk descriptor of
                                       Block \<Rightarrow> finish (record_terminal_result operation
                                         (rejected (c_tool_call_id call) (op_operation_id operation) blocked_text
                                            (error_code ToolBlocked)) (c_later call) t) []
                                     | Warn \<Rightarrow> ask_approval gw call descriptor operation t
                                     | Safe \<Rightarrow> perform gw call descriptor operation t))))))"

end
