(* ===== verification/Gateway_Properties.thy ===== *)
theory Gateway_Properties
  imports Gateway
begin

text \<open>
  What the gateway guarantees: a tool runs only for an authorised run, an exposed tool, valid
  arguments and, where the policy asks for it, an approval of this very call; and to its callers the
  stores are a ledger that maps each call to its one recorded result.
\<close>

section \<open>The operation store\<close>

definition store_ok :: "tool_state \<Rightarrow> bool" where
  "store_ok s \<longleftrightarrow>
     (\<forall>oid op. map_of (operations s) oid = Some op \<longrightarrow>
        op_operation_id op = oid \<and> map_of (duplicate_keys s) (key_of op) = Some oid)
     \<and> (\<forall>key oid. map_of (duplicate_keys s) key = Some oid \<longrightarrow>
        (\<exists>op. map_of (operations s) oid = Some op \<and> key_of op = key))
     \<and> (\<forall>oid. map_of (operations s) oid = None \<longrightarrow> map_of (results s) oid = None)"

lemma store_okD:
  assumes "store_ok s"
  shows "map_of (operations s) oid = Some op \<Longrightarrow> op_operation_id op = oid"
    and "map_of (operations s) oid = Some op \<Longrightarrow> map_of (duplicate_keys s) (key_of op) = Some oid"
    and "map_of (duplicate_keys s) key = Some oid \<Longrightarrow> \<exists>op. map_of (operations s) oid = Some op \<and> key_of op = key"
    and "map_of (operations s) oid = None \<Longrightarrow> map_of (results s) oid = None"
  using assms unfolding store_ok_def by blast+

text \<open>The abstract view: the recorded result of each call.\<close>

definition ledger :: "tool_state \<Rightarrow> call_key \<Rightarrow> tool_result option" where
  "ledger s = (\<lambda>key. find_duplicate key s)"

text \<open>The operation at hand is the one the store has for the call.\<close>

definition owned :: "call_key \<Rightarrow> operation \<Rightarrow> tool_state \<Rightarrow> bool" where
  "owned key op s \<longleftrightarrow> store_ok s \<and> map_of (duplicate_keys s) key = Some (op_operation_id op) \<and> key_of op = key"

lemma owned_key_unique:
  assumes "owned key op s" and "map_of (duplicate_keys s) key' = Some (op_operation_id op)"
  shows "key' = key"
  using assms store_okD(3) [of s key "op_operation_id op"] store_okD(3) [of s key' "op_operation_id op"]
  unfolding owned_def by force

lemma ledger_simps [simp]:
  "ledger (s\<lparr>operations := o'\<rparr>) = ledger s" "ledger (s\<lparr>approvals := a\<rparr>) = ledger s" "ledger (append_event oid e s) = ledger s"
  by (simp_all add: ledger_def find_duplicate_def append_event_def cong: option.case_cong)

lemma store_ok_append_event [simp]: "store_ok (append_event oid e s) = store_ok s"
  by (simp add: store_ok_def append_event_def)

lemma store_ok_approvals [simp]: "store_ok (s\<lparr>approvals := a\<rparr>) = store_ok s"
  by (simp add: store_ok_def)

lemma owned_append_event [simp]: "owned key op (append_event oid e s) = owned key op s"
  unfolding owned_def store_ok_append_event by (simp add: append_event_def)

lemma owned_approvals [simp]: "owned key op (s\<lparr>approvals := a\<rparr>) = owned key op s"
  unfolding owned_def store_ok_approvals by simp

lemma owned_update:
  assumes own: "owned key op s" and same: "op_operation_id op' = op_operation_id op" "key_of op' = key_of op"
  shows "update_operation op' s = (Inr op', s\<lparr>operations := AList.update (op_operation_id op) op' (operations s)\<rparr>)"
    and "owned key op' (s\<lparr>operations := AList.update (op_operation_id op) op' (operations s)\<rparr>)"
proof -
  have ok: "store_ok s" and key: "map_of (duplicate_keys s) key = Some (op_operation_id op)" "key_of op = key"
    using own by (simp_all add: owned_def)
  obtain old where old: "map_of (operations s) (op_operation_id op) = Some old" "key_of old = key"
    using store_okD(3) [OF ok key(1)] by blast
  show "update_operation op' s = (Inr op', s\<lparr>operations := AList.update (op_operation_id op) op' (operations s)\<rparr>)"
    using old same by (simp add: update_operation_def)
  have "store_ok (s\<lparr>operations := AList.update (op_operation_id op) op' (operations s)\<rparr>)"
    unfolding store_ok_def
  proof (intro conjI allI impI, goal_cases)
    case (1 oid op'')
    then show ?case using store_okD(1) [OF ok] same by (auto split: if_splits)
  next
    case (2 oid op'')
    then show ?case using store_okD(2) [OF ok] same key by (auto split: if_splits)
  next
    case (3 k oid)
    with owned_key_unique [OF own, of k] store_okD(3) [OF ok, of k oid] same key show ?case by auto
  next
    case (4 oid)
    then show ?case using store_okD(4) [OF ok] by (auto split: if_splits)
  qed
  with key same show "owned key op' (s\<lparr>operations := AList.update (op_operation_id op) op' (operations s)\<rparr>)"
    by (simp add: owned_def)
qed

lemma owned_save_result:
  assumes own: "owned key op s"
  shows "owned key op (save_result (op_operation_id op) r s)"
    and "ledger (save_result (op_operation_id op) r s) = (ledger s)(key \<mapsto> r)"
proof -
  have "map_of (operations s) (op_operation_id op) \<noteq> None"
    using own store_okD(3) by (fastforce simp: owned_def)
  then show "owned key op (save_result (op_operation_id op) r s)"
    using own unfolding owned_def store_ok_def save_result_def by auto
  show "ledger (save_result (op_operation_id op) r s) = (ledger s)(key \<mapsto> r)"
    using own owned_key_unique [OF own]
    by (auto simp: fun_eq_iff ledger_def find_duplicate_def save_result_def owned_def split: option.splits)
qed

lemma record_terminal_owned:
  assumes "owned key op s"
  obtains t where "record_terminal_result op r now s = (Inr r, t)" and "store_ok t"
    and "ledger t = (ledger s)(key \<mapsto> r)"
proof -
  let ?op = "op\<lparr>op_status := (case tr_status r of Res_cancelled \<Rightarrow> Op_cancelled | Res_success \<Rightarrow> Op_succeeded | _ \<Rightarrow> Op_failed),
    op_error_code := tr_error r, op_result_summary := Some (tr_summary r), op_timing_ms := tr_timing_ms r,
    op_artifacts := tr_artifacts r, op_updated_at := now\<rparr>"
  have same: "op_operation_id ?op = op_operation_id op" "key_of ?op = key_of op" by (simp_all add: key_of_def)
  note u = owned_update [OF assms same]
  have "record_terminal_result op r now s = (Inr r, save_result (op_operation_id ?op) r
      (s\<lparr>operations := AList.update (op_operation_id op) ?op (operations s)\<rparr>))"
    using u(1) by (simp add: record_terminal_result_def Let_def)
  with owned_save_result [OF u(2), of r] that show thesis by (simp add: owned_def)
qed

lemma obtain_operation_owned:
  assumes ok: "store_ok s" and fresh: "find_duplicate (call_key_of call) s = None"
    and got: "obtain_operation gw call descriptor s = (Inr op, t)"
  shows "owned (call_key_of call) op t" and "ledger t = ledger s" and "approvals t = approvals s"
proof -
  let ?key = "call_key_of call" and ?new = "new_operation gw call descriptor"
  have "owned ?key op t \<and> ledger t = ledger s \<and> approvals t = approvals s"
  proof (cases "find_operation ?key s")
    case (Some existing)
    then obtain oid where oid: "map_of (duplicate_keys s) ?key = Some oid" "map_of (operations s) oid = Some existing"
      by (auto simp: find_operation_def split: option.splits)
    from got Some have "op = existing" "t = s" by (simp_all add: obtain_operation_def)
    with oid ok store_okD(1) [OF ok oid(2)] store_okD(3) [OF ok oid(1)] show ?thesis by (auto simp: owned_def)
  next
    case None
    have nodup: "map_of (duplicate_keys s) ?key = None"
      using None store_okD(3) [OF ok] by (fastforce simp: find_operation_def split: option.splits)
    have key: "key_of ?new = ?key" by (simp add: key_of_def new_operation_def call_key_of_def)
    show ?thesis
    proof (cases "map_of (operations s) (op_operation_id ?new)")
      case (Some other)
      then have "obtain_operation gw call descriptor s = (Inl OperationDuplicate, s)"
        using None by (simp add: obtain_operation_def save_operation_def)
      with got show ?thesis by simp
    next
      case newid: None
      let ?t = "s\<lparr>operations := AList.update (op_operation_id ?new) ?new (operations s),
          duplicate_keys := AList.update ?key (op_operation_id ?new) (duplicate_keys s)\<rparr>"
      have "op = ?new" "t = ?t"
        using got None nodup newid key by (auto simp: obtain_operation_def save_operation_def)
      moreover have "store_ok ?t"
        unfolding store_ok_def
      proof (intro conjI allI impI, goal_cases)
        case (1 oid op'')
        then show ?case using store_okD(1) [OF ok] by (auto split: if_splits)
      next
        case (2 oid op'')
        then show ?case using store_okD(2) [OF ok, of oid op''] key newid nodup by (auto split: if_splits)
      next
        case (3 k oid)
        then show ?case using store_okD(3) [OF ok, of k oid] key newid by (auto split: if_splits)
      next
        case (4 oid)
        then show ?case using store_okD(4) [OF ok] by (auto split: if_splits)
      qed
      moreover have "ledger ?t = ledger s"
        using store_okD(4) [OF ok newid] nodup by (auto simp: fun_eq_iff ledger_def find_duplicate_def cong: option.case_cong)
      ultimately show ?thesis using key by (simp add: owned_def)
    qed
  qed
  then show "owned ?key op t" "ledger t = ledger s" "approvals t = approvals s" by blast+
qed

lemma obtain_operation_error:
  "obtain_operation gw call descriptor s = (Inl e, t) \<Longrightarrow> t = s"
  by (auto simp: obtain_operation_def save_operation_def split: option.splits if_splits)

section \<open>Refinement of the ledger\<close>

text \<open>What a run of the gateway does to the ledger: it leaves it alone, or records the result it returns.\<close>

definition ledger_run :: "call_key \<Rightarrow> tool_state \<Rightarrow> gateway_run \<Rightarrow> bool" where
  "ledger_run key s r = (case r of
     (Inl e, _, t) \<Rightarrow> store_ok t \<and> ledger t = ledger s
   | (Inr v, _, t) \<Rightarrow> store_ok t \<and> (ledger t = (ledger s)(key \<mapsto> v)
        \<or> ledger t = ledger s \<and> tr_status v = Res_awaiting_approval))"

lemma finish_recorded:
  assumes "owned key op s"
  shows "ledger_run key s (finish (record_terminal_result op r now s) steps)"
proof -
  obtain t where "record_terminal_result op r now s = (Inr r, t)" "store_ok t" "ledger t = (ledger s)(key \<mapsto> r)"
    using assms by (rule record_terminal_owned)
  then show ?thesis by (simp add: finish_def ledger_run_def)
qed

lemma ledger_run_cong: "ledger s = ledger s' \<Longrightarrow> ledger_run key s r = ledger_run key s' r"
  by (simp add: ledger_run_def split: prod.split sum.split)

lemma perform_ledger:
  assumes own: "owned key op s"
  shows "ledger_run key s (perform gw call descriptor op s)"
proof -
  let ?oid = "op_operation_id op"
  define s1 where "s1 = append_event ?oid (Ev_started ?oid (c_tool_id call) (c_tool_call_id call) (td_risk descriptor)
    (td_source descriptor) (td_server_id descriptor) (op_arguments_summary op) (op_risk_reason op)) s"
  have own1: "owned key op s1" and led1: "ledger s1 = ledger s" using own by (simp_all add: s1_def)
  have own2: "owned key op (append_event ?oid ev s1)" and led2: "ledger (append_event ?oid ev s1) = ledger s" for ev
    using own1 led1 by simp_all
  show ?thesis
  proof (cases "g_executor gw")
    case None
    then show ?thesis using own1 led1
      by (simp add: perform_def Let_def emit_def ledger_run_def s1_def [symmetric] owned_def)
  next
    case (Some execute)
    obtain e n where ex: "execute_attempts descriptor (execute descriptor (c_arguments call) (c_run_id call) (c_owner_id call))
        0 (g_retry_attempts gw) = (e, n)" by force
    note run = perform_def Let_def emit_def case_prod_conv Some option.case ex s1_def [symmetric] append_Nil
    show ?thesis
    proof (cases e)
      case (Exec_result result)
      let ?safe = "sanitize_result gw call ?oid result"
      let ?op = "op\<lparr>op_status := (if tr_status ?safe = Res_success then Op_succeeded else Op_failed),
        op_result_summary := Some (tr_summary ?safe), op_timing_ms := tr_timing_ms ?safe,
        op_artifacts := tr_artifacts ?safe, op_updated_at := c_later call\<rparr>"
      have same: "op_operation_id ?op = ?oid" "key_of ?op = key_of op" by (simp_all add: key_of_def)
      note u = owned_update [OF own1 same]
      note r = owned_save_result [OF u(2), of ?safe, unfolded same]
      show ?thesis
        unfolding run Exec_result exec_end.case u(1) sum.case
        using r led1 by (simp add: ledger_run_def owned_def)
    next
      case (Exec_raised code)
      let ?op = "op\<lparr>op_status := Op_failed, op_error_code := Some (case code of None \<Rightarrow> lit ''tool_execution_failed'' | Some c \<Rightarrow> c),
        op_updated_at := c_later call\<rparr>"
      have same: "op_operation_id ?op = ?oid" "key_of ?op = key_of op" by (simp_all add: key_of_def)
      note u = owned_update [OF own1 same]
      show ?thesis
        unfolding run Exec_raised exec_end.case u(1) sum.case
        using u(2) led1 by (simp add: ledger_run_def owned_def)
    next
      case Exec_cancelled
      show ?thesis
        unfolding run Exec_cancelled exec_end.case using finish_recorded [OF own2] ledger_run_cong [OF led2] by blast
    next
      case Exec_timeout
      show ?thesis
        unfolding run Exec_timeout exec_end.case using finish_recorded [OF own2] ledger_run_cong [OF led2] by blast
    qed
  qed
qed

lemma decided_Some:
  "decided x = Some item \<longleftrightarrow> x = Some item \<and> (ap_status item = Ap_approved \<or> ap_status item = Ap_rejected)"
  by (auto simp: decided_def split: option.splits if_splits)

text \<open>Looking for the approval of a call: a decided one of this very call, or none.\<close>

lemma resolve_approval_owned:
  assumes own: "owned key op s"
  obtains a op' t where "resolve_approval gw call op reason s = (Inr (a, op'), t)" and "owned key op' t"
    and "ledger t = ledger s"
    and "\<And>item. a = Some item \<Longrightarrow> op' = op \<and> t = s \<and> (ap_status item = Ap_approved \<or> ap_status item = Ap_rejected)
          \<and> (\<exists>i. resolve_identity i (identity_of call op) s = Some item)"
proof (cases "(case op_approval_id op of None \<Rightarrow> None | Some a \<Rightarrow> resolve_identity a (identity_of call op) s)")
  case (Some item)
  then obtain i where "resolve_identity i (identity_of call op) s = Some item" by (auto split: option.splits)
  with Some own show thesis
    by (intro that [of "decided (Some item)" op s]) (auto simp: resolve_approval_def Let_def decided_Some)
next
  case latest: None
  show thesis
  proof (cases "c_approval_id call")
    case (Some i)
    with latest own show thesis
      by (intro that [of "decided (resolve_identity i (identity_of call op) s)" op s])
        (auto simp: resolve_approval_def Let_def decided_Some)
  next
    case None
    obtain created u where c: "create_approval (g_ttl gw) (identity_of call op) reason (c_now call) s = (created, u)" by force
    then have u: "\<exists>a. u = s\<lparr>approvals := a\<rparr>" by (auto simp: create_approval_def Let_def)
    then have own': "owned key op u" and led: "ledger u = ledger s" using own by auto
    let ?op = "op\<lparr>op_approval_id := Some (ap_approval_id created)\<rparr>"
    have same: "op_operation_id ?op = op_operation_id op" "key_of ?op = key_of op" by (simp_all add: key_of_def)
    note upd = owned_update [OF own' same]
    let ?u = "u\<lparr>operations := AList.update (op_operation_id op) ?op (operations u)\<rparr>"
    have "resolve_approval gw call op reason s = (Inr (None, ?op), ?u)"
      unfolding resolve_approval_def Let_def latest None c using upd(1) by simp
    with upd(2) led show thesis by (intro that [of None ?op ?u]) auto
  qed
qed

lemma ask_approval_ledger:
  assumes own: "owned key op s"
  shows "ledger_run key s (ask_approval gw call descriptor op s)"
proof -
  obtain a op' t where r: "resolve_approval gw call op (needs_approval_text (td_public_name descriptor)) s = (Inr (a, op'), t)"
    and own': "owned key op' t" and led: "ledger t = ledger s"
    using resolve_approval_owned [OF own] by metis
  note cong = ledger_run_cong [OF led, of key]
  have rec: "ledger_run key s (finish (record_terminal_result op' v now t) steps)" for v now steps
    using finish_recorded [OF own'] cong by blast
  show ?thesis
  proof (cases a)
    case None
    have "ledger_run key s (Inr (awaiting op' c), steps, append_event i ev t)" for c steps i ev
      using own' led by (simp add: ledger_run_def awaiting_def result_of_def owned_def)
    then show ?thesis using rec
      unfolding ask_approval_def r None Let_def emit_def by (auto split: option.splits)
  next
    case (Some item)
    let ?op = "op'\<lparr>op_approval_id := Some (ap_approval_id item), op_status := Op_running\<rparr>"
    have same: "op_operation_id ?op = op_operation_id op'" "key_of ?op = key_of op'" by (simp_all add: key_of_def)
    note upd = owned_update [OF own' same]
    from perform_ledger [OF upd(2)] have "ledger_run key s (perform gw call descriptor ?op
        (t\<lparr>operations := AList.update (op_operation_id op') ?op (operations t)\<rparr>))"
      using ledger_run_cong [of "t\<lparr>operations := AList.update (op_operation_id op') ?op (operations t)\<rparr>" s key] led by simp
    then show ?thesis using rec upd(1)
      unfolding ask_approval_def r Some Let_def by auto
  qed
qed

text \<open>What a call needs before the gateway looks at risk and approval.\<close>

definition admitted :: "gateway \<Rightarrow> tool_call \<Rightarrow> tool_descriptor \<Rightarrow> bool" where
  "admitted gw call descriptor \<longleftrightarrow>
     (\<forall>r. ts_run_id (c_snapshot call) = Some r \<longrightarrow> r = c_run_id call)
     \<and> (\<forall>authorize. g_authorizer gw = Some authorize \<longrightarrow> authorize (c_run_id call) (c_owner_id call))
     \<and> by_id (c_snapshot call) (c_tool_id call) = Some descriptor \<and> td_exposed descriptor
     \<and> validate_arguments (g_schema gw) (td_input_schema descriptor) (c_arguments call) = Some (Inr ())"

definition wrong_run :: "tool_call \<Rightarrow> bool" where
  "wrong_run call \<longleftrightarrow> (case ts_run_id (c_snapshot call) of None \<Rightarrow> False | Some r \<Rightarrow> r \<noteq> c_run_id call)"

definition unauthorized :: "gateway \<Rightarrow> tool_call \<Rightarrow> bool" where
  "unauthorized gw call \<longleftrightarrow>
     (case g_authorizer gw of None \<Rightarrow> False | Some authorize \<Rightarrow> \<not> authorize (c_run_id call) (c_owner_id call))"

lemma admitted_iff:
  "admitted gw call descriptor \<longleftrightarrow> \<not> wrong_run call \<and> \<not> unauthorized gw call
     \<and> by_id (c_snapshot call) (c_tool_id call) = Some descriptor \<and> td_exposed descriptor
     \<and> validate_arguments (g_schema gw) (td_input_schema descriptor) (c_arguments call) = Some (Inr ())"
proof -
  have "\<not> wrong_run call \<longleftrightarrow> (\<forall>r. ts_run_id (c_snapshot call) = Some r \<longrightarrow> r = c_run_id call)"
    by (simp add: wrong_run_def split: option.split)
  moreover have "\<not> unauthorized gw call \<longleftrightarrow> (\<forall>authorize. g_authorizer gw = Some authorize \<longrightarrow> authorize (c_run_id call) (c_owner_id call))"
    by (simp add: unauthorized_def split: option.split)
  ultimately show ?thesis by (simp only: admitted_def)
qed

lemmas invoke_unfold = invoke_def wrong_run_def [symmetric] unauthorized_def [symmetric]

lemma invoke_admitted:
  assumes "find_duplicate (call_key_of call) s = None" and "admitted gw call descriptor"
  shows "invoke gw call s = (case obtain_operation gw call descriptor s of
      (Inl e, t) \<Rightarrow> (Inl (Tool_raised e), [], t)
    | (Inr op, t) \<Rightarrow> (case td_risk descriptor of
        Block \<Rightarrow> finish (record_terminal_result op (rejected (c_tool_call_id call) (op_operation_id op) blocked_text
                   (error_code ToolBlocked)) (c_later call) t) []
      | Warn \<Rightarrow> ask_approval gw call descriptor op t
      | Safe \<Rightarrow> perform gw call descriptor op t))"
proof -
  have d: "\<not> wrong_run call" "\<not> unauthorized gw call" "by_id (c_snapshot call) (c_tool_id call) = Some descriptor"
    "td_exposed descriptor" "validate_arguments (g_schema gw) (td_input_schema descriptor) (c_arguments call) = Some (Inr ())"
    using assms(2) by (simp_all add: admitted_iff)
  show ?thesis by (simp only: invoke_unfold d if_False assms(1) option.case simp_thms sum.case unit.case)
qed

lemma invoke_refused:
  assumes fresh: "find_duplicate (call_key_of call) s = None" and no: "\<And>descriptor. \<not> admitted gw call descriptor"
  shows "\<exists>e. invoke gw call s = (Inl e, [], s)"
proof (cases "wrong_run call \<or> unauthorized gw call")
  case True
  then show ?thesis by (auto simp: invoke_unfold)
next
  case False
  note run = invoke_unfold fresh
  show ?thesis
  proof (cases "by_id (c_snapshot call) (c_tool_id call)")
    case None
    with False show ?thesis by (simp add: run)
  next
    case (Some descriptor)
    show ?thesis
    proof (cases "td_exposed descriptor")
      case True
      with no [of descriptor] False Some
      have "validate_arguments (g_schema gw) (td_input_schema descriptor) (c_arguments call) \<noteq> Some (Inr ())"
        by (simp add: admitted_iff)
      then consider "validate_arguments (g_schema gw) (td_input_schema descriptor) (c_arguments call) = None"
        | e where "validate_arguments (g_schema gw) (td_input_schema descriptor) (c_arguments call) = Some (Inl e)"
        by (metis not_None_eq old.sum.exhaust old.unit.exhaust)
      then show ?thesis using False Some True by cases (simp_all add: run)
    qed (use False Some in \<open>simp add: run\<close>)
  qed
qed

lemma invoke_cases:
  assumes fresh: "find_duplicate (call_key_of call) s = None"
  obtains (refused) e where "invoke gw call s = (Inl e, [], s)"
  | (taken) descriptor op t where "admitted gw call descriptor" and "obtain_operation gw call descriptor s = (Inr op, t)"
    and "invoke gw call s = (case td_risk descriptor of
        Block \<Rightarrow> finish (record_terminal_result op (rejected (c_tool_call_id call) (op_operation_id op) blocked_text
                   (error_code ToolBlocked)) (c_later call) t) []
      | Warn \<Rightarrow> ask_approval gw call descriptor op t
      | Safe \<Rightarrow> perform gw call descriptor op t)"
proof (cases "\<exists>descriptor. admitted gw call descriptor")
  case True
  then obtain descriptor where a: "admitted gw call descriptor" by blast
  note inv = invoke_admitted [OF fresh a]
  obtain r t where o: "obtain_operation gw call descriptor s = (r, t)" by force
  show thesis
  proof (cases r)
    case (Inl e)
    with obtain_operation_error [of gw call descriptor s e t] o inv refused show thesis by simp
  next
    case (Inr op)
    show thesis by (rule taken [OF a o [unfolded Inr]]) (simp only: inv o Inr prod.case sum.case)
  qed
next
  case False
  then show thesis using invoke_refused [OF fresh] refused by blast
qed

lemma invoke_ledger:
  assumes ok: "store_ok s"
  shows "(case ledger s (call_key_of call) of
      Some r \<Rightarrow> invoke gw call s =
        ((if wrong_run call \<or> unauthorized gw call then Inl (Tool_raised RunGrantInvalid) else Inr r), [], s)
    | None \<Rightarrow> ledger_run (call_key_of call) s (invoke gw call s))"
proof (cases "ledger s (call_key_of call)")
  case (Some r)
  then show ?thesis by (auto simp: ledger_def invoke_unfold)
next
  case None
  then have fresh: "find_duplicate (call_key_of call) s = None" by (simp add: ledger_def)
  have "ledger_run (call_key_of call) s (invoke gw call s)"
    using fresh
  proof (cases rule: invoke_cases [where gw = gw])
    case (refused e)
    then show ?thesis using ok by (simp add: ledger_run_def)
  next
    case (taken descriptor op t)
    note o = obtain_operation_owned [OF ok fresh taken(2)]
    have "ledger_run (call_key_of call) t (invoke gw call s)"
      unfolding taken(3)
      using finish_recorded [OF o(1)] ask_approval_ledger [OF o(1)] perform_ledger [OF o(1)] by (simp split: risk_level.split)
    then show ?thesis using ledger_run_cong [OF o(2)] by blast
  qed
  with None show ?thesis by simp
qed

text \<open>C31: To its callers the gateway is a ledger of results. A call whose key has an entry gets that
  entry, unless its catalogue belongs to another run or the authorizer refuses its run: then, and only then, it raises
  \<open>RunGrantInvalid\<close>; either way without any execution or change. Any other call either leaves the ledger as it is (an
  exception, or a result that asks for an approval) or adds exactly the result it returns under its
  own key. The store stays well-formed, and no entry ever changes.\<close>

theorem gateway_refines_ledger:
  assumes ok: "store_ok s"
  shows "(case ledger s (call_key_of call) of
      Some r \<Rightarrow> invoke gw call s =
        ((if wrong_run call \<or> unauthorized gw call then Inl (Tool_raised RunGrantInvalid) else Inr r), [], s)
    | None \<Rightarrow> ledger_run (call_key_of call) s (invoke gw call s))"
  by (rule invoke_ledger [OF ok])

section \<open>Executions\<close>

definition is_execute :: "gateway_step \<Rightarrow> bool" where
  "is_execute step \<longleftrightarrow> (case step of Execute _ _ _ _ \<Rightarrow> True | Emit _ \<Rightarrow> False)"

text \<open>The executions among the steps of a run.\<close>

definition executions :: "gateway_run \<Rightarrow> gateway_step list" where
  "executions r = filter is_execute (fst (snd r))"

lemma executions_simps [simp]:
  "executions (v, steps, t) = filter is_execute steps" "executions (finish r steps) = filter is_execute steps"
  "is_execute (Emit e) = False" "is_execute (Execute d a r' o') = True"
  by (simp_all add: executions_def finish_def is_execute_def split: prod.split sum.split)

definition repeatable :: "tool_descriptor \<Rightarrow> bool" where
  "repeatable descriptor \<longleftrightarrow> td_source descriptor = Mcp \<and> td_risk descriptor = Safe"

lemma execute_attempts_bound:
  "snd (execute_attempts descriptor run attempt left) \<le> (if repeatable descriptor then left + 1 else 1)"
proof (induction descriptor run attempt left rule: execute_attempts.induct)
  case (2 descriptor run attempt left)
  have "retryable descriptor e \<Longrightarrow> repeatable descriptor" for e
    by (auto simp: retryable_def repeatable_def split: exec_end.splits option.splits)
  with 2 show ?case by (auto simp: map_prod_def split: prod.splits)
qed simp

lemma perform_executes:
  assumes "g_executor gw = Some execute" and "execute_attempts descriptor
      (execute descriptor (c_arguments call) (c_run_id call) (c_owner_id call)) 0 (g_retry_attempts gw) = (e, n)"
  shows "executions (perform gw call descriptor op s)
      = replicate n (Execute descriptor (c_arguments call) (c_run_id call) (c_owner_id call))"
  by (simp add: perform_def Let_def emit_def assms filter_replicate split: exec_end.split prod.split sum.split)

lemma perform_executions:
  obtains n where "executions (perform gw call descriptor op s)
      = replicate n (Execute descriptor (c_arguments call) (c_run_id call) (c_owner_id call))"
    and "n \<le> (if repeatable descriptor then g_retry_attempts gw + 1 else 1)"
proof (cases "g_executor gw")
  case None
  then show thesis by (intro that [of 0]) (simp_all add: perform_def Let_def emit_def)
next
  case (Some execute)
  obtain e n where ex: "execute_attempts descriptor (execute descriptor (c_arguments call) (c_run_id call) (c_owner_id call))
      0 (g_retry_attempts gw) = (e, n)" by force
  have "n \<le> (if repeatable descriptor then g_retry_attempts gw + 1 else 1)"
    using execute_attempts_bound [of descriptor "execute descriptor (c_arguments call) (c_run_id call) (c_owner_id call)" 0
        "g_retry_attempts gw"] ex by simp
  with perform_executes [OF Some ex] that show thesis by blast
qed

lemma ask_approval_executions:
  assumes "executions (ask_approval gw call descriptor op s) \<noteq> []"
  obtains running u i item where "executions (ask_approval gw call descriptor op s) = executions (perform gw call descriptor running u)"
    and "resolve_identity i (identity_of call op) s = Some item" and "ap_status item = Ap_approved"
proof -
  obtain r t where r: "resolve_approval gw call op (needs_approval_text (td_public_name descriptor)) s = (r, t)" by force
  obtain approval op' where v: "r = Inr (Some approval, op')"
    using assms by (cases r) (auto simp: ask_approval_def r Let_def emit_def split: option.splits if_splits)
  have "decided (case op_approval_id op of None \<Rightarrow> None | Some a \<Rightarrow> resolve_identity a (identity_of call op) s) = Some approval
      \<or> (\<exists>i. decided (resolve_identity i (identity_of call op) s) = Some approval)"
    using r by (auto simp: v resolve_approval_def Let_def split: if_splits option.splits prod.splits sum.splits)
  then obtain i where i: "decided (resolve_identity i (identity_of call op) s) = Some approval"
    by (auto simp: decided_Some split: option.splits)
  let ?op = "op'\<lparr>op_approval_id := Some (ap_approval_id approval), op_status := Op_running\<rparr>"
  have ap: "ap_status approval \<noteq> Ap_rejected" using assms by (auto simp: ask_approval_def r v)
  then obtain w u where u: "update_operation ?op t = (Inr w, u)"
    using assms by (auto simp: ask_approval_def r v Let_def split: prod.splits sum.splits)
  have "ask_approval gw call descriptor op s = perform gw call descriptor ?op u"
    using ap u by (simp add: ask_approval_def r v Let_def)
  with i ap that show thesis by (auto simp: decided_Some)
qed

text \<open>C30: The gateway executes a tool only when the catalogue belongs to the run, the run is authorised, no
  result is recorded for the call, the tool is in the catalogue and exposed, its arguments satisfy its
  schema, and it is a safe tool, or a \<open>warn\<close> tool with an approved approval of this very owner, run, tool
  and call; a blocked tool is never executed. It passes on exactly the arguments of the call, once,
  or for a safe MCP tool at most \<open>retry_attempts\<close> times more.\<close>

theorem gateway_executes_only_allowed:
  assumes ran: "executions (invoke gw call s) \<noteq> []"
  shows "find_duplicate (call_key_of call) s = None \<and> (\<exists>descriptor. admitted gw call descriptor
    \<and> td_risk descriptor \<noteq> Block
    \<and> (td_risk descriptor = Warn \<longrightarrow> (\<exists>i item. map_of (approvals s) i = Some item \<and> ap_status item = Ap_approved
          \<and> ap_run_id item = c_run_id call \<and> ap_owner_id item = c_owner_id call
          \<and> ap_tool_id item = c_tool_id call \<and> ap_tool_call_id item = c_tool_call_id call))
    \<and> set (executions (invoke gw call s)) = {Execute descriptor (c_arguments call) (c_run_id call) (c_owner_id call)}
    \<and> length (executions (invoke gw call s)) \<le> (if repeatable descriptor then g_retry_attempts gw + 1 else 1))"
proof -
  have fresh: "find_duplicate (call_key_of call) s = None"
    using ran by (auto simp: invoke_unfold split: if_splits option.splits)
  then show ?thesis
  proof (cases rule: invoke_cases [where gw = gw])
    case (refused e)
    with ran show ?thesis by simp
  next
    case (taken descriptor op t)
    have ap: "approvals t = approvals s"
      using taken(2) by (auto simp: obtain_operation_def save_operation_def split: option.splits if_splits)
    have runs: "?thesis" if ex: "executions (invoke gw call s) = executions (perform gw call descriptor running u)"
      and risk: "td_risk descriptor \<noteq> Block" and appr: "td_risk descriptor = Warn \<Longrightarrow>
        \<exists>i item. resolve_identity i (identity_of call op) t = Some item \<and> ap_status item = Ap_approved" for running u
    proof -
      from perform_executions [of gw call descriptor running u] obtain n where
        n: "executions (invoke gw call s) = replicate n (Execute descriptor (c_arguments call) (c_run_id call) (c_owner_id call))"
          "n \<le> (if repeatable descriptor then g_retry_attempts gw + 1 else 1)" unfolding ex by metis
      with ran have "n \<noteq> 0" by auto
      moreover have "\<exists>i item. map_of (approvals s) i = Some item \<and> ap_status item = Ap_approved
          \<and> ap_run_id item = c_run_id call \<and> ap_owner_id item = c_owner_id call
          \<and> ap_tool_id item = c_tool_id call \<and> ap_tool_call_id item = c_tool_call_id call" if "td_risk descriptor = Warn"
        using appr [OF that] ap
        by (auto simp: resolve_identity_def get_approval_def identity_of_def split: option.splits sum.splits if_splits)
      ultimately show ?thesis using fresh taken(1) risk n by (intro conjI exI [of _ descriptor]) auto
    qed
    show ?thesis
    proof (cases "td_risk descriptor")
      case Safe
      with taken(3) runs [of op t] show ?thesis by simp
    next
      case Warn
      with taken(3) ran have "executions (ask_approval gw call descriptor op t) \<noteq> []" by simp
      then show ?thesis
      proof (rule ask_approval_executions)
        fix running u i item
        assume "executions (ask_approval gw call descriptor op t) = executions (perform gw call descriptor running u)"
          and "resolve_identity i (identity_of call op) t = Some item" and "ap_status item = Ap_approved"
        then show ?thesis using Warn taken(3) by (intro runs [of running u]) auto
      qed
    next
      case Block
      with taken(3) ran show ?thesis by simp
    qed
  qed
qed

section \<open>An example\<close>

definition demo_tool :: tool_descriptor where
  "demo_tool = \<lparr>td_tool_id = [1], td_public_name = [1], td_source = Native, td_description = [], td_input_schema = JObj [],
     td_server_id = None, td_risk = Safe, td_version = [1], td_exposed = True, td_unavailable_reason = None, td_metadata = []\<rparr>"

definition demo_result :: tool_result where
  "demo_result = result_of [2] [3] Res_success (lit ''ok'') None"

definition demo_gateway :: gateway where
  "demo_gateway = \<lparr>g_authorizer = None,
     g_schema = \<lparr>sl_index = (\<lambda>_. None), sl_check_schema = (\<lambda>_. True), sl_validate = (\<lambda>_ _. True)\<rparr>,
     g_executor = Some (\<lambda>_ _ _ _ _. Exec_result demo_result), g_retry_attempts = 1, g_artifact_store = None,
     g_redact_text = id, g_lower = id, g_dumps = (\<lambda>_. []), g_ttl = minutes 5\<rparr>"

definition demo_call :: tool_call where
  "demo_call = \<lparr>c_snapshot = \<lparr>ts_snapshot_id = [], ts_created_at = 0, ts_policy_version = [], ts_catalog_revision = 1,
       ts_sandbox_state = [], ts_tools = [demo_tool], ts_run_id = None\<rparr>,
     c_run_id = [5], c_owner_id = [6], c_tool_call_id = [2], c_operation_key = [7], c_tool_id = [1], c_arguments = [],
     c_approval_id = None, c_new_id = [3], c_now = 0, c_later = 1, c_elapsed_ms = 4\<rparr>"

definition no_operations :: tool_state where
  "no_operations = \<lparr>operations = [], duplicate_keys = [], results = [], op_events = [], approvals = []\<rparr>"

lemma demo_admitted: "admitted demo_gateway demo_call demo_tool"
  by (simp add: admitted_def demo_gateway_def demo_call_def demo_tool_def by_id_def validate_arguments_def schema_supported_def
      references_are_local_and_resolvable_def MAX_SCHEMA_NODES_def value_ok_def REFERENCE_KEYWORDS_def jget_def children_def)

lemma demo_fresh: "find_duplicate (call_key_of demo_call) no_operations = None" "store_ok no_operations"
  by (simp_all add: find_duplicate_def no_operations_def store_ok_def)

lemma demo_executions: "executions (invoke demo_gateway demo_call no_operations) = [Execute demo_tool [] [5] [6]]"
proof -
  let ?op = "new_operation demo_gateway demo_call demo_tool"
  have "\<exists>t. obtain_operation demo_gateway demo_call demo_tool no_operations = (Inr ?op, t)"
    by (simp add: obtain_operation_def find_operation_def save_operation_def no_operations_def)
  then obtain t where t: "obtain_operation demo_gateway demo_call demo_tool no_operations = (Inr ?op, t)" by blast
  have "invoke demo_gateway demo_call no_operations = perform demo_gateway demo_call demo_tool ?op t"
    unfolding invoke_admitted [OF demo_fresh(1) demo_admitted] t by (simp add: demo_tool_def)
  moreover have "g_executor demo_gateway = Some (\<lambda>_ _ _ _ _. Exec_result demo_result)"
    "execute_attempts demo_tool (\<lambda>_. Exec_result demo_result) 0 (g_retry_attempts demo_gateway) = (Exec_result demo_result, 1)"
    by (simp_all add: demo_gateway_def retryable_def)
  note perform_executes [OF this]
  ultimately show ?thesis by (simp add: demo_call_def)
qed

theorem gateway_refines_ledger_witness:
  "ledger no_operations (call_key_of demo_call) = None
   \<and> ledger_run (call_key_of demo_call) no_operations (invoke demo_gateway demo_call no_operations)"
  using gateway_refines_ledger [OF demo_fresh(2), of demo_call demo_gateway] demo_fresh(1) by (simp add: ledger_def)

theorem gateway_executes_only_allowed_witness:
  "executions (invoke demo_gateway demo_call no_operations) = [Execute demo_tool [] [5] [6]]
   \<and> (\<exists>descriptor. admitted demo_gateway demo_call descriptor \<and> td_risk descriptor \<noteq> Block)"
proof -
  have "executions (invoke demo_gateway demo_call no_operations) \<noteq> []" by (simp add: demo_executions)
  from gateway_executes_only_allowed [OF this] show ?thesis unfolding demo_executions by blast
qed

end
