(* ===== verification/Tool_System.thy ===== *)
theory Tool_System
  imports Gateway_Properties Transition_System
begin

text \<open>
  The tool domain as a system of steps: calls through the gateway, decisions on approvals,
  cancellations and sandbox transitions, in any order. Results, once recorded, are permanent; so
  are decisions.
\<close>

section \<open>Steps\<close>

datatype tool_op =
    Do_invoke gateway tool_call
  | Do_decide str str bool "str option" datetime
  | Do_cancel_by_run str str datetime
  | Do_sandbox str str str "str option" datetime

primrec exec_tool :: "tool_op \<Rightarrow> tool_state \<Rightarrow> tool_state" where
  "exec_tool (Do_invoke gw call) s = snd (snd (invoke gw call s))"
| "exec_tool (Do_decide i owner approved reason now) s = snd (decide_detailed i owner approved reason now s)"
| "exec_tool (Do_cancel_by_run run owner now) s = cancel_by_run run owner now s"
| "exec_tool (Do_sandbox i expected new_state generation now) s = snd (compare_and_set_sandbox_state i expected new_state generation now s)"

definition always :: "tool_op \<Rightarrow> tool_state \<Rightarrow> bool" where
  "always op s \<longleftrightarrow> True"

definition ledger_le :: "tool_state \<Rightarrow> tool_state \<Rightarrow> bool" where
  "ledger_le s t \<longleftrightarrow> ledger s \<subseteq>\<^sub>m ledger t"

lemma ledger_run_le:
  assumes "ledger_run key s r" and "ledger s key = None"
  shows "store_ok (snd (snd r))" and "ledger_le s (snd (snd r))"
  using assms by (auto simp: ledger_run_def ledger_le_def map_le_def dom_def split: prod.splits sum.splits)

lemma invoke_le:
  assumes ok: "store_ok s"
  shows "store_ok (snd (snd (invoke gw call s))) \<and> ledger_le s (snd (snd (invoke gw call s)))"
proof (cases "ledger s (call_key_of call)")
  case None
  with invoke_ledger [OF ok, of call gw] ledger_run_le [of "call_key_of call" s "invoke gw call s"] show ?thesis by simp
next
  case (Some r)
  with invoke_ledger [OF ok, of call gw] ok show ?thesis by (auto simp: ledger_le_def)
qed

lemma decide_parts: "\<exists>a. snd (decide_detailed i owner approved reason now s) = s\<lparr>approvals := a\<rparr>"
  by (auto simp: decide_detailed_def Let_def get_approval_def split: option.splits intro: exI [of _ "approvals s"])

lemma sandbox_parts:
  assumes "store_ok s"
  shows "store_ok (snd (compare_and_set_sandbox_state i expected new_state generation now s))
    \<and> ledger (snd (compare_and_set_sandbox_state i expected new_state generation now s)) = ledger s"
proof (cases "map_of (operations s) i")
  case (Some op)
  then have own: "owned (key_of op) op s" using assms store_okD [OF assms] by (simp add: owned_def)
  have id: "op_operation_id op = i" using store_okD(1) [OF assms Some] .
  let ?op = "op\<lparr>op_sandbox_state := new_state, op_sandbox_generation_id := generation, op_updated_at := now\<rparr>"
  have "op_operation_id ?op = op_operation_id op" "key_of ?op = key_of op" by (simp_all add: key_of_def)
  from owned_update(2) [OF own this] show ?thesis
    using assms Some id by (simp add: compare_and_set_sandbox_state_def owned_def)
qed (use assms in \<open>simp add: compare_and_set_sandbox_state_def\<close>)

lemma tool_step:
  assumes "store_ok s"
  shows "store_ok (exec_tool op s) \<and> ledger_le s (exec_tool op s)"
proof (cases op)
  case (Do_invoke gw call)
  with invoke_le [OF assms] show ?thesis by simp
next
  case (Do_decide i owner approved reason now)
  obtain a where "exec_tool op s = s\<lparr>approvals := a\<rparr>" using decide_parts Do_decide by force
  with assms show ?thesis by (simp add: ledger_le_def)
next
  case (Do_cancel_by_run run owner now)
  with assms show ?thesis by (simp add: cancel_by_run_def ledger_le_def)
next
  case (Do_sandbox i expected new_state generation now)
  with sandbox_parts [OF assms] show ?thesis by (simp add: ledger_le_def)
qed

interpretation tools: ordered_system exec_tool always no_operations store_ok ledger_le
proof unfold_locales
  show "store_ok no_operations" by (rule demo_fresh(2))
  show "store_ok (exec_tool op s)" "ledger_le s (exec_tool op s)" if "store_ok s" for op s
    using tool_step [OF that] by blast+
  show "ledger_le s s" for s by (simp add: ledger_le_def)
  show "ledger_le s u" if "ledger_le s t" "ledger_le t u" for s t u
    using that unfolding ledger_le_def by (rule map_le_trans)
qed

text \<open>C32: A recorded result is permanent: whatever happens in the tool domain after it has been recorded (other
  calls, decisions, cancellations, sandbox transitions), repeating the call returns that result
  and executes nothing; only when the catalogue of the call belongs to another run, or the authorizer now refuses the run,
  it raises \<open>RunGrantInvalid\<close> instead.\<close>

theorem recorded_result_permanent:
  assumes ok: "store_ok s" and r: "ledger s (call_key_of call) = Some r" and later: "steps exec_tool always s t"
  shows "invoke gw call t =
    ((if wrong_run call \<or> unauthorized gw call then Inl (Tool_raised RunGrantInvalid) else Inr r), [], t)"
proof -
  have "store_ok t" using tools.steps_inv [OF later ok] .
  moreover have "ledger t (call_key_of call) = Some r"
    using tools.steps_le [OF later ok] r unfolding ledger_le_def map_le_def by (metis domI)
  ultimately show ?thesis using invoke_ledger [of t call gw] by simp
qed

text \<open>A state in which the call of the example has been answered.\<close>

definition answered :: tool_state where
  "answered = no_operations\<lparr>operations := [([3], new_operation demo_gateway demo_call demo_tool)],
     duplicate_keys := [(call_key_of demo_call, [3])], results := [([3], demo_result)]\<rparr>"

theorem recorded_result_permanent_witness:
  "invoke demo_gateway demo_call (cancel_by_run [5] [6] 9 answered) = (Inr demo_result, [], cancel_by_run [5] [6] 9 answered)
   \<and> invoke (demo_gateway\<lparr>g_authorizer := Some (\<lambda>run own. False)\<rparr>) demo_call (cancel_by_run [5] [6] 9 answered)
       = (Inl (Tool_raised RunGrantInvalid), [], cancel_by_run [5] [6] 9 answered)"
proof -
  have ok: "store_ok answered"
    by (auto simp: store_ok_def answered_def no_operations_def new_operation_def key_of_def call_key_of_def demo_call_def
        split: if_splits)
  have entry: "ledger answered (call_key_of demo_call) = Some demo_result"
    by (simp add: ledger_def find_duplicate_def answered_def)
  have "steps exec_tool always answered (exec_tool (Do_cancel_by_run [5] [6] 9) answered)"
    by (rule steps_one) (simp add: always_def)
  then have later: "steps exec_tool always answered (cancel_by_run [5] [6] 9 answered)" by simp
  have "\<not> wrong_run demo_call" "\<not> unauthorized demo_gateway demo_call"
    "unauthorized (demo_gateway\<lparr>g_authorizer := Some (\<lambda>run own. False)\<rparr>) demo_call"
    by (simp_all add: wrong_run_def unauthorized_def demo_call_def demo_gateway_def)
  then show ?thesis using recorded_result_permanent [OF ok entry later] by simp
qed

section \<open>Decisions\<close>

definition approvals_ok :: "tool_state \<Rightarrow> bool" where
  "approvals_ok s \<longleftrightarrow> distinct (dkeys (approvals s)) \<and> (\<forall>i item. map_of (approvals s) i = Some item \<longrightarrow> ap_approval_id item = i)"

lemma fold_update_other:
  "\<forall>x \<in> set xs. f x \<noteq> i \<Longrightarrow> map_of (fold (\<lambda>x. AList.update (f x) (g x)) xs d) i = map_of d i"
  by (induction xs arbitrary: d) auto

lemma cancel_keeps_decision:
  assumes ok: "approvals_ok s" and item: "map_of (approvals s) i = Some item" "ap_status item \<noteq> Ap_pending"
  shows "map_of (approvals (cancel_by_run run owner now s)) i = Some item"
proof -
  have "ap_approval_id x \<noteq> i" if "x \<in> snd ` set (approvals s)" "ap_status x = Ap_pending" for x
  proof
    assume eq: "ap_approval_id x = i"
    have "distinct (dkeys (approvals s))" using ok by (simp add: approvals_ok_def)
    from dvalues_iff [OF this, of x] that(1) obtain j where j: "map_of (approvals s) j = Some x" by auto
    then have "j = i" using ok eq by (simp add: approvals_ok_def)
    with j item that(2) show False by simp
  qed
  then show ?thesis using item(1) by (simp add: cancel_by_run_def fold_update_other)
qed

lemma decide_detailed_Inr:
  assumes "decide_detailed i owner approved reason now s = (Inr (item, changed, conflict), t)"
  obtains current where "map_of (approvals s) i = Some current" and "ap_owner_id current = owner"
    and "map_of (approvals t) i = Some item" and "ap_status item \<noteq> Ap_pending"
    and "\<not> changed \<Longrightarrow> t = s \<and> item = current"
    and "changed \<Longrightarrow> ap_status current = Ap_pending \<and> now \<le> ap_expires_at current \<and> \<not> conflict
       \<and> item = current\<lparr>ap_status := (if approved then Ap_approved else Ap_rejected), ap_decided_at := Some now,
            ap_rejected_reason := (if approved then None else reason)\<rparr>
       \<and> t = s\<lparr>approvals := AList.update i item (approvals s)\<rparr>"
    and "conflict \<longleftrightarrow> ap_status item \<noteq> (if approved then Ap_approved else Ap_rejected)"
proof -
  obtain current where current: "map_of (approvals s) i = Some current"
    using assms by (auto simp: decide_detailed_def get_approval_def split: option.splits)
  show thesis
    by (rule that [OF current])
      (use assms current in \<open>auto simp: decide_detailed_def get_approval_def Let_def split: if_splits\<close>)
qed

text \<open>C33: A decision on an approval is made by its owner, not after it has expired, and it is final: deciding
  again, the same way or the other, changes nothing and returns the first decision with a conflict flag
  exactly when it differs; another owner is refused; cancelling runs leaves it in place.\<close>

theorem approval_decision_final:
  assumes ok: "approvals_ok s"
    and decide: "decide_detailed i owner approved reason now s = (Inr (item, changed, conflict), t)"
  shows "approvals_ok t \<and> ap_owner_id item = owner
    \<and> (changed \<longrightarrow> ap_status item = (if approved then Ap_approved else Ap_rejected) \<and> now \<le> ap_expires_at item
        \<and> map_option ap_status (map_of (approvals s) i) = Some Ap_pending)
    \<and> decide_detailed i owner' approved' reason' now' t
        = (if owner' = owner then (Inr (item, False, ap_status item \<noteq> (if approved' then Ap_approved else Ap_rejected)), t)
           else (Inl ApprovalExpired, t))
    \<and> map_of (approvals (cancel_by_run run owner'' now'' t)) i = Some item"
proof -
  from decide obtain current where c: "map_of (approvals s) i = Some current" "ap_owner_id current = owner"
    "map_of (approvals t) i = Some item" "ap_status item \<noteq> Ap_pending" "\<not> changed \<Longrightarrow> t = s \<and> item = current"
    "changed \<Longrightarrow> ap_status current = Ap_pending \<and> now \<le> ap_expires_at current \<and> \<not> conflict
       \<and> item = current\<lparr>ap_status := (if approved then Ap_approved else Ap_rejected), ap_decided_at := Some now,
            ap_rejected_reason := (if approved then None else reason)\<rparr>
       \<and> t = s\<lparr>approvals := AList.update i item (approvals s)\<rparr>"
    by (rule decide_detailed_Inr) blast
  have own: "ap_owner_id item = owner" using c(2,5,6) by (cases changed) auto
  have "ap_approval_id current = i" using ok c(1) by (simp add: approvals_ok_def)
  then have ok': "approvals_ok t"
    using ok c(5,6) by (cases changed) (auto simp: approvals_ok_def distinct_update)
  have "decide_detailed i owner' approved' reason' now' t
        = (if owner' = owner then (Inr (item, False, ap_status item \<noteq> (if approved' then Ap_approved else Ap_rejected)), t)
           else (Inl ApprovalExpired, t))"
    using c(3,4) own by (auto simp: decide_detailed_def get_approval_def Let_def)
  with ok' own c(1,6) cancel_keeps_decision [OF ok' c(3,4)] show ?thesis by auto
qed

definition asked :: approval_item where
  "asked = \<lparr>ap_approval_id = [4], ap_run_id = [5], ap_owner_id = [6], ap_operation_id = [3], ap_tool_id = [1],
     ap_tool_call_id = [2], ap_risk = Warn, ap_reason = [], ap_created_at = 0, ap_expires_at = 100, ap_status = Ap_pending,
     ap_decided_at = None, ap_rejected_reason = None\<rparr>"

theorem approval_decision_final_witness:
  "decide_detailed [4] [6] False None 20
     (no_operations\<lparr>approvals := [([4], asked\<lparr>ap_status := Ap_approved, ap_decided_at := Some 10\<rparr>)]\<rparr>)
   = (Inr (asked\<lparr>ap_status := Ap_approved, ap_decided_at := Some 10\<rparr>, False, True),
      no_operations\<lparr>approvals := [([4], asked\<lparr>ap_status := Ap_approved, ap_decided_at := Some 10\<rparr>)]\<rparr>)"
proof -
  let ?s = "no_operations\<lparr>approvals := [([4], asked)]\<rparr>" and ?item = "asked\<lparr>ap_status := Ap_approved, ap_decided_at := Some 10\<rparr>"
  have ok: "approvals_ok ?s" by (simp add: approvals_ok_def asked_def no_operations_def)
  have "decide_detailed [4] [6] True None 10 ?s = (Inr (?item, True, False), no_operations\<lparr>approvals := [([4], ?item)]\<rparr>)"
    by (simp add: decide_detailed_def get_approval_def asked_def no_operations_def Let_def)
  from approval_decision_final [OF ok this, of "[6]" False None 20] show ?thesis by simp
qed

end
