(* ===== verification/Spec2Isabelle.thy ===== *)
theory Spec2Isabelle
  imports Ownership_Properties Rules_Properties Plan_Loop Tool_System
begin

text \<open>
  Verification of the core of VenAgent, an agent service in Python (\<open>src/src\<close>): people hold conversations, each
  message starts a run, a run plans and calls tools under the grant of its owner.

  \<^bold>\<open>The program.\<close> The stores hold owners, sessions, conversations, messages, runs and grants; the services check
  their input and call the stores. A worker claims a run, drives the planning graph (\<open>agent/graph.py\<close>: planner, executor,
  replanner) and reports the end with its claim. The executor calls tools through the gateway (\<open>tools/gateway.py\<close>), which
  checks the grant, the catalogue, the arguments and the approval, and records one result per call.

  \<^bold>\<open>Conventions.\<close> A Python \<open>str\<close> is a list of code points, a \<open>datetime\<close> the number of its microseconds, a \<open>dict\<close> an
  association list in insertion order (a map where the order is never read), an \<open>int\<close> is unbounded as in Python. A method is
  a function of the state with the name of the method; it returns \<open>(Inl error, state)\<close> when it raises and
  \<open>(Inr value, state)\<close> when it returns. A method under a lock is one step. What the code takes from outside is an argument:
  the clock, the values of \<open>uuid4()\<close> (a theorem that needs them new says so), random tokens, the language models, the
  reading of digits, \<open>jsonschema\<close>, the executor of the tools. Conditions on them are hypotheses.

  \<^bold>\<open>The theories\<close>, with the sources below \<open>src/src\<close>:
  \<^item> \<open>Prelude\<close>: strings, times, dictionaries, JSON, results. \<open>Transition_System\<close>: the locales for operations with an
    enabling condition, an invariant, an order on states and epochs; the stores and the tools interpret them.
  \<^item> \<open>Platform_State\<close>, \<open>Conversation_Store\<close>, \<open>Run_Store\<close>, \<open>Ownership_Store\<close> (\<open>repo/inmemory\<close>, \<open>ownership/models.py\<close>,
    \<open>conversation/models.py\<close>, \<open>agent/runs.py\<close>): the state and every method of the in-memory stores. \<open>Run_Invariant\<close>,
    \<open>Run_Preservation\<close>, \<open>Platform_Steps\<close>, \<open>Platform_History\<close>: the stores as one system of steps, its invariant
    and what later states keep. \<open>Run_Properties\<close>, \<open>Conversation_Properties\<close>, \<open>Ownership_Properties\<close>: verdicts are
    permanent, stale workers are fenced off, requests are idempotent, pages lose nothing, owners are isolated, a deleting
    owner is locked out, passwords, refresh tokens, names and the clean-up of guests, an error changes nothing.
  \<^item> \<open>Conversation_Rules\<close>, \<open>Rules_Properties\<close> (\<open>conversation/rules.py\<close>, \<open>validate_run_id\<close>): identifiers, messages, titles.
  \<^item> \<open>Plan_State\<close>, \<open>Plan_Dag\<close>, \<open>Plan_Cycle\<close>, \<open>Plan_Valid\<close>, \<open>Planner\<close>, \<open>Executor\<close>, \<open>Layer_Contract\<close>,
    \<open>Race_Properties\<close>, \<open>Executor_Properties\<close>, \<open>Replanner\<close>, \<open>Plan_Loop\<close> (\<open>agent/state.py\<close>, \<open>agent/planning\<close>,
    \<open>agent/graph.py\<close>): the cycle test is exact, a sanitized plan is sound, a race has one winner, the reducer
    never meets two facts for one attempt, and the loop leaves when the races it runs end.
  \<^item> \<open>Tool_Models\<close>, \<open>Tool_Stores\<close>, \<open>Schema\<close>, \<open>Redaction\<close>, \<open>Gateway\<close>, \<open>Gateway_Properties\<close>, \<open>Tool_System\<close>
    (\<open>tools/models.py\<close>, \<open>errors.py\<close>, \<open>operation_store.py\<close>, \<open>approval.py\<close>, \<open>schema.py\<close>, \<open>redaction.py\<close>, \<open>gateway.py\<close>): a
    tool runs only when it is allowed; the stores refine a ledger with one result per call; results and decisions are
    final; what the schema walk accepts, what a cut keeps and what is masked.

  \<^bold>\<open>Bounds.\<close> Recursions terminate by their measure. \<open>plan_loop\<close> takes a number of rounds, and \<open>loop_bound\<close> of them are
  enough: each round uses the budget of revisions or resolves a node. A race takes the list of what \<open>asyncio.wait\<close> reports;
  when the list ends before the race does, the race is waiting for ever.

  \<^bold>\<open>Not modelled.\<close> The threads, checkpoints and streaming of \<open>agent/runtime.py\<close> around the modelled parts, and the
  components that the manifest lists as not modelled: the services above the stores, the sandbox and the tool control, skills,
  memory, retrieval and documents, the PostgreSQL stores, adapters, HTTP routes, configuration and wiring. A real
  interleaving inside one method is modelled where the code gives up the lock (races of a layer); elsewhere methods are
  steps.
\<close>

end
